theory Spec2Isabelle
  imports Main "HOL-Library.Word" "HOL-Library.Signed_Division"
begin

unbundle bit_operations_syntax

section \<open>Machine words (runtime/mercury\_types.h)\<close>

text \<open>
  \<^verbatim>\<open>MR_Word\<close> is \<^verbatim>\<open>unsigned MR_WORD_TYPE\<close> and \<^verbatim>\<open>MR_Integer\<close> is the signed
  \<^verbatim>\<open>MR_WORD_TYPE\<close> of the same size.  \<^verbatim>\<open>MR_WORD_TYPE\<close> comes from the
  configuration header, so the width is a parameter: a word is an \<open>'w word\<close> for any
  length \<open>'w\<close>.  A cast between \<^verbatim>\<open>Word\<close> and \<^verbatim>\<open>Integer\<close> keeps the bits; the signed
  reading is \<open>sint\<close>, the unsigned one \<open>unat\<close>/\<open>uint\<close>.  Arithmetic on words wraps.
\<close>

type_synonym 'w Word = "'w word"
type_synonym 'w Integer = "'w word"

text \<open>C's \<^verbatim>\<open>/\<close> and \<^verbatim>\<open>%\<close> on \<^verbatim>\<open>Integer\<close>: signed, truncating towards zero.\<close>

definition Integer_div :: "'w::len Integer \<Rightarrow> 'w Integer \<Rightarrow> 'w Integer" where
  "Integer_div a b = word_of_int (sint a sdiv sint b)"

definition Integer_mod :: "'w::len Integer \<Rightarrow> 'w Integer \<Rightarrow> 'w Integer" where
  "Integer_mod a b = word_of_int (sint a smod sint b)"

text \<open>The largest value of \<^verbatim>\<open>Integer\<close>; signed arithmetic beyond it is undefined in C.\<close>

definition Integer_MAX :: "'w::len itself \<Rightarrow> nat" where
  "Integer_MAX w = 2 ^ (LENGTH('w) - 1) - 1"

section \<open>Type constructors of higher-order types (runtime/mercury\_type\_info.h)\<close>

definition TYPELAYOUT_MAX_VARINT :: "'w::len Word" where
  "TYPELAYOUT_MAX_VARINT = 1024"

definition TYPEINFO_IS_VARIABLE :: "'w::len Word \<Rightarrow> bool" where
  "TYPEINFO_IS_VARIABLE T \<longleftrightarrow> T \<le> TYPELAYOUT_MAX_VARINT"

definition MR_TYPECTOR_IS_HIGHER_ORDER :: "'w::len Word \<Rightarrow> bool" where
  "MR_TYPECTOR_IS_HIGHER_ORDER T \<longleftrightarrow> T \<le> TYPELAYOUT_MAX_VARINT"

definition MR_TYPECTOR_MAKE_PRED :: "'w::len Integer \<Rightarrow> 'w Word" where
  "MR_TYPECTOR_MAKE_PRED Arity = Arity * 2"

definition MR_TYPECTOR_MAKE_FUNC :: "'w::len Integer \<Rightarrow> 'w Word" where
  "MR_TYPECTOR_MAKE_FUNC Arity = Arity * 2 + 1"

definition MR_TYPECTOR_GET_HOT_ARITY :: "'w::len Word \<Rightarrow> 'w Integer" where
  "MR_TYPECTOR_GET_HOT_ARITY T = Integer_div T 2"

definition MR_TYPECTOR_GET_HOT_NAME :: "'w::len Word \<Rightarrow> string" where
  "MR_TYPECTOR_GET_HOT_NAME T = (if Integer_mod T 2 \<noteq> 0 then ''func'' else ''pred'')"

definition MR_TYPECTOR_GET_HOT_MODULE_NAME :: "'w::len Word \<Rightarrow> string" where
  "MR_TYPECTOR_GET_HOT_MODULE_NAME T = ''mercury_builtin''"

section \<open>Memory and type\_infos (runtime/mercury\_type\_info.h)\<close>

text \<open>
  The tables are read through pointers cast to \<^verbatim>\<open>Word *\<close>.  Memory is the word stored at
  each address; \<^verbatim>\<open>((Word *) p)[n]\<close> reads the word \<open>n\<close> words after \<open>p\<close>.  Pointer
  arithmetic is on addresses of the word's width and wraps with it.
\<close>

type_synonym 'w memory = "'w word \<Rightarrow> 'w word"

definition sizeof_Word :: "'w::len itself \<Rightarrow> 'w word" where
  "sizeof_Word w = of_nat (LENGTH('w) div 8)"

definition word_at :: "'w::len memory \<Rightarrow> 'w word \<Rightarrow> 'w Integer \<Rightarrow> 'w Word" where
  "word_at mem p n = mem (p + n * sizeof_Word TYPE('w))"

definition MR_TYPEINFO_GET_BASE_TYPEINFO :: "'w::len memory \<Rightarrow> 'w word \<Rightarrow> 'w word" where
  "MR_TYPEINFO_GET_BASE_TYPEINFO mem TypeInfo =
     (if mem TypeInfo \<noteq> 0 then mem TypeInfo else TypeInfo)"

subsection \<open>The typeclass\_info\<close>

definition MR_typeclass_info_instance_arity :: "'w::len memory \<Rightarrow> 'w word \<Rightarrow> 'w Integer" where
  "MR_typeclass_info_instance_arity mem tci = word_at mem (mem tci) 0"

definition MR_typeclass_info_class_method :: "'w::len memory \<Rightarrow> 'w word \<Rightarrow> 'w Integer \<Rightarrow> 'w word" where
  "MR_typeclass_info_class_method mem tci n = word_at mem (mem tci) n"

definition MR_typeclass_info_arg_typeclass_info ::
    "'w::len memory \<Rightarrow> 'w word \<Rightarrow> 'w Integer \<Rightarrow> 'w Word" where
  "MR_typeclass_info_arg_typeclass_info mem tci n = word_at mem tci n"

definition MR_typeclass_info_superclass_info ::
    "'w::len memory \<Rightarrow> 'w word \<Rightarrow> 'w Integer \<Rightarrow> 'w Word" where
  "MR_typeclass_info_superclass_info mem tci n =
     word_at mem tci (MR_typeclass_info_instance_arity mem tci + n)"

definition MR_typeclass_info_type_info ::
    "'w::len memory \<Rightarrow> 'w word \<Rightarrow> 'w Integer \<Rightarrow> 'w Word" where
  "MR_typeclass_info_type_info mem tci n =
     word_at mem tci (MR_typeclass_info_instance_arity mem tci + n)"

section \<open>Type layouts (runtime/mercury\_type\_info.h)\<close>

subsection \<open>The layout entries of handwritten code\<close>

text \<open>
  The macros are expanded by the preprocessor under the configuration constant
  \<^verbatim>\<open>TAGBITS\<close>, an integer of \<^verbatim>\<open>#if\<close> arithmetic.  \<^verbatim>\<open>mktag\<close> and \<^verbatim>\<open>mkword\<close> come from
  the tag header and are parameters.  An expansion is the list of initialisers it
  leaves; \<^verbatim>\<open>#error\<close> stops the compilation.
\<close>

datatype cpp_error = Error_directive string

definition make_typelayout ::
    "int \<Rightarrow> ('w word \<Rightarrow> 'w word) \<Rightarrow> ('w word \<Rightarrow> 'w word \<Rightarrow> 'w word) \<Rightarrow>
     'w word \<Rightarrow> 'w word \<Rightarrow> 'w word list" where
  "make_typelayout TAGBITS mktag mkword Tag Value =
     (if TAGBITS \<ge> 2 then [mkword (mktag Tag) Value] else [Tag, Value])"

text \<open>
  \<^verbatim>\<open>make_typelayout_for_all_tags(Tag, Value)\<close>: the \<^verbatim>\<open>make_typelayout(Tag, Value)\<close>
  entries it is defined as, each with its own expansion, or the \<^verbatim>\<open>#error\<close> that follows
  the chain of \<^verbatim>\<open>#if\<close>/\<^verbatim>\<open>#elif\<close> when none of them defined the macro.
\<close>

definition make_typelayout_for_all_tags ::
    "int \<Rightarrow> ('w word \<Rightarrow> 'w word) \<Rightarrow> ('w word \<Rightarrow> 'w word \<Rightarrow> 'w word) \<Rightarrow>
     'w word \<Rightarrow> 'w word \<Rightarrow> cpp_error + 'w word list list" where
  "make_typelayout_for_all_tags TAGBITS mktag mkword Tag Value =
     (let e = make_typelayout TAGBITS mktag mkword Tag Value in
      if TAGBITS = 0 then Inr [e]
      else if TAGBITS = 1 then Inr [e, e]
      else if TAGBITS = 2 then Inr [e, e, e, e]
      else if TAGBITS = 3 then Inr [e, e, e, e, e, e, e, e]
      else Inl (Error_directive
        ''make_typelayout_for_all_tags is not defined for this number of tags''))"

subsection \<open>Enum vectors\<close>

definition TYPELAYOUT_CONST_FUNCTOR_OFFSET :: nat where
  "TYPELAYOUT_CONST_FUNCTOR_OFFSET = 2"

definition TYPELAYOUT_ENUM_FUNCTOR_OFFSET :: nat where
  "TYPELAYOUT_ENUM_FUNCTOR_OFFSET = 2"

text \<open>
  \<^verbatim>\<open>MR_TypeLayout_EnumVector\<close> (\<open>'word\<close> is the type of \<^verbatim>\<open>Word\<close>): \<^verbatim>\<open>functor1\<close> is the first of \<^verbatim>\<open>num_sharers\<close> names that
  follow each other in memory; \<open>other_functors\<close> are the ones after it.
\<close>

record 'word MR_TypeLayout_EnumVector =
  enum_or_comp_const :: int
  num_sharers :: 'word
  functor1 :: string
  other_functors :: "string list"

definition MR_TYPELAYOUT_ENUM_VECTOR_IS_ENUM :: "'word MR_TypeLayout_EnumVector \<Rightarrow> int" where
  "MR_TYPELAYOUT_ENUM_VECTOR_IS_ENUM Vector = enum_or_comp_const Vector"

definition MR_TYPELAYOUT_ENUM_VECTOR_NUM_FUNCTORS :: "'word MR_TypeLayout_EnumVector \<Rightarrow> 'word" where
  "MR_TYPELAYOUT_ENUM_VECTOR_NUM_FUNCTORS Vector = num_sharers Vector"

text \<open>
  \<^verbatim>\<open>(&Vector->functor1)[N]\<close>: the name \<open>N\<close> places after \<^verbatim>\<open>functor1\<close>.  Outside the names
  of the vector the read is undefined in C: \<open>None\<close>.
\<close>

definition MR_TYPELAYOUT_ENUM_VECTOR_FUNCTOR_NAME ::
    "'word MR_TypeLayout_EnumVector \<Rightarrow> int \<Rightarrow> string option" where
  "MR_TYPELAYOUT_ENUM_VECTOR_FUNCTOR_NAME Vector N =
     (let names = functor1 Vector # other_functors Vector in
      if 0 \<le> N \<and> N < int (length names) then Some (names ! nat N) else None)"

text \<open>
  The same vector as the compiler lays it out and as the offsets of the header address
  it: one word-sized cell per field, the names from cell
  \<^verbatim>\<open>TYPELAYOUT_ENUM_FUNCTOR_OFFSET\<close> on.
\<close>

datatype 'word cell = Int_cell int | Word_cell 'word | String_cell string

definition enum_vector_cells :: "'word MR_TypeLayout_EnumVector \<Rightarrow> 'word cell list" where
  "enum_vector_cells Vector =
     [Int_cell (enum_or_comp_const Vector), Word_cell (num_sharers Vector),
      String_cell (functor1 Vector)] @ map String_cell (other_functors Vector)"

text \<open>
  Modelled from the spec: the compiler that emits the tables is not part of these
  sources.  An enum vector holds "count of nullary constructors and their names, in
  declaration order"; the header adds that "constant and enumeration values start at 0",
  so the value of a constructor is its place in the declaration.
\<close>

definition enum_vector_of_declaration ::
    "string \<Rightarrow> string list \<Rightarrow> 'w::len Word MR_TypeLayout_EnumVector" where
  "enum_vector_of_declaration c cs =
     \<lparr>enum_or_comp_const = 1, num_sharers = of_nat (length (c # cs)),
      functor1 = c, other_functors = cs\<rparr>"

section \<open>The introspection engine\<close>

text \<open>
  \<^verbatim>\<open>mercury_trace_util.h\<close> declares the functions of the introspection engine:
  \<^verbatim>\<open>MR_trace_lookup_live_lval\<close> returns a word and sets \<^verbatim>\<open>bool *succeeded\<close>, and
  \<^verbatim>\<open>MR_trace_get_type\<close>, \<^verbatim>\<open>MR_trace_get_type_and_value\<close> and
  \<^verbatim>\<open>MR_trace_get_type_and_value_filtered\<close> return a \<^verbatim>\<open>bool\<close> and fill in what their pointer
  arguments point to.  Their bodies, and the types \<^verbatim>\<open>MR_Live_Lval\<close> and
  \<^verbatim>\<open>MR_Stack_Layout_Var\<close>, are not in these sources.
\<close>

text \<open>
  Modelled from the spec: the data of the engine, whose C types are missing.  A location
  is "a tagged choice between hardware register slot and stack-relative slot with explicit
  base", the base being one of "the two live stack pointers (general stack,
  choice-point/frame stack)".  A live variable has a "name, a possibly-parametric type
  expression referencing type-variable placeholders, and a LiveValueLocation".  The
  snapshot holds the register file and what can be read relative to each stack pointer.
\<close>

datatype stack_base = General_stack | Frame_stack

datatype LiveValueLocation = Register_slot nat | Stack_slot stack_base nat

datatype 'word TypeDescriptor = TypeDescriptor 'word "'word TypeDescriptor list"

datatype 'word type_expression =
    Placeholder nat
  | Constructed 'word "'word type_expression list"

record 'word live_variable =
  var_name :: string
  var_type :: "'word type_expression"
  var_locn :: LiveValueLocation

record 'word snapshot =
  register_file :: "'word list"
  general_stack :: "'word list"
  frame_stack :: "'word list"

text \<open>
  What a call hands back: the flag, and what was stored through the pointer arguments,
  if anything.  A retrieval by name hands back the same and the two flags the spec
  names for it.
\<close>

record 'a reply =
  succeeded :: bool
  answer :: "'a option"

record 'a filtered_reply = "'a reply" +
  found :: bool
  type_ok :: bool

definition slot :: "'a list \<Rightarrow> nat \<Rightarrow> 'a option" where
  "slot xs n = (if n < length xs then Some (xs ! n) else None)"

text \<open>
  Modelled from the spec: the body of \<^verbatim>\<open>MR_trace_lookup_live_lval\<close> is missing.  "Step 2 -
  Resolve locations: for each live variable, read its value out of the indicated register
  or stack slot; stack slots are always expressed relative to one of the two live stack
  pointers"; a "location unreadable" is "represented as a boolean success flag".
\<close>

definition read_location :: "'word snapshot \<Rightarrow> LiveValueLocation \<Rightarrow> 'word option" where
  "read_location snap locn =
     (case locn of
        Register_slot n \<Rightarrow> slot (register_file snap) n
      | Stack_slot General_stack n \<Rightarrow> slot (general_stack snap) n
      | Stack_slot Frame_stack n \<Rightarrow> slot (frame_stack snap) n)"

definition MR_trace_lookup_live_lval ::
    "'word snapshot \<Rightarrow> LiveValueLocation \<Rightarrow> 'word reply" where
  "MR_trace_lookup_live_lval snap locn =
     (case read_location snap locn of
        None \<Rightarrow> \<lparr>succeeded = False, answer = None\<rparr>
      | Some v \<Rightarrow> \<lparr>succeeded = True, answer = Some v\<rparr>)"

text \<open>
  Modelled from the spec: the body of \<^verbatim>\<open>MR_trace_get_type\<close> is missing.  "Step 1 -
  Materialize type parameters: any type-variable placeholder appearing in a live
  variable's type expression is resolved by reading the caller-supplied type parameter
  vector for the current procedure activation"; this gives "one concrete TypeDescriptor
  per live variable", and a "type parameter unresolved" is "represented as a boolean
  success flag".  A parameter the vector does not resolve is \<open>None\<close> here.
\<close>

fun materialize ::
    "'word TypeDescriptor option list \<Rightarrow> 'word type_expression \<Rightarrow> 'word TypeDescriptor option"
where
  "materialize type_params (Placeholder n) =
     (case slot type_params n of Some (Some d) \<Rightarrow> Some d | _ \<Rightarrow> None)"
| "materialize type_params (Constructed c args) =
     map_option (TypeDescriptor c) (those (map (materialize type_params) args))"

definition MR_trace_get_type ::
    "'word live_variable \<Rightarrow> 'word TypeDescriptor option list \<Rightarrow> 'word TypeDescriptor reply"
where
  "MR_trace_get_type var type_params =
     (case materialize type_params (var_type var) of
        None \<Rightarrow> \<lparr>succeeded = False, answer = None\<rparr>
      | Some d \<Rightarrow> \<lparr>succeeded = True, answer = Some d\<rparr>)"

text \<open>
  Modelled from the spec: the body of \<^verbatim>\<open>MR_trace_get_type_and_value\<close> is missing.  The
  output is a "(TypeDescriptor, value)" pair; a failure of either step "simply yields no
  result for that variable".
\<close>

definition MR_trace_get_type_and_value ::
    "'word snapshot \<Rightarrow> 'word live_variable \<Rightarrow> 'word TypeDescriptor option list
       \<Rightarrow> ('word TypeDescriptor \<times> 'word) reply"
where
  "MR_trace_get_type_and_value snap var type_params =
     (case materialize type_params (var_type var) of
        None \<Rightarrow> \<lparr>succeeded = False, answer = None\<rparr>
      | Some d \<Rightarrow>
          (case read_location snap (var_locn var) of
             None \<Rightarrow> \<lparr>succeeded = False, answer = None\<rparr>
           | Some v \<Rightarrow> \<lparr>succeeded = True, answer = Some (d, v)\<rparr>))"

text \<open>
  Modelled from the spec: the body of \<^verbatim>\<open>MR_trace_get_type_and_value_filtered\<close> is
  missing, and the header gives it one variable and one \<^verbatim>\<open>bool\<close>; the list and the flags
  \<open>found\<close> and \<open>type_ok\<close> are the spec's.  "Step 3 - Filter (optional): when the engine is
  asked for a single named variable, it scans the live-variable list for a name match and
  returns not found (a boolean success flag, not an exception) if absent, distinct from
  found but the type could not be materialized"; "requesting a named variable absent
  from a live-variable list returns found=false and no value, never a crash; requesting
  one present but whose type parameter cannot be resolved returns found=true,
  type-ok=false."  The scan stops at the first variable of that name.  As for every
  call, "variable not live at this point", "type parameter unresolved" and "location
  unreadable" are each "represented as a boolean success flag": \<open>succeeded\<close>, the
  \<^verbatim>\<open>bool\<close> returned, is false in all three cases and nothing is stored then.
\<close>

definition MR_trace_get_type_and_value_filtered ::
    "'word snapshot \<Rightarrow> 'word live_variable list \<Rightarrow> 'word TypeDescriptor option list
       \<Rightarrow> string \<Rightarrow> ('word TypeDescriptor \<times> 'word) filtered_reply"
where
  "MR_trace_get_type_and_value_filtered snap vars type_params name =
     (case find (\<lambda>var. var_name var = name) vars of
        None \<Rightarrow> \<lparr>succeeded = False, answer = None, found = False, type_ok = False\<rparr>
      | Some var \<Rightarrow>
          (case materialize type_params (var_type var) of
             None \<Rightarrow> \<lparr>succeeded = False, answer = None, found = True, type_ok = False\<rparr>
           | Some d \<Rightarrow>
               (case read_location snap (var_locn var) of
                  None \<Rightarrow>
                    \<lparr>succeeded = False, answer = None, found = True, type_ok = True\<rparr>
                | Some v \<Rightarrow>
                    \<lparr>succeeded = True, answer = Some (d, v), found = True,
                     type_ok = True\<rparr>)))"

section \<open>The initialisation file generator (util/mkinit.c)\<close>

subsection \<open>Characters, strings and streams of C\<close>

definition NUL :: char where
  "NUL = CHR 0x00"

definition newline :: char where
  "newline = CHR 0x0A"

text \<open>The string a buffer holds: the characters before the first NUL.\<close>

definition c_string :: "char list \<Rightarrow> string" where
  "c_string buf = takeWhile (\<lambda>c. c \<noteq> NUL) buf"

text \<open>
  A write through an index into an array.  Outside the array the behaviour is undefined
  in C; the model reports it.
\<close>

datatype c_fault = Out_of_bounds

definition store :: "char list \<Rightarrow> int \<Rightarrow> char \<Rightarrow> c_fault + char list" where
  "store line i c =
     (if 0 \<le> i \<and> i < int (length line) then Inr (line[nat i := c]) else Inl Out_of_bounds)"

definition MAXCALLS :: int where
  "MAXCALLS = 40"

definition MAXLINE :: int where
  "MAXLINE = 256"

subsection \<open>get\_line\<close>

text \<open>
  A \<^verbatim>\<open>FILE *\<close> open for reading is the list of the characters not read yet; \<^verbatim>\<open>getc\<close>
  takes the first one and gives \<^verbatim>\<open>EOF\<close> on the empty list.  The loop of \<^verbatim>\<open>get_line\<close>
  returns the last value of \<^verbatim>\<open>c\<close> (\<open>None\<close> for \<^verbatim>\<open>EOF\<close>), the stream, the buffer and
  \<^verbatim>\<open>num_chars\<close>.
\<close>

fun get_line_loop ::
    "char list \<Rightarrow> char list \<Rightarrow> int \<Rightarrow> int \<Rightarrow> c_fault + (char option \<times> char list \<times> char list \<times> int)" where
  "get_line_loop [] line num_chars limit = Inr (None, [], line, num_chars)"
| "get_line_loop (c # file) line num_chars limit =
     (if c = newline then Inr (Some c, file, line, num_chars)
      else if num_chars < limit then
        (case store line num_chars c of
           Inl e \<Rightarrow> Inl e
         | Inr line' \<Rightarrow> get_line_loop file line' (num_chars + 1) limit)
      else get_line_loop file line num_chars limit)"

text \<open>The result: the value returned, the buffer and the rest of the stream.\<close>

definition get_line :: "char list \<Rightarrow> char list \<Rightarrow> int \<Rightarrow> c_fault + (int \<times> char list \<times> char list)" where
  "get_line file line line_max =
     (let limit = line_max - 2 in
      case get_line_loop file line 0 limit of
        Inl e \<Rightarrow> Inl e
      | Inr (c, file', line1, num_chars) \<Rightarrow>
          (case (if c = Some newline \<or> num_chars > 0
                 then (case store line1 num_chars newline of
                         Inl e \<Rightarrow> Inl e
                       | Inr line2 \<Rightarrow> Inr (line2, num_chars + 1))
                 else Inr (line1, num_chars)) of
             Inl e \<Rightarrow> Inl e
           | Inr (line2, num_chars') \<Rightarrow>
               (case store line2 num_chars' NUL of
                  Inl e \<Rightarrow> Inl e
                | Inr line3 \<Rightarrow> Inr (num_chars', line3, file'))))"

text \<open>
  What \<^verbatim>\<open>get_line\<close> is to compute, for comparison: the characters up to the next newline,
  cut to \<open>line_max - 2\<close>, with a newline after them unless the stream ended with nothing
  kept; and what is left of the stream after that newline.
\<close>

definition line_kept :: "char list \<Rightarrow> int \<Rightarrow> char list" where
  "line_kept file line_max = take (nat (line_max - 2)) (takeWhile (\<lambda>c. c \<noteq> newline) file)"

definition line_stored :: "char list \<Rightarrow> int \<Rightarrow> char list" where
  "line_stored file line_max =
     (if newline \<in> set file \<or> line_kept file line_max \<noteq> []
      then line_kept file line_max @ [newline] else [])"

definition line_rest :: "char list \<Rightarrow> char list" where
  "line_rest file = drop 1 (dropWhile (\<lambda>c. c \<noteq> newline) file)"

subsection \<open>Purposes and their tables\<close>

datatype Purpose = PURPOSE_INIT | PURPOSE_TYPE_TABLE | PURPOSE_DEBUGGER | PURPOSE_PROC_STATIC

definition if_need_to_init :: "string" where
  "if_need_to_init = concat
    [''#if defined(MR_MAY_NEED_INITIALIZATION)\<newline>'']"

definition if_need_deep_prof :: "string" where
  "if_need_deep_prof = concat
    [''#if defined(MR_DEEP_PROFILING)\<newline>'']"

fun main_func_name :: "Purpose \<Rightarrow> string" where
  "main_func_name PURPOSE_INIT = ''init_modules''"
| "main_func_name PURPOSE_TYPE_TABLE = ''init_modules_type_tables''"
| "main_func_name PURPOSE_DEBUGGER = ''init_modules_debugger''"
| "main_func_name PURPOSE_PROC_STATIC = ''write_out_proc_statics''"

fun module_suffix :: "Purpose \<Rightarrow> string" where
  "module_suffix PURPOSE_INIT = ''init''"
| "module_suffix PURPOSE_TYPE_TABLE = ''init_type_tables''"
| "module_suffix PURPOSE_DEBUGGER = ''init_debugger''"
| "module_suffix PURPOSE_PROC_STATIC = ''write_out_proc_statics''"

fun init_suffix :: "Purpose \<Rightarrow> string" where
  "init_suffix PURPOSE_INIT = []"
| "init_suffix PURPOSE_TYPE_TABLE = ''_type_tables''"
| "init_suffix PURPOSE_DEBUGGER = ''_debugger''"
| "init_suffix PURPOSE_PROC_STATIC = ''write_out_proc_statics''"

fun bunch_function_guard :: "Purpose \<Rightarrow> string option" where
  "bunch_function_guard PURPOSE_INIT = Some if_need_to_init"
| "bunch_function_guard PURPOSE_TYPE_TABLE = None"
| "bunch_function_guard PURPOSE_DEBUGGER = Some if_need_to_init"
| "bunch_function_guard PURPOSE_PROC_STATIC = Some if_need_deep_prof"

fun main_func_guard :: "Purpose \<Rightarrow> string option" where
  "main_func_guard PURPOSE_INIT = None"
| "main_func_guard PURPOSE_TYPE_TABLE = None"
| "main_func_guard PURPOSE_DEBUGGER = None"
| "main_func_guard PURPOSE_PROC_STATIC = Some if_need_deep_prof"

fun main_func_body_guard :: "Purpose \<Rightarrow> string option" where
  "main_func_body_guard PURPOSE_INIT = Some if_need_to_init"
| "main_func_body_guard PURPOSE_TYPE_TABLE = None"
| "main_func_body_guard PURPOSE_DEBUGGER = Some if_need_to_init"
| "main_func_body_guard PURPOSE_PROC_STATIC = None"

fun main_func_arg_defn :: "Purpose \<Rightarrow> string" where
  "main_func_arg_defn PURPOSE_INIT = ''void''"
| "main_func_arg_defn PURPOSE_TYPE_TABLE = ''void''"
| "main_func_arg_defn PURPOSE_DEBUGGER = ''void''"
| "main_func_arg_defn PURPOSE_PROC_STATIC = ''FILE *fp''"

fun main_func_arg_decl :: "Purpose \<Rightarrow> string" where
  "main_func_arg_decl PURPOSE_INIT = ''void''"
| "main_func_arg_decl PURPOSE_TYPE_TABLE = ''void''"
| "main_func_arg_decl PURPOSE_DEBUGGER = ''void''"
| "main_func_arg_decl PURPOSE_PROC_STATIC = ''FILE *''"

fun main_func_arg :: "Purpose \<Rightarrow> string" where
  "main_func_arg PURPOSE_INIT = []"
| "main_func_arg PURPOSE_TYPE_TABLE = []"
| "main_func_arg PURPOSE_DEBUGGER = []"
| "main_func_arg PURPOSE_PROC_STATIC = ''fp''"

subsection \<open>Printing numbers\<close>

text \<open>What \<^verbatim>\<open>printf\<close> writes for \<^verbatim>\<open>%d\<close>: the digits to base ten, after a minus sign if needed.\<close>

definition digit :: "nat \<Rightarrow> char" where
  "digit d = char_of (of_char CHR ''0'' + d)"

function decimal :: "nat \<Rightarrow> string" where
  "decimal n = (if 10 \<le> n then decimal (n div 10) @ [digit (n mod 10)] else [digit n])"
  by pat_completeness auto
termination
  by (relation "measure (\<lambda>n. n)") auto

declare decimal.simps [simp del]

definition printf_d :: "int \<Rightarrow> string" where
  "printf_d i = (if 0 \<le> i then decimal (nat i) else CHR ''-'' # decimal (nat (- i)))"

subsection \<open>The code fragments of the output file\<close>

definition header1 :: "string \<Rightarrow> string" where
  "header1 g = concat
    [''/*\<newline>'',
     ''** This code automatically generated by mkinit - do not edit.\<newline>'',
     ''**\<newline>'',
     ''** Grade: '' @ g @ ''\<newline>'',
     ''** Input files:\<newline>'',
     ''**\<newline>'']"

definition header2 :: "int \<Rightarrow> string" where
  "header2 tracing = concat
    [''*/\<newline>'',
     ''\<newline>'',
     ''#include <stddef.h>\<newline>'',
     ''#include '' @ [CHR 0x22] @ ''mercury_init.h'' @ [CHR 0x22] @ ''\<newline>'',
     ''#include '' @ [CHR 0x22] @ ''mercury_grade.h'' @ [CHR 0x22] @ ''\<newline>'',
     ''\<newline>'',
     ''#define MR_TRACE_ENABLED '' @ printf_d tracing @ ''\<newline>'',
     ''#if MR_TRACE_ENABLED\<newline>'',
     ''  #define MR_MAY_NEED_INITIALIZATION\<newline>'',
     ''#endif\<newline>'',
     ''\<newline>'',
     ''/*\<newline>'',
     ''** Work around a bug in the Solaris 2.X (X<=4) linker;\<newline>'',
     ''** on these machines, init_gc must be statically linked.\<newline>'',
     ''*/\<newline>'',
     ''\<newline>'',
     ''#ifdef MR_CONSERVATIVE_GC\<newline>'',
     ''static void init_gc(void)\<newline>'',
     ''{\<newline>'',
     [CHR 0x09] @ ''GC_INIT();\<newline>'',
     ''}\<newline>'',
     ''#endif\<newline>'']"

definition aditi_header :: "string" where
  "aditi_header = concat
    [''\<newline>'',
     ''/*\<newline>'',
     ''** MR_do_load_aditi_rl_code() uploads all the Aditi-RL code\<newline>'',
     ''** for the program to a database to which the program currently\<newline>'',
     ''** has a connection, returning a status value as described in\<newline>'',
     ''** aditi2/src/api/aditi_err.h in the Aditi sources.\<newline>'',
     ''*/\<newline>'',
     ''static MR_Box MR_do_load_aditi_rl_code(MR_Box connection,\<newline>'',
     [CHR 0x09] @ [CHR 0x09] @ [CHR 0x09] @ ''MR_Box transaction);\<newline>'']"

definition mercury_funcs1 :: "string \<Rightarrow> string \<Rightarrow> string" where
  "mercury_funcs1 hl ep = concat
    [''\<newline>'',
     ''#ifdef MR_HIGHLEVEL_CODE\<newline>'',
     ''  extern void MR_CALL '' @ hl @ ''(void);\<newline>'',
     ''#else\<newline>'',
     ''  MR_declare_entry('' @ ep @ '');\<newline>'',
     ''#endif\<newline>'',
     ''\<newline>'',
     ''#if defined(MR_USE_DLLS)\<newline>'',
     ''  #if !defined(libmer_DEFINE_DLL)\<newline>'',
     ''       #define libmer_impure_ptr '' @ [CHR 0x5C] @ ''\<newline>'',
     [CHR 0x09] @ [CHR 0x09] @ ''(*__imp_libmer_impure_ptr)\<newline>'',
     [CHR 0x09] @ ''extern void *libmer_impure_ptr;\<newline>'',
     ''  #endif\<newline>'',
     ''  #if !defined(libmercury_DEFINE_DLL)\<newline>'',
     ''       #define libmercury_impure_ptr '' @ [CHR 0x5C] @ ''\<newline>'',
     [CHR 0x09] @ [CHR 0x09] @ ''(*__imp_libmercury_impure_ptr)\<newline>'',
     [CHR 0x09] @ ''extern void *libmercury_impure_ptr;\<newline>'',
     ''  #endif\<newline>'',
     ''#endif\<newline>'',
     ''\<newline>'',
     ''void\<newline>'',
     ''mercury_init(int argc, char **argv, void *stackbottom)\<newline>'',
     ''{\<newline>'',
     ''\<newline>'',
     ''#ifdef MR_CONSERVATIVE_GC\<newline>'',
     [CHR 0x09] @ ''/*\<newline>'',
     [CHR 0x09] @ ''** Explicitly register the bottom of the stack, so that the\<newline>'',
     [CHR 0x09] @ ''** GC knows where it starts.  This is necessary for AIX 4.1\<newline>'',
     [CHR 0x09] @ ''** on RS/6000, and for gnu-win32 on Windows 95 or NT.\<newline>'',
     [CHR 0x09] @ ''** it may also be helpful on other systems.\<newline>'',
     [CHR 0x09] @ ''*/\<newline>'',
     [CHR 0x09] @ ''GC_stackbottom = stackbottom;\<newline>'',
     ''#endif\<newline>'',
     ''\<newline>'',
     ''/*\<newline>'',
     ''** If we'' @ [CHR 0x27] @ ''re using DLLs on gnu-win32, then we need\<newline>'',
     ''** to take special steps to initialize _impure_ptr\<newline>'',
     ''** for the DLLs.\<newline>'',
     ''*/\<newline>'',
     ''#if defined(MR_USE_DLLS)\<newline>'',
     ''  #if !defined(libmer_DEFINE_DLL)\<newline>'',
     [CHR 0x09] @ ''libmer_impure_ptr = _impure_ptr;\<newline>'',
     ''  #endif\<newline>'',
     ''  #if !defined(libmercury_DEFINE_DLL)\<newline>'',
     [CHR 0x09] @ ''libmercury_impure_ptr = _impure_ptr;\<newline>'',
     ''  #endif\<newline>'',
     ''#endif\<newline>'',
     ''\<newline>'']"

definition mercury_funcs2 :: "string \<Rightarrow> string \<Rightarrow> string \<Rightarrow> string" where
  "mercury_funcs2 aditi_load_func hl ep = concat
    [[CHR 0x09] @ ''MR_address_of_mercury_init_io = mercury_init_io;\<newline>'',
     [CHR 0x09] @ ''MR_address_of_init_modules = init_modules;\<newline>'',
     [CHR 0x09] @ ''MR_address_of_init_modules_type_tables = init_modules_type_tables;\<newline>'',
     [CHR 0x09] @ ''MR_address_of_init_modules_debugger = init_modules_debugger;\<newline>'',
     ''#ifdef MR_DEEP_PROFILING\<newline>'',
     [CHR 0x09] @ ''MR_address_of_write_out_proc_statics =\<newline>'',
     [CHR 0x09] @ [CHR 0x09] @ ''write_out_proc_statics;\<newline>'',
     ''#endif\<newline>'',
     [CHR 0x09] @ ''MR_address_of_do_load_aditi_rl_code = '' @ aditi_load_func @ '';\<newline>'',
     ''#ifdef MR_CONSERVATIVE_GC\<newline>'',
     [CHR 0x09] @ ''MR_address_of_init_gc = init_gc;\<newline>'',
     ''#endif\<newline>'',
     [CHR 0x09] @ ''MR_library_initializer = ML_io_init_state;\<newline>'',
     [CHR 0x09] @ ''MR_library_finalizer = ML_io_finalize_state;\<newline>'',
     [CHR 0x09] @ ''MR_io_stdin_stream = ML_io_stdin_stream;\<newline>'',
     [CHR 0x09] @ ''MR_io_stdout_stream = ML_io_stdout_stream;\<newline>'',
     [CHR 0x09] @ ''MR_io_stderr_stream = ML_io_stderr_stream;\<newline>'',
     [CHR 0x09] @ ''MR_io_print_to_cur_stream = ML_io_print_to_cur_stream;\<newline>'',
     [CHR 0x09] @ ''MR_io_print_to_stream = ML_io_print_to_stream;\<newline>'',
     ''#if MR_TRACE_ENABLED\<newline>'',
     [CHR 0x09] @ ''MR_trace_func_ptr = MR_trace_real;\<newline>'',
     [CHR 0x09] @ ''MR_register_module_layout = MR_register_module_layout_real;\<newline>'',
     [CHR 0x09] @ ''MR_address_of_trace_getline = MR_trace_getline;\<newline>'',
     [CHR 0x09] @ ''MR_address_of_trace_get_command = MR_trace_get_command;\<newline>'',
     [CHR 0x09] @ ''MR_address_of_trace_browse_all_on_level =\<newline>'',
     [CHR 0x09] @ [CHR 0x09] @ ''MR_trace_browse_all_on_level;\<newline>'',
     [CHR 0x09] @ ''MR_address_of_trace_interrupt_handler =\<newline>'',
     [CHR 0x09] @ [CHR 0x09] @ ''MR_trace_interrupt_handler;\<newline>'',
     ''  #ifdef MR_USE_EXTERNAL_DEBUGGER\<newline>'',
     [CHR 0x09] @ ''MR_address_of_trace_init_external = MR_trace_init_external;\<newline>'',
     [CHR 0x09] @ ''MR_address_of_trace_final_external = MR_trace_final_external;\<newline>'',
     ''  #endif\<newline>'',
     ''#else\<newline>'',
     [CHR 0x09] @ ''MR_trace_func_ptr = MR_trace_fake;\<newline>'',
     [CHR 0x09] @ ''MR_register_module_layout = NULL;\<newline>'',
     [CHR 0x09] @ ''MR_address_of_trace_getline = NULL;\<newline>'',
     [CHR 0x09] @ ''MR_address_of_trace_get_command = NULL;\<newline>'',
     [CHR 0x09] @ ''MR_address_of_trace_browse_all_on_level = NULL;\<newline>'',
     [CHR 0x09] @ ''MR_address_of_trace_interrupt_handler = NULL;\<newline>'',
     ''  #ifdef MR_USE_EXTERNAL_DEBUGGER\<newline>'',
     [CHR 0x09] @ ''MR_address_of_trace_init_external = NULL;\<newline>'',
     [CHR 0x09] @ ''MR_address_of_trace_final_external = NULL;\<newline>'',
     ''  #endif\<newline>'',
     ''#endif\<newline>'',
     ''#if defined(MR_USE_GCC_NONLOCAL_GOTOS) && !defined(MR_USE_ASM_LABELS)\<newline>'',
     [CHR 0x09] @ ''MR_do_init_modules();\<newline>'',
     ''#endif\<newline>'',
     ''#ifdef MR_HIGHLEVEL_CODE\<newline>'',
     [CHR 0x09] @ ''MR_program_entry_point = '' @ hl @ '';\<newline>'',
     ''#else\<newline>'',
     [CHR 0x09] @ ''MR_program_entry_point = MR_ENTRY('' @ ep @ '');\<newline>'',
     ''#endif\<newline>'']"

definition mercury_funcs3 :: "string" where
  "mercury_funcs3 = concat
    [''\<newline>'',
     [CHR 0x09] @ ''mercury_runtime_init(argc, argv);\<newline>'',
     [CHR 0x09] @ ''return;\<newline>'',
     ''}\<newline>'',
     ''\<newline>'',
     ''void\<newline>'',
     ''mercury_call_main(void)\<newline>'',
     ''{\<newline>'',
     [CHR 0x09] @ ''mercury_runtime_main();\<newline>'',
     ''}\<newline>'',
     ''\<newline>'',
     ''int\<newline>'',
     ''mercury_terminate(void)\<newline>'',
     ''{\<newline>'',
     [CHR 0x09] @ ''return mercury_runtime_terminate();\<newline>'',
     ''}\<newline>'',
     ''\<newline>'',
     ''int\<newline>'',
     ''mercury_main(int argc, char **argv)\<newline>'',
     ''{\<newline>'',
     [CHR 0x09] @ ''void *dummy;\<newline>'',
     [CHR 0x09] @ ''mercury_init(argc, argv, &dummy);\<newline>'',
     [CHR 0x09] @ ''mercury_call_main();\<newline>'',
     [CHR 0x09] @ ''return mercury_terminate();\<newline>'',
     ''}\<newline>'',
     ''\<newline>'',
     ''/* ensure that everything gets compiled in the same grade */\<newline>'',
     ''static const void *const MR_grade = &MR_GRADE_VAR;\<newline>'']"

definition main_func :: "string" where
  "main_func = concat
    [''\<newline>'',
     ''int\<newline>'',
     ''main(int argc, char **argv)\<newline>'',
     ''{\<newline>'',
     [CHR 0x09] @ ''return mercury_main(argc, argv);\<newline>'',
     ''}\<newline>'']"

definition aditi_load_function_body :: "string" where
  "aditi_load_function_body = concat
    [''        /* The ADITI_TYPE macro puts a prefix on the type name. */\<newline>'',
     ''        ADITI_TYPE(AditiStatus) status = ADITI_ENUM(AditiStatus_OK);\<newline>'',
     ''        int i;\<newline>'',
     ''        char *bytecode;\<newline>'',
     ''        MR_Box result;\<newline>'',
     ''        apiID connection;\<newline>'',
     ''        apiID transaction;\<newline>'',
     ''\<newline>'',
     ''        MR_MAYBE_UNBOX_FOREIGN_TYPE(apiID, boxed_connection, \<newline>'',
     ''                        connection);\<newline>'',
     ''        MR_MAYBE_UNBOX_FOREIGN_TYPE(apiID, boxed_transaction, \<newline>'',
     ''                        transaction);\<newline>'',
     ''\<newline>'',
     ''        /*\<newline>'',
     ''        ** Load the Aditi-RL for each module in turn.\<newline>'',
     ''        */\<newline>'',
     ''        for (i = 0; i < num_rl_modules; i++) {\<newline>'',
     ''            if (*rl_data_lengths[i] != 0) {\<newline>'',
     ''                /* The ADITI_FUNC macro puts a prefix on the function name. */\<newline>'',
     ''                status = ADITI_FUNC(api_blob_to_string)(*rl_data_lengths[i],\<newline>'',
     ''                                (char *) rl_data[i], &bytecode);\<newline>'',
     ''                /* The ADITI_ENUM macro puts a prefix on the enum constant. */\<newline>'',
     ''                if (status != ADITI_ENUM(AditiStatus_OK)) {\<newline>'',
     ''                    break;\<newline>'',
     ''                }\<newline>'',
     ''                status = ADITI_FUNC(module_load)(connection,\<newline>'',
     ''                        transaction, bytecode);\<newline>'',
     ''                free(bytecode);\<newline>'',
     ''                if (status != ADITI_ENUM(AditiStatus_OK)) {\<newline>'',
     ''                    break;\<newline>'',
     ''                }\<newline>'',
     ''            }\<newline>'',
     ''        }\<newline>'',
     ''        MR_MAYBE_BOX_FOREIGN_TYPE(ADITI_TYPE(AditiStatus), status, result);\<newline>'',
     ''        return result;\<newline>'',
     ''}\<newline>'']"

subsection \<open>Options, files and the state of a run\<close>

text \<open>
  The options and arguments, as \<^verbatim>\<open>parse_options\<close> leaves them in the global variables;
  \<^verbatim>\<open>num_files\<close> is the length of \<open>files\<close>.
\<close>

record options =
  MR_progname :: string
  output_file_name :: "string option"
  entry_point :: string
  hl_entry_point :: string
  grade :: string
  maxcalls :: int
  files :: "string list"
  output_main_func :: bool
  c_files_contain_extra_inits :: bool
  aditi :: bool
  need_initialization_code :: bool
  need_tracing :: bool
  runtime_flags :: "string list"
  init_file_dirs :: "string list"

text \<open>
  The files of the run: \<open>contents\<close> gives the characters of a file that exists and can
  be opened for reading, \<open>open_error\<close> the text of \<^verbatim>\<open>strerror(errno)\<close> after a failed
  open, \<open>writable\<close> tells whether \<^verbatim>\<open>freopen(name, "w", stdout)\<close> succeeds.
\<close>

record file_system =
  contents :: "string \<Rightarrow> string option"
  open_error :: "string \<Rightarrow> string"
  writable :: "string \<Rightarrow> bool"

text \<open>
  The variables a run changes: the globals \<^verbatim>\<open>num_errors\<close> and \<^verbatim>\<open>rl_data\<close>, what has
  been written to \<^verbatim>\<open>stdout\<close> and \<^verbatim>\<open>stderr\<close> (one entry per call that writes), and the
  two counters of \<^verbatim>\<open>output_sub_init_functions\<close> that the functions below it reach
  through \<^verbatim>\<open>num_bunches_ptr\<close> and \<^verbatim>\<open>num_calls_in_cur_bunch_ptr\<close>.
\<close>

record mkinit_state =
  num_errors :: int
  rl_data :: "string list"
  stdout :: "string list"
  stderr :: "string list"
  num_bunches :: int
  num_calls_in_cur_bunch :: int

text \<open>
  A function either returns or stops the program: by \<^verbatim>\<open>exit\<close>, or by running into
  behaviour C leaves undefined (an \<^verbatim>\<open>int\<close> incremented beyond \<^verbatim>\<open>INT_MAX\<close>, a write
  beyond an array).  The state at that point comes with it.  \<^verbatim>\<open>checked_malloc\<close> is
  taken to get the memory it asks for.
\<close>

datatype stop = Exit int | Undefined_behaviour

type_synonym 'a outcome = "(stop \<times> mkinit_state) + 'a"

definition and_then :: "'a outcome \<Rightarrow> ('a \<Rightarrow> 'b outcome) \<Rightarrow> 'b outcome" where
  "and_then m f = (case m of Inl e \<Rightarrow> Inl e | Inr x \<Rightarrow> f x)"

definition EXIT_SUCCESS :: int where
  "EXIT_SUCCESS = 0"

definition EXIT_FAILURE :: int where
  "EXIT_FAILURE = 1"

text \<open>\<^verbatim>\<open>int\<close> is taken to be 32 bits wide.\<close>

definition INT_MAX :: int where
  "INT_MAX = 2147483647"

definition increment :: "int \<Rightarrow> int option" where
  "increment x = (if x < INT_MAX then Some (x + 1) else None)"

definition print :: "string \<Rightarrow> mkinit_state \<Rightarrow> mkinit_state" where
  "print s st = st\<lparr>stdout := stdout st @ [s]\<rparr>"

definition eprint :: "string \<Rightarrow> mkinit_state \<Rightarrow> mkinit_state" where
  "eprint s st = st\<lparr>stderr := stderr st @ [s]\<rparr>"

text \<open>
  The header with the character tests is not among these sources: \<^verbatim>\<open>MR_isalnum\<close> is
  taken to be \<^verbatim>\<open>isalnum\<close> of the C locale, \<^verbatim>\<open>MR_isalnumunder\<close> that or an underscore.
\<close>

definition MR_isalnum :: "char \<Rightarrow> bool" where
  "MR_isalnum c \<longleftrightarrow>
     (let n = (of_char c :: nat) in
      (48 \<le> n \<and> n \<le> 57) \<or> (65 \<le> n \<and> n \<le> 90) \<or> (97 \<le> n \<and> n \<le> 122))"

definition MR_isalnumunder :: "char \<Rightarrow> bool" where
  "MR_isalnumunder c \<longleftrightarrow> MR_isalnum c \<or> c = CHR ''_''"

subsection \<open>output\_init\_function\<close>

definition bunch_function_head :: "Purpose \<Rightarrow> int \<Rightarrow> string" where
  "bunch_function_head purpose n =
     ''static void '' @ main_func_name purpose @ ''_'' @ printf_d n @ ''(''
       @ main_func_arg_defn purpose @ '')\<newline>''"

definition init_call_declaration :: "Purpose \<Rightarrow> string \<Rightarrow> bool \<Rightarrow> string" where
  "init_call_declaration purpose func_name special_module =
     [CHR 0x09] @ ''{ extern void '' @ func_name @ (if special_module then ''_'' else [])
       @ module_suffix purpose @ ''('' @ main_func_arg_decl purpose @ '');\<newline>''"

definition init_call :: "Purpose \<Rightarrow> string \<Rightarrow> bool \<Rightarrow> string" where
  "init_call purpose func_name special_module =
     [CHR 0x09] @ ''  '' @ func_name @ (if special_module then ''_'' else [])
       @ module_suffix purpose @ ''('' @ main_func_arg purpose @ ''); }\<newline>''"

definition output_init_function ::
    "options \<Rightarrow> string \<Rightarrow> Purpose \<Rightarrow> bool \<Rightarrow> mkinit_state \<Rightarrow> mkinit_state outcome" where
  "output_init_function opts func_name purpose special_module st =
     (if purpose = PURPOSE_DEBUGGER \<and> special_module then Inr st
      else
        and_then
          (if num_calls_in_cur_bunch st \<ge> maxcalls opts then
             (let st1 = print ''}\<newline>\<newline>'' st in
              case increment (num_bunches st1) of
                None \<Rightarrow> Inl (Undefined_behaviour, st1)
              | Some n \<Rightarrow>
                  Inr (print ''{\<newline>''
                        (print (bunch_function_head purpose n)
                          (st1\<lparr>num_bunches := n, num_calls_in_cur_bunch := 0\<rparr>))))
           else Inr st)
          (\<lambda>st2.
             case increment (num_calls_in_cur_bunch st2) of
               None \<Rightarrow> Inl (Undefined_behaviour, st2)
             | Some n \<Rightarrow>
                 Inr (print (init_call purpose func_name special_module)
                       (print (init_call_declaration purpose func_name special_module)
                         (st2\<lparr>num_calls_in_cur_bunch := n\<rparr>)))))"

subsection \<open>process\_c\_file\<close>

text \<open>\<^verbatim>\<open>strrchr\<close> and the step past the character found: what follows its last occurrence.\<close>

definition after_last :: "char \<Rightarrow> string \<Rightarrow> string" where
  "after_last c s = rev (takeWhile (\<lambda>x. x \<noteq> c) (rev s))"

text \<open>
  The loop that builds the function name: \<open>filename\<close> is what is left of the file name,
  \<open>position\<close> the index of its first dot.
\<close>

function mangle_components :: "string \<Rightarrow> string \<Rightarrow> string" where
  "mangle_components filename func_name =
     (if CHR ''.'' \<in> set filename then
        (let position = length (takeWhile (\<lambda>c. c \<noteq> CHR ''.'') filename);
             func_name1 = func_name @ ''__'';
             f_prefix = (take 2 filename = ''f_'');
             func_name2 = (if f_prefix then func_name1 @ ''f__'' else func_name1);
             skipped = (if f_prefix then 2 else 0);
             func_name3 = func_name2 @ take (position - skipped) (drop skipped filename)
         in mangle_components (drop (position + 1) filename) func_name3)
      else func_name)"
  by pat_completeness auto
termination
  by (relation "measure (\<lambda>(filename, func_name). length filename)")
    (auto intro!: diff_Suc_less dest: length_pos_if_in_set)

declare mangle_components.simps [simp del]

definition special_character :: "string \<Rightarrow> char option" where
  "special_character filename = find (\<lambda>c. c \<noteq> CHR ''.'' \<and> \<not> MR_isalnumunder c) filename"

definition aditi_rl_data_str :: string where
  "aditi_rl_data_str = ''mercury__aditi_rl_data__''"

definition add_rl_data :: "string \<Rightarrow> mkinit_state \<Rightarrow> mkinit_state" where
  "add_rl_data data st = st\<lparr>rl_data := data # rl_data st\<rparr>"

definition process_c_file ::
    "options \<Rightarrow> string \<Rightarrow> Purpose \<Rightarrow> mkinit_state \<Rightarrow> mkinit_state outcome" where
  "process_c_file opts filename0 purpose st =
     (let filename = after_last (CHR 0x5C) (after_last CHR ''/'' filename0) in
      case special_character filename of
        Some c \<Rightarrow>
          Inl (Exit EXIT_FAILURE,
            eprint (''File name '' @ [CHR 0x60] @ filename @ [CHR 0x27]
                      @ '' contains special character '' @ [CHR 0x60, c, CHR 0x27] @ ''.\<newline>'')
              (eprint (''mkinit: sorry, file names containing ''
                         @ ''special characters are not supported.\<newline>'') st))
      | None \<Rightarrow>
          (let func_name = mangle_components filename ''mercury'' @ ''__'' in
           if length func_name \<ge> 1000 then Inl (Undefined_behaviour, st)
           else
             and_then (output_init_function opts func_name purpose False st)
               (\<lambda>st1.
                  if aditi opts then
                    (let mercury_len = length ''mercury__'';
                         module_name_size = length func_name - mercury_len - length ''__'';
                         rl_data_name =
                           aditi_rl_data_str @ take module_name_size (drop mercury_len func_name)
                     in Inr (add_rl_data rl_data_name st1))
                  else Inr st1)))"

subsection \<open>process\_init\_file\<close>

text \<open>A call of \<^verbatim>\<open>get_line\<close> that returns a positive number has taken characters from the stream.\<close>

lemma get_line_loop_consumes:
  "get_line_loop f buf k l = Inr (c, f', buf', n) \<Longrightarrow>
     length f' \<le> length f \<and> k \<le> n \<and> (c = Some newline \<or> k < n \<longrightarrow> length f' < length f)"
proof (induction f arbitrary: buf k)
  case Nil
  then show ?case by auto
next
  case (Cons x f)
  show ?case
  proof (cases "x = newline")
    case True
    with Cons.prems show ?thesis by auto
  next
    case nonl: False
    show ?thesis
    proof (cases "k < l")
      case True
      with nonl Cons.prems obtain buf1
        where "get_line_loop f buf1 (k + 1) l = Inr (c, f', buf', n)"
        by (auto split: sum.splits)
      from Cons.IH [OF this] show ?thesis by auto
    next
      case False
      with nonl Cons.prems have "get_line_loop f buf k l = Inr (c, f', buf', n)"
        by simp
      from Cons.IH [OF this] show ?thesis by auto
    qed
  qed
qed

lemma get_line_consumes:
  assumes "get_line f buf line_max = Inr (n, buf', f')" and "0 < n"
  shows "length f' < length f"
proof -
  from assms(1) obtain c buf1 k
    where loop: "get_line_loop f buf 0 (line_max - 2) = Inr (c, f', buf1, k)"
      and n: "n = (if c = Some newline \<or> k > 0 then k + 1 else k)"
    by (auto simp: get_line_def Let_def split: sum.splits if_splits prod.splits)
  from get_line_loop_consumes [OF loop] assms(2) n show ?thesis
    by (auto split: if_splits)
qed

definition init_str :: string where
  "init_str = ''INIT ''"

definition endinit_str :: string where
  "endinit_str = ''ENDINIT ''"

definition aditi_init_str :: string where
  "aditi_init_str = ''ADITI_DATA ''"

definition init_strlen :: nat where
  "init_strlen = length init_str"

definition endinit_strlen :: nat where
  "endinit_strlen = length endinit_str"

definition aditi_init_strlen :: nat where
  "aditi_init_strlen = length aditi_init_str"

text \<open>
  The loop over the lines of an open \<^verbatim>\<open>.init\<close> file: \<open>cfile\<close> is the stream, \<open>line\<close> the
  array of \<^verbatim>\<open>MAXLINE\<close> characters.  \<^verbatim>\<open>strncmp(line, s, n) == 0\<close> for a string \<open>s\<close> of \<open>n\<close>
  characters holds when the string in \<open>line\<close> starts with \<open>s\<close>.
\<close>

function process_init_lines ::
    "options \<Rightarrow> Purpose \<Rightarrow> char list \<Rightarrow> char list \<Rightarrow> mkinit_state \<Rightarrow> mkinit_state outcome" where
  "process_init_lines opts purpose cfile line st =
     (case get_line cfile line MAXLINE of
        Inl fault \<Rightarrow> Inl (Undefined_behaviour, st)
      | Inr (n, line1, cfile1) \<Rightarrow>
          if n > 0 then
            (if take init_strlen (c_string line1) = init_str then
               (let j = init_strlen + length (takeWhile MR_isalnumunder (drop init_strlen line1));
                    line2 = line1[j := NUL];
                    func_name_len = length (c_string (drop init_strlen line2));
                    ending = init_strlen + func_name_len - 4;
                    is_init = (take 4 (c_string (drop ending line2)) = ''init'');
                    line3 = (if is_init then line2[ending := NUL] else line2);
                    special = (\<not> is_init);
                    func_name = c_string (drop init_strlen line3)
                in case output_init_function opts func_name purpose special st of
                     Inl e \<Rightarrow> Inl e
                   | Inr st1 \<Rightarrow> process_init_lines opts purpose cfile1 line3 st1)
             else if aditi opts \<and> take aditi_init_strlen (c_string line1) = aditi_init_str then
               (let j = aditi_init_strlen
                          + length (takeWhile MR_isalnumunder (drop aditi_init_strlen line1));
                    line2 = line1[j := NUL];
                    rl_data_name = c_string (drop aditi_init_strlen line2)
                in process_init_lines opts purpose cfile1 line2 (add_rl_data rl_data_name st))
             else if take endinit_strlen (c_string line1) = endinit_str then Inr st
             else process_init_lines opts purpose cfile1 line1 st)
          else Inr st)"
  by pat_completeness auto
termination
  by (relation "measure (\<lambda>(opts, purpose, cfile, line, st). length cfile)")
    (auto dest: get_line_consumes)

declare process_init_lines.simps [simp del]

definition process_init_file ::
    "options \<Rightarrow> file_system \<Rightarrow> string \<Rightarrow> Purpose \<Rightarrow> mkinit_state \<Rightarrow> mkinit_state outcome" where
  "process_init_file opts fs filename purpose st =
     (case contents fs filename of
        None \<Rightarrow>
          (let st1 = eprint (MR_progname opts @ '': error opening file '' @ [CHR 0x60] @ filename
                        @ [CHR 0x27] @ '': '' @ open_error fs filename @ ''\<newline>'') st
           in case increment (num_errors st1) of
                None \<Rightarrow> Inl (Undefined_behaviour, st1)
              | Some n \<Rightarrow> Inr (st1\<lparr>num_errors := n\<rparr>))
      | Some cfile \<Rightarrow> process_init_lines opts purpose cfile (replicate (nat MAXLINE) NUL) st)"

subsection \<open>process\_file\<close>

definition process_file ::
    "options \<Rightarrow> file_system \<Rightarrow> string \<Rightarrow> Purpose \<Rightarrow> mkinit_state \<Rightarrow> mkinit_state outcome" where
  "process_file opts fs filename purpose st =
     (let len = length filename in
      if len \<ge> 2 \<and> drop (len - 2) filename = ''.c'' then
        (if c_files_contain_extra_inits opts then process_init_file opts fs filename purpose st
         else process_c_file opts filename purpose st)
      else if len \<ge> 5 \<and> drop (len - 5) filename = ''.init'' then
        process_init_file opts fs filename purpose st
      else
        (let st1 = eprint (MR_progname opts @ '': filename '' @ [CHR 0x60] @ filename @ [CHR 0x27]
                      @ '' must end in '' @ [CHR 0x60] @ ''.c'' @ [CHR 0x27] @ '' or ''
                      @ [CHR 0x60] @ ''.init'' @ [CHR 0x27] @ ''\<newline>'') st
         in case increment (num_errors st1) of
              None \<Rightarrow> Inl (Undefined_behaviour, st1)
            | Some n \<Rightarrow> Inr (st1\<lparr>num_errors := n\<rparr>)))"

subsection \<open>output\_sub\_init\_functions and output\_main\_init\_function\<close>

text \<open>The loop over \<^verbatim>\<open>files[filenum]\<close>.\<close>

fun process_files ::
    "options \<Rightarrow> file_system \<Rightarrow> string list \<Rightarrow> Purpose \<Rightarrow> mkinit_state \<Rightarrow> mkinit_state outcome" where
  "process_files opts fs [] purpose st = Inr st"
| "process_files opts fs (filename # filenames) purpose st =
     (case process_file opts fs filename purpose st of
        Inl e \<Rightarrow> Inl e
      | Inr st1 \<Rightarrow> process_files opts fs filenames purpose st1)"

definition print_guard :: "string option \<Rightarrow> string list" where
  "print_guard guard = (case guard of None \<Rightarrow> [] | Some g \<Rightarrow> [g, ''\<newline>''])"

definition print_all :: "string list \<Rightarrow> mkinit_state \<Rightarrow> mkinit_state" where
  "print_all ss st = st\<lparr>stdout := stdout st @ ss\<rparr>"

text \<open>The value returned, \<^verbatim>\<open>num_bunches\<close>, is the field of that name in the state returned.\<close>

definition output_sub_init_functions ::
    "options \<Rightarrow> file_system \<Rightarrow> Purpose \<Rightarrow> mkinit_state \<Rightarrow> mkinit_state outcome" where
  "output_sub_init_functions opts fs purpose st =
     (let st1 = print_all
            ([''\<newline>''] @ print_guard (bunch_function_guard purpose)
             @ [''static void '' @ main_func_name purpose @ ''_0('' @ main_func_arg_defn purpose
                  @ '')\<newline>'',
                ''{\<newline>'']) st;
          st2 = st1\<lparr>num_bunches := 0, num_calls_in_cur_bunch := 0\<rparr>
      in case process_files opts fs (files opts) purpose st2 of
           Inl e \<Rightarrow> Inl e
         | Inr st3 \<Rightarrow>
             Inr (print_all
                   ([''}\<newline>'']
                    @ (case bunch_function_guard purpose of
                         None \<Rightarrow> [] | Some g \<Rightarrow> [''\<newline>#endif\<newline>''])) st3))"

definition bunch_call :: "Purpose \<Rightarrow> int \<Rightarrow> string" where
  "bunch_call purpose i =
     [CHR 0x09] @ main_func_name purpose @ ''_'' @ printf_d i @ ''(''
       @ main_func_arg purpose @ '');\<newline>''"

text \<open>
  The loop \<^verbatim>\<open>for (i = 0; i <= num_bunches; i++)\<close> increments \<open>i\<close> beyond every value of
  \<^verbatim>\<open>num_bunches\<close> it passes, so it cannot end for \<^verbatim>\<open>INT_MAX\<close>.
\<close>

definition output_main_init_function :: "Purpose \<Rightarrow> int \<Rightarrow> mkinit_state \<Rightarrow> mkinit_state outcome" where
  "output_main_init_function purpose bunches st =
     (let st1 = print_all
            ([''\<newline>''] @ print_guard (main_func_guard purpose)
             @ [''\<newline>static void '' @ main_func_name purpose @ ''('' @ main_func_arg_defn purpose
                  @ '')\<newline>'',
                ''{\<newline>'']
             @ (case main_func_body_guard purpose of None \<Rightarrow> [] | Some g \<Rightarrow> [g])) st
      in if bunches \<ge> INT_MAX then Inl (Undefined_behaviour, st1)
         else
           Inr (print_all
                 (map (bunch_call purpose) [0..bunches]
                  @ (case main_func_body_guard purpose of None \<Rightarrow> [] | Some g \<Rightarrow> [''#endif\<newline>''])
                  @ [''}\<newline>'']
                  @ (case main_func_guard purpose of
                       None \<Rightarrow> [] | Some g \<Rightarrow> [''\<newline>#endif\<newline>''])) st1))"

subsection \<open>The rest of the output\<close>

definition output_headers :: "options \<Rightarrow> mkinit_state \<Rightarrow> mkinit_state" where
  "output_headers opts st =
     (let st1 = print (header1 (grade opts)) st;
          st2 = print_all (concat (map (\<lambda>f. [''** '', f, ''\<newline>'']) (files opts))) st1;
          st3 = print (header2 (if need_tracing opts then 1 else 0)) st2
      in if aditi opts then print aditi_header st3 else st3)"

definition output_aditi_load_function :: "mkinit_state \<Rightarrow> mkinit_state" where
  "output_aditi_load_function st =
     print_all
       ([''\<newline>/*\<newline>** Load the Aditi-RL code for the program into the\<newline>'',
         ''** currently connected database.\<newline>*/\<newline>'',
         ''#include '' @ [CHR 0x22] @ ''mercury_heap.h'' @ [CHR 0x22] @ ''\<newline>'',
         ''#include '' @ [CHR 0x22] @ ''v2_api_without_engine.h'' @ [CHR 0x22] @ ''\<newline>'',
         ''#include '' @ [CHR 0x22] @ ''v2_api_misc.h'' @ [CHR 0x22] @ ''\<newline>'',
         ''#include '' @ [CHR 0x22] @ ''AditiStatus.h'' @ [CHR 0x22] @ ''\<newline>'']
        @ concat (map (\<lambda>d. [''extern const char '' @ d @ ''[];\<newline>'',
                              ''extern const int '' @ d @ ''__length;\<newline>'']) (rl_data st))
        @ [''\<newline>'',
           ''extern MR_Box\<newline>'',
           ''MR_do_load_aditi_rl_code(MR_Box boxed_connection, ''
             @ ''MR_Box boxed_transaction)\<newline>{\<newline>'',
           [CHR 0x09] @ ''static const char *rl_data[] = {\<newline>'' @ [CHR 0x09, CHR 0x09]]
        @ map (\<lambda>d. d @ '',\<newline>'' @ [CHR 0x09, CHR 0x09]) (rl_data st)
        @ [''NULL};\<newline>'',
           [CHR 0x09] @ ''static const int * const rl_data_lengths[] = {\<newline>''
             @ [CHR 0x09, CHR 0x09]]
        @ map (\<lambda>d. ''&'' @ d @ ''__length,\<newline>'' @ [CHR 0x09, CHR 0x09]) (rl_data st)
        @ [''0};\<newline>'',
           [CHR 0x09] @ ''const int num_rl_modules = '' @ printf_d (int (length (rl_data st)))
             @ '';\<newline>'',
           aditi_load_function_body]) st"

text \<open>A character of a runtime flag inside the C string literal that holds the flags.\<close>

definition escaped :: "char \<Rightarrow> string" where
  "escaped c =
     (if c = newline then [CHR 0x5C, CHR ''n'']
      else if c = CHR 0x09 then [CHR 0x5C, CHR ''t'']
      else if c = CHR 0x22 \<or> c = CHR 0x5C then [CHR 0x5C, c]
      else [c])"

definition output_main :: "options \<Rightarrow> mkinit_state \<Rightarrow> mkinit_state" where
  "output_main opts st =
     (let aditi_load_func = (if aditi opts then ''MR_do_load_aditi_rl_code'' else ''NULL'')
      in print_all
           ([mercury_funcs1 (hl_entry_point opts) (entry_point opts),
             mercury_funcs2 aditi_load_func (hl_entry_point opts) (entry_point opts),
             [CHR 0x09] @ ''MR_runtime_flags = '' @ [CHR 0x22]]
            @ map (\<lambda>flag. concat (map escaped flag) @ '' '') (runtime_flags opts)
            @ [[CHR 0x22] @ '';\<newline>'', mercury_funcs3]
            @ (if output_main_func opts then [main_func] else [])) st)"

subsection \<open>Finding the files\<close>

text \<open>A file exists when it has contents (the model has no file that cannot be read).\<close>

definition file_exists :: "file_system \<Rightarrow> string \<Rightarrow> bool" where
  "file_exists fs filename \<longleftrightarrow> contents fs filename \<noteq> None"

fun search_init_file_dirs :: "file_system \<Rightarrow> string list \<Rightarrow> string \<Rightarrow> string option" where
  "search_init_file_dirs fs [] base_name = None"
| "search_init_file_dirs fs (dirname # dirs) base_name =
     (let filename = dirname @ ''/'' @ base_name in
      if file_exists fs filename then Some filename
      else search_init_file_dirs fs dirs base_name)"

definition find_init_file :: "options \<Rightarrow> file_system \<Rightarrow> string \<Rightarrow> string option" where
  "find_init_file opts fs base_name =
     (if file_exists fs base_name then None
      else search_init_file_dirs fs (init_file_dirs opts) base_name)"

definition do_path_search :: "options \<Rightarrow> file_system \<Rightarrow> string list" where
  "do_path_search opts fs =
     map (\<lambda>f. case find_init_file opts fs f of None \<Rightarrow> f | Some init_file \<Rightarrow> init_file)
       (files opts)"

text \<open>
  \<^verbatim>\<open>freopen\<close> creates the output file or cuts it to length zero; what is written to
  \<^verbatim>\<open>stdout\<close> from then on reaches the file when the stream is flushed, at the latest
  when the program ends.  The model shows the file empty until then.
\<close>

definition set_output_file :: "options \<Rightarrow> file_system \<Rightarrow> mkinit_state \<Rightarrow> file_system outcome" where
  "set_output_file opts fs st =
     (case output_file_name opts of
        None \<Rightarrow> Inr fs
      | Some name \<Rightarrow>
          if writable fs name then Inr (fs\<lparr>contents := (contents fs)(name \<mapsto> [])\<rparr>)
          else Inl (Exit EXIT_FAILURE,
                 eprint (MR_progname opts @ '': error opening output file '' @ [CHR 0x60] @ name
                           @ [CHR 0x27] @ '': '' @ open_error fs name @ ''\<newline>'') st))"

subsection \<open>main\<close>

definition usage_message :: string where
  "usage_message = ''Usage: mkinit [options] files...\<newline>''
     @ ''Options: [-a] [-c maxcalls] [-o filename] [-w entry] [-i] [-l] [-t] [-x]\<newline>''"

definition initial_state :: mkinit_state where
  "initial_state = \<lparr>num_errors = 0, rl_data = [], stdout = [], stderr = [],
     num_bunches = 0, num_calls_in_cur_bunch = 0\<rparr>"

text \<open>
  What a run that reaches the end of \<^verbatim>\<open>main\<close> leaves: the value returned, the state, and
  whether the output file named with \<^verbatim>\<open>-o\<close> was removed.  The text of \<^verbatim>\<open>stdout\<close> is in
  the file named with \<^verbatim>\<open>-o\<close> unless that was removed, and on the standard output when
  no file was named.
\<close>

record main_result =
  exit_status :: int
  final_state :: mkinit_state
  output_file_removed :: bool

text \<open>
  \<^verbatim>\<open>parse_options\<close> reads the command line with \<^verbatim>\<open>getopt\<close>; the model starts from the
  options it leaves and keeps its last check, the call of \<^verbatim>\<open>usage\<close> when no file is
  named.
\<close>

definition main :: "options \<Rightarrow> file_system \<Rightarrow> main_result outcome" where
  "main opts0 fs0 =
     (if length (files opts0) \<le> 0 then Inl (Exit EXIT_FAILURE, eprint usage_message initial_state)
      else
        and_then (set_output_file opts0 fs0 initial_state) (\<lambda>fs.
        let opts = opts0\<lparr>files := do_path_search opts0 fs\<rparr>;
            st1 = output_headers opts initial_state;
            st2 = (if need_initialization_code opts
                   then print ''#define MR_MAY_NEED_INITIALIZATION\<newline>\<newline>'' st1 else st1)
        in
        and_then (output_sub_init_functions opts fs PURPOSE_INIT st2) (\<lambda>st3.
        and_then (output_main_init_function PURPOSE_INIT (num_bunches st3) st3) (\<lambda>st4.
        and_then (output_sub_init_functions opts fs PURPOSE_TYPE_TABLE st4) (\<lambda>st5.
        and_then (output_main_init_function PURPOSE_TYPE_TABLE (num_bunches st5) st5) (\<lambda>st6.
        and_then (output_sub_init_functions opts fs PURPOSE_DEBUGGER st6) (\<lambda>st7.
        and_then (output_main_init_function PURPOSE_DEBUGGER (num_bunches st7) st7) (\<lambda>st8.
        and_then (output_sub_init_functions opts fs PURPOSE_PROC_STATIC st8) (\<lambda>st9.
        and_then (output_main_init_function PURPOSE_PROC_STATIC (num_bunches st9) st9) (\<lambda>st10.
        let st11 = (if aditi opts then output_aditi_load_function st10 else st10);
            st12 = output_main opts st11
        in
        if num_errors st12 > 0 then
          Inr \<lparr>exit_status = EXIT_FAILURE,
               final_state = print_all
                 [''/* Force syntax error, since there were */\<newline>'',
                  ''/* errors in the generation of this file */\<newline>'',
                  ''#error '' @ [CHR 0x22] @ ''You need to remake this file'' @ [CHR 0x22]
                    @ ''\<newline>''] st12,
               output_file_removed = (output_file_name opts \<noteq> None)\<rparr>
        else
          Inr \<lparr>exit_status = EXIT_SUCCESS, final_state = st12,
               output_file_removed = False\<rparr>))))))))))"

subsection \<open>Entry points and bunches: what the output is compared with\<close>

text \<open>
  The entry point a line \<^verbatim>\<open>INIT name\<close> of an \<^verbatim>\<open>.init\<close> file names: the name is the run
  of letters, digits and underscores after \<^verbatim>\<open>INIT \<close>; a name that ends in \<^verbatim>\<open>init\<close> is
  taken without that ending, any other name is one of a handwritten ("special") module.
\<close>

definition init_line_entry :: "string \<Rightarrow> string \<times> bool" where
  "init_line_entry s =
     (let name = takeWhile MR_isalnumunder (drop init_strlen s) in
      if 4 \<le> length name \<and> drop (length name - 4) name = ''init''
      then (take (length name - 4) name, False) else (name, True))"

text \<open>
  The entry points of an \<^verbatim>\<open>.init\<close> file, in the order of its lines: those of the lines
  that start with \<^verbatim>\<open>INIT \<close>, up to the first line that starts with \<^verbatim>\<open>ENDINIT \<close>.  A line
  is what \<^verbatim>\<open>get_line\<close> keeps of it for \<^verbatim>\<open>MAXLINE\<close>.
\<close>

lemma line_rest_shorter:
  assumes "cfile \<noteq> []"
  shows "length (line_rest cfile) < length cfile"
proof -
  have "length (dropWhile (\<lambda>c. c \<noteq> newline) cfile) \<le> length cfile"
    by (rule length_dropWhile_le)
  moreover have "length (line_rest cfile) = length (dropWhile (\<lambda>c. c \<noteq> newline) cfile) - 1"
    by (simp add: line_rest_def)
  moreover have "0 < length cfile" using assms by simp
  ultimately show ?thesis by linarith
qed

function init_file_entries :: "char list \<Rightarrow> (string \<times> bool) list" where
  "init_file_entries cfile =
     (let stored = line_stored cfile MAXLINE; s = c_string stored in
      if stored = [] then []
      else if take init_strlen s = init_str
        then init_line_entry s # init_file_entries (line_rest cfile)
      else if take endinit_strlen s = endinit_str then []
      else init_file_entries (line_rest cfile))"
  by pat_completeness auto
termination
proof (relation "measure length")
  show "wf (measure length)" by simp
next
  fix cfile :: "char list" and stored s
  assume "stored = line_stored cfile MAXLINE" and "stored \<noteq> []"
  then have "cfile \<noteq> []"
    by (auto simp: line_stored_def line_kept_def split: if_splits)
  then have "length (line_rest cfile) < length cfile"
    by (rule line_rest_shorter)
  then show "(line_rest cfile, cfile) \<in> measure length" by simp
  then show "(line_rest cfile, cfile) \<in> measure length" .
qed

declare init_file_entries.simps [simp del]

text \<open>The entry point of a \<^verbatim>\<open>.c\<close> file: the name made from the file's base name.\<close>

definition c_file_entry :: "string \<Rightarrow> string \<times> bool" where
  "c_file_entry filename =
     (mangle_components (after_last (CHR 0x5C) (after_last CHR ''/'' filename)) ''mercury'' @ ''__'',
      False)"

text \<open>
  The entry points of one file of the command line: of a \<^verbatim>\<open>.c\<close> file its own (or, with
  \<^verbatim>\<open>-x\<close>, those of its \<^verbatim>\<open>INIT\<close> lines), of an \<^verbatim>\<open>.init\<close> file those of its lines; none
  of a file that cannot be opened or has another name.
\<close>

definition init_file_entry_points :: "file_system \<Rightarrow> string \<Rightarrow> (string \<times> bool) list" where
  "init_file_entry_points fs filename =
     (case contents fs filename of None \<Rightarrow> [] | Some cfile \<Rightarrow> init_file_entries cfile)"

definition file_entry_points :: "options \<Rightarrow> file_system \<Rightarrow> string \<Rightarrow> (string \<times> bool) list" where
  "file_entry_points opts fs filename =
     (let len = length filename in
      if len \<ge> 2 \<and> drop (len - 2) filename = ''.c'' then
        (if c_files_contain_extra_inits opts then init_file_entry_points fs filename
         else [c_file_entry filename])
      else if len \<ge> 5 \<and> drop (len - 5) filename = ''.init'' then init_file_entry_points fs filename
      else [])"

definition entry_points :: "options \<Rightarrow> file_system \<Rightarrow> (string \<times> bool) list" where
  "entry_points opts fs = concat (map (file_entry_points opts fs) (files opts))"

text \<open>
  The entry points that get a call for a purpose: all of them, but for
  \<^verbatim>\<open>PURPOSE_DEBUGGER\<close> not those of the handwritten modules.
\<close>

definition called_for :: "Purpose \<Rightarrow> (string \<times> bool) list \<Rightarrow> (string \<times> bool) list" where
  "called_for purpose eps =
     filter (\<lambda>(func_name, special). \<not> (purpose = PURPOSE_DEBUGGER \<and> special)) eps"

text \<open>A list cut into bunches of \<open>n\<close>: all full but the last, which may be shorter.\<close>

function bunches :: "nat \<Rightarrow> 'a list \<Rightarrow> 'a list list" where
  "bunches n xs = (if n = 0 \<or> length xs \<le> n then [xs] else take n xs # bunches n (drop n xs))"
  by pat_completeness auto
termination
  by (relation "measure (\<lambda>(n, xs). length xs)") auto

declare bunches.simps [simp del]

text \<open>The text of the calls of a bunch, and of the bunch functions after the first.\<close>

definition calls_text :: "Purpose \<Rightarrow> (string \<times> bool) list \<Rightarrow> string list" where
  "calls_text purpose eps =
     concat (map (\<lambda>(func_name, special).
       [init_call_declaration purpose func_name special, init_call purpose func_name special]) eps)"

fun later_bunches_text :: "Purpose \<Rightarrow> int \<Rightarrow> (string \<times> bool) list list \<Rightarrow> string list" where
  "later_bunches_text purpose k [] = []"
| "later_bunches_text purpose k (b # bs) =
     [''}\<newline>\<newline>'', bunch_function_head purpose k, ''{\<newline>''] @ calls_text purpose b
       @ later_bunches_text purpose (k + 1) bs"

definition bunches_text :: "Purpose \<Rightarrow> (string \<times> bool) list list \<Rightarrow> string list" where
  "bunches_text purpose bs = calls_text purpose (hd bs) @ later_bunches_text purpose 1 (tl bs)"

text \<open>What \<^verbatim>\<open>output_sub_init_functions\<close> writes before and after the calls.\<close>

definition sub_init_opening :: "Purpose \<Rightarrow> string list" where
  "sub_init_opening purpose =
     [''\<newline>''] @ print_guard (bunch_function_guard purpose)
     @ [bunch_function_head purpose 0, ''{\<newline>'']"

definition sub_init_closing :: "Purpose \<Rightarrow> string list" where
  "sub_init_closing purpose =
     [''}\<newline>'']
     @ (case bunch_function_guard purpose of None \<Rightarrow> [] | Some g \<Rightarrow> [''\<newline>#endif\<newline>''])"

text \<open>What \<^verbatim>\<open>output_main_init_function\<close> writes around the calls of the bunch functions.\<close>

definition main_init_opening :: "Purpose \<Rightarrow> string list" where
  "main_init_opening purpose =
     [''\<newline>''] @ print_guard (main_func_guard purpose)
     @ [''\<newline>static void '' @ main_func_name purpose @ ''('' @ main_func_arg_defn purpose
          @ '')\<newline>'',
        ''{\<newline>'']
     @ (case main_func_body_guard purpose of None \<Rightarrow> [] | Some g \<Rightarrow> [g])"

definition main_init_closing :: "Purpose \<Rightarrow> string list" where
  "main_init_closing purpose =
     (case main_func_body_guard purpose of None \<Rightarrow> [] | Some g \<Rightarrow> [''#endif\<newline>''])
     @ [''}\<newline>'']
     @ (case main_func_guard purpose of None \<Rightarrow> [] | Some g \<Rightarrow> [''\<newline>#endif\<newline>''])"

text \<open>The calls of \<^verbatim>\<open>output_init_function\<close> for a list of entry points, one after the other.\<close>

fun output_init_functions ::
    "options \<Rightarrow> Purpose \<Rightarrow> (string \<times> bool) list \<Rightarrow> mkinit_state \<Rightarrow> mkinit_state outcome" where
  "output_init_functions opts purpose [] st = Inr st"
| "output_init_functions opts purpose ((func_name, special) # eps) st =
     (case output_init_function opts func_name purpose special st of
        Inl e \<Rightarrow> Inl e
      | Inr st1 \<Rightarrow> output_init_functions opts purpose eps st1)"

text \<open>
  The bunches opened after the current one, when the current one has room for \<open>room\<close>
  more calls.
\<close>

definition later_bunches :: "nat \<Rightarrow> nat \<Rightarrow> 'a list \<Rightarrow> 'a list list" where
  "later_bunches n room xs = (if length xs \<le> room then [] else bunches n (drop room xs))"

text \<open>
  Two states with the same output and the same counters of calls and bunches:
  \<^verbatim>\<open>output_init_function\<close> reads and changes nothing else.
\<close>

definition same_output :: "mkinit_state \<Rightarrow> mkinit_state \<Rightarrow> bool" where
  "same_output a b \<longleftrightarrow>
     stdout a = stdout b \<and> num_bunches a = num_bunches b
     \<and> num_calls_in_cur_bunch a = num_calls_in_cur_bunch b"

text \<open>
  A file of the command line that counts as an error: one that is to be read for its
  \<^verbatim>\<open>INIT\<close> lines and cannot be opened, or one whose name ends neither in \<^verbatim>\<open>.c\<close> nor in
  \<^verbatim>\<open>.init\<close>.
\<close>

definition file_in_error :: "options \<Rightarrow> file_system \<Rightarrow> string \<Rightarrow> bool" where
  "file_in_error opts fs filename \<longleftrightarrow>
     (let len = length filename in
      if len \<ge> 2 \<and> drop (len - 2) filename = ''.c''
      then c_files_contain_extra_inits opts \<and> contents fs filename = None
      else if len \<ge> 5 \<and> drop (len - 5) filename = ''.init'' then contents fs filename = None
      else True)"

text \<open>The last line \<^verbatim>\<open>main\<close> writes after an error, and the files as they are once the
  output file is open.\<close>

definition error_directive :: string where
  "error_directive = ''#error '' @ [CHR 0x22] @ ''You need to remake this file'' @ [CHR 0x22]
     @ ''\<newline>''"

definition with_output_file :: "options \<Rightarrow> file_system \<Rightarrow> file_system" where
  "with_output_file opts fs =
     (case output_file_name opts of
        None \<Rightarrow> fs
      | Some name \<Rightarrow> fs\<lparr>contents := (contents fs)(name \<mapsto> [])\<rparr>)"

section \<open>Example data\<close>

text \<open>
  A typeclass\_info at address 800 whose first-level table is at 160: arity 2, two
  methods, then the words of the typeclass\_info itself.
\<close>

definition tci_memory :: "64 memory" where
  "tci_memory = (\<lambda>a. 0)(160 := 2, 168 := 7001, 176 := 7002,
      800 := 160, 808 := 31, 816 := 32, 824 := 33, 832 := 34)"

text \<open>
  A run of mkinit with at most two calls in a bunch: an \<^verbatim>\<open>.init\<close> file with three
  \<^verbatim>\<open>INIT\<close> lines (one of a handwritten module) before its \<^verbatim>\<open>ENDINIT\<close> line and one
  after it, and a \<^verbatim>\<open>.c\<close> file in a directory.
\<close>

definition ex_opts :: options where
  "ex_opts = \<lparr>MR_progname = ''mkinit'', output_file_name = None,
     entry_point = ''mercury__main_2_0'', hl_entry_point = ''main_2_p_0'', grade = [],
     maxcalls = 2, files = [''a.init'', ''dir/f_b.x.c''], output_main_func = True,
     c_files_contain_extra_inits = False, aditi = False, need_initialization_code = False,
     need_tracing = False, runtime_flags = [], init_file_dirs = []\<rparr>"

definition ex_fs :: file_system where
  "ex_fs = \<lparr>contents = (\<lambda>f. None)(''a.init'' \<mapsto>
       ''INIT mercury__a__init\<newline>INIT sys_init_x\<newline>junk\<newline>INIT mercury__a2__init\<newline>''
       @ ''ENDINIT \<newline>INIT mercury__no__init\<newline>''),
     open_error = (\<lambda>f. ''No such file or directory''), writable = (\<lambda>f. True)\<rparr>"

text \<open>
  The same run with an output file and two files in error added: an \<^verbatim>\<open>.init\<close> file that
  does not exist and a file with another ending.  And a run whose second file is a
  \<^verbatim>\<open>.c\<close> file with a special character in its name.
\<close>

definition ex_opts_errors :: options where
  "ex_opts_errors = ex_opts\<lparr>output_file_name := Some ''out.c'',
     files := [''a.init'', ''missing.init'', ''x.txt'']\<rparr>"

definition ex_opts_special :: options where
  "ex_opts_special = ex_opts\<lparr>output_file_name := Some ''out.c'',
     files := [''x.txt'', ''b@d.c'']\<rparr>"

text \<open>
  A program point with three live variables, \<^verbatim>\<open>X\<close> of type \<open>T0\<close> in register 1,
  \<^verbatim>\<open>Xs\<close> of type \<open>c(T1)\<close> in slot 0 of the general stack and \<^verbatim>\<open>Z\<close> of type \<open>T0\<close> in
  slot 0 of the frame stack, in an activation whose first type parameter is known and
  whose second is not, with a snapshot in which nothing of the frame stack can be read.
\<close>

definition ex_vars :: "64 word live_variable list" where
  "ex_vars =
     [\<lparr>var_name = ''X'', var_type = Placeholder 0, var_locn = Register_slot 1\<rparr>,
      \<lparr>var_name = ''Xs'', var_type = Constructed 500 [Placeholder 1],
       var_locn = Stack_slot General_stack 0\<rparr>,
      \<lparr>var_name = ''Z'', var_type = Placeholder 0, var_locn = Stack_slot Frame_stack 0\<rparr>]"

definition ex_snapshot :: "64 word snapshot" where
  "ex_snapshot = \<lparr>register_file = [10, 11, 12], general_stack = [20], frame_stack = []\<rparr>"

definition ex_type_params :: "64 word TypeDescriptor option list" where
  "ex_type_params = [Some (TypeDescriptor 400 []), None]"

section \<open>Higher-order packed arity\<close>

lemma Integer_MAX_lt: "Integer_MAX TYPE('w::len) < 2 ^ (LENGTH('w) - 1)"
  by (simp add: Integer_MAX_def)

lemma Integer_MAX_lt2: "Integer_MAX TYPE('w::len) < 2 ^ LENGTH('w)"
proof -
  have "(2::nat) ^ (LENGTH('w) - 1) \<le> 2 ^ LENGTH('w)"
    by (rule power_increasing) simp_all
  with Integer_MAX_lt [where 'w = 'w] show ?thesis by linarith
qed

lemma unat_small:
  assumes "n \<le> Integer_MAX TYPE('w::len)"
  shows "unat (of_nat n :: 'w word) = n"
  using assms Integer_MAX_lt2 [where 'w = 'w]
  by (simp add: unat_of_nat take_bit_nat_eq_self_iff)

lemma sint_small:
  assumes "n \<le> Integer_MAX TYPE('w::len)"
  shows "sint (of_nat n :: 'w word) = int n"
proof -
  have "n < 2 ^ (LENGTH('w) - 1)"
    using assms Integer_MAX_lt [where 'w = 'w] by linarith
  then have "int n < 2 ^ (LENGTH('w) - 1)"
    by (metis of_nat_less_iff of_nat_numeral of_nat_power)
  moreover have "- (2 ^ (LENGTH('w) - 1)) \<le> int n"
    by (smt (verit) of_nat_0_le_iff zero_less_power)
  ultimately have "signed_take_bit (LENGTH('w) - 1) (int n) = int n"
    by (rule signed_take_bit_int_eq_self[rotated])
  then show ?thesis
    by (simp add: signed_of_nat)
qed

lemma make_pred_of_nat: "MR_TYPECTOR_MAKE_PRED (of_nat N :: 'w::len word) = of_nat (2 * N)"
  by (simp add: MR_TYPECTOR_MAKE_PRED_def mult.commute)

lemma make_func_of_nat: "MR_TYPECTOR_MAKE_FUNC (of_nat N :: 'w::len word) = of_nat (2 * N + 1)"
  by (simp add: MR_TYPECTOR_MAKE_FUNC_def mult.commute)

lemma Integer_MAX_ge2_iff: "2 \<le> Integer_MAX TYPE('w::len) \<longleftrightarrow> 3 \<le> LENGTH('w)"
proof
  assume "2 \<le> Integer_MAX TYPE('w)"
  then have "(2::nat) ^ 1 < 2 ^ (LENGTH('w) - 1)"
    using Integer_MAX_lt [where 'w = 'w] by simp
  then have "1 < LENGTH('w) - 1"
    by (simp only: power_strict_increasing_iff)
  then show "3 \<le> LENGTH('w)" by simp
next
  assume "3 \<le> LENGTH('w)"
  then have "(2::nat) ^ 2 \<le> 2 ^ (LENGTH('w) - 1)"
    by (intro power_increasing) simp_all
  then show "2 \<le> Integer_MAX TYPE('w)"
    by (simp add: Integer_MAX_def)
qed

lemma sint_two:
  assumes "2 \<le> Integer_MAX TYPE('w::len)"
  shows "sint (2 :: 'w word) = 2"
  using sint_small [OF assms] by simp

lemma get_hot_arity_small:
  assumes "2 \<le> Integer_MAX TYPE('w::len)" and "n \<le> Integer_MAX TYPE('w)"
  shows "MR_TYPECTOR_GET_HOT_ARITY (of_nat n :: 'w word) = of_nat (n div 2)"
proof -
  have "sint (of_nat n :: 'w word) sdiv sint (2 :: 'w word) = int n sdiv 2"
    by (simp only: sint_small [OF assms(2)] sint_two [OF assms(1)])
  also have "\<dots> = int (n div 2)"
    by (simp add: signed_divide_int_def sgn_if zdiv_int)
  finally show ?thesis
    by (simp add: MR_TYPECTOR_GET_HOT_ARITY_def Integer_div_def)
qed

lemma get_hot_name_small:
  assumes "2 \<le> Integer_MAX TYPE('w::len)" and "n \<le> Integer_MAX TYPE('w)"
  shows "MR_TYPECTOR_GET_HOT_NAME (of_nat n :: 'w word) = (if odd n then ''func'' else ''pred'')"
proof -
  have "sint (of_nat n :: 'w word) smod sint (2 :: 'w word) = int n smod 2"
    by (simp only: sint_small [OF assms(2)] sint_two [OF assms(1)])
  also have "\<dots> = int (n mod 2)"
    by (simp add: signed_modulo_int_def sgn_if zmod_int)
  finally have "Integer_mod (of_nat n :: 'w word) 2 = of_nat (n mod 2)"
    by (simp add: Integer_mod_def)
  moreover have "(of_nat (n mod 2) :: 'w word) \<noteq> 0 \<longleftrightarrow> odd n"
    by (cases "even n") (simp_all add: odd_iff_mod_2_eq_one)
  ultimately show ?thesis
    by (simp add: MR_TYPECTOR_GET_HOT_NAME_def)
qed

text \<open>The two-bit word: the only arity that fits is 0.\<close>

lemma get_hot_tiny:
  assumes "LENGTH('w::len) = 2"
  shows "MR_TYPECTOR_GET_HOT_ARITY (1 :: 'w word) = 0"
    and "MR_TYPECTOR_GET_HOT_NAME (1 :: 'w word) = ''func''"
    and "MR_TYPECTOR_GET_HOT_ARITY (0 :: 'w word) = 0"
    and "MR_TYPECTOR_GET_HOT_NAME (0 :: 'w word) = ''pred''"
proof -
  have s2: "sint (2 :: 'w word) = - 2"
    using assms by (simp add: sint_numeral [where 'a='w] signed_take_bit_eq_take_bit_shift take_bit_eq_mod)
  have s1: "sint (1 :: 'w word) = 1"
    using assms by simp
  show "MR_TYPECTOR_GET_HOT_ARITY (1 :: 'w word) = 0"
    unfolding MR_TYPECTOR_GET_HOT_ARITY_def Integer_div_def s1 s2
    by (simp add: signed_divide_int_def)
  show "MR_TYPECTOR_GET_HOT_NAME (1 :: 'w word) = ''func''"
    unfolding MR_TYPECTOR_GET_HOT_NAME_def Integer_mod_def s1 s2
    by (simp add: signed_modulo_int_def)
  show "MR_TYPECTOR_GET_HOT_ARITY (0 :: 'w word) = 0"
    by (simp add: MR_TYPECTOR_GET_HOT_ARITY_def Integer_div_def)
  show "MR_TYPECTOR_GET_HOT_NAME (0 :: 'w word) = ''pred''"
    by (simp add: MR_TYPECTOR_GET_HOT_NAME_def Integer_mod_def signed_modulo_int_def)
qed

lemma tiny_cases:
  assumes "\<not> 2 \<le> Integer_MAX TYPE('w::len)" and "2 * N + 1 \<le> Integer_MAX TYPE('w)"
  shows "N = 0 \<and> LENGTH('w) = 2"
proof -
  have N: "N = 0" using assms by linarith
  have "\<not> 3 \<le> LENGTH('w)" using assms(1) by (simp add: Integer_MAX_ge2_iff)
  moreover have "LENGTH('w) \<noteq> 1"
    using assms(2) by (auto simp: Integer_MAX_def)
  moreover have "0 < LENGTH('w)" by simp
  ultimately have "LENGTH('w) = 2" by linarith
  with N show ?thesis by simp
qed

lemma get_hot_arity_make_pred:
  assumes fits: "2 * N + 1 \<le> Integer_MAX TYPE('w::len)"
  shows "MR_TYPECTOR_GET_HOT_ARITY (MR_TYPECTOR_MAKE_PRED (of_nat N :: 'w word)) = of_nat N"
proof (cases "2 \<le> Integer_MAX TYPE('w)")
  case True
  have p: "2 * N \<le> Integer_MAX TYPE('w)" using fits by simp
  show ?thesis unfolding make_pred_of_nat get_hot_arity_small [OF True p] by simp
next
  case False
  from tiny_cases [OF False fits] show ?thesis
    by (simp add: MR_TYPECTOR_MAKE_PRED_def get_hot_tiny)
qed

lemma get_hot_arity_make_func:
  assumes fits: "2 * N + 1 \<le> Integer_MAX TYPE('w::len)"
  shows "MR_TYPECTOR_GET_HOT_ARITY (MR_TYPECTOR_MAKE_FUNC (of_nat N :: 'w word)) = of_nat N"
proof (cases "2 \<le> Integer_MAX TYPE('w)")
  case True
  show ?thesis unfolding make_func_of_nat get_hot_arity_small [OF True fits] by simp
next
  case False
  from tiny_cases [OF False fits] show ?thesis
    by (simp add: MR_TYPECTOR_MAKE_FUNC_def get_hot_tiny)
qed

lemma get_hot_name_make_pred:
  assumes fits: "2 * N + 1 \<le> Integer_MAX TYPE('w::len)"
  shows "MR_TYPECTOR_GET_HOT_NAME (MR_TYPECTOR_MAKE_PRED (of_nat N :: 'w word)) = ''pred''"
proof (cases "2 \<le> Integer_MAX TYPE('w)")
  case True
  have p: "2 * N \<le> Integer_MAX TYPE('w)" using fits by simp
  show ?thesis unfolding make_pred_of_nat get_hot_name_small [OF True p] by simp
next
  case False
  from tiny_cases [OF False fits] show ?thesis
    by (simp add: MR_TYPECTOR_MAKE_PRED_def get_hot_tiny)
qed

lemma get_hot_name_make_func:
  assumes fits: "2 * N + 1 \<le> Integer_MAX TYPE('w::len)"
  shows "MR_TYPECTOR_GET_HOT_NAME (MR_TYPECTOR_MAKE_FUNC (of_nat N :: 'w word)) = ''func''"
proof (cases "2 \<le> Integer_MAX TYPE('w)")
  case True
  show ?thesis unfolding make_func_of_nat get_hot_name_small [OF True fits] by simp
next
  case False
  from tiny_cases [OF False fits] show ?thesis
    by (simp add: MR_TYPECTOR_MAKE_FUNC_def get_hot_tiny)
qed

text \<open>
  Claim C1.  For every arity \<open>N\<close> whose packed value \<open>2 N + 1\<close> fits \<^verbatim>\<open>Integer\<close>
  (beyond that C's signed multiplication is undefined), \<^verbatim>\<open>MR_TYPECTOR_MAKE_PRED(N)\<close>
  is the word \<open>2 N\<close> and \<^verbatim>\<open>MR_TYPECTOR_MAKE_FUNC(N)\<close> is \<open>2 N + 1\<close>;
  \<^verbatim>\<open>MR_TYPECTOR_GET_HOT_ARITY\<close> gives \<open>N\<close> back from either, and
  \<^verbatim>\<open>MR_TYPECTOR_GET_HOT_NAME\<close> is "pred" on the even and "func" on the odd encoding.
\<close>

theorem hot_arity_roundtrip:
  fixes N :: nat
  assumes fits: "2 * N + 1 \<le> Integer_MAX TYPE('w::len)"
  shows "unat (MR_TYPECTOR_MAKE_PRED (of_nat N :: 'w Integer)) = 2 * N
       \<and> unat (MR_TYPECTOR_MAKE_FUNC (of_nat N :: 'w Integer)) = 2 * N + 1
       \<and> MR_TYPECTOR_GET_HOT_ARITY (MR_TYPECTOR_MAKE_PRED (of_nat N :: 'w Integer)) = of_nat N
       \<and> MR_TYPECTOR_GET_HOT_ARITY (MR_TYPECTOR_MAKE_FUNC (of_nat N :: 'w Integer)) = of_nat N
       \<and> sint (MR_TYPECTOR_GET_HOT_ARITY (MR_TYPECTOR_MAKE_PRED (of_nat N :: 'w Integer))) = int N
       \<and> sint (MR_TYPECTOR_GET_HOT_ARITY (MR_TYPECTOR_MAKE_FUNC (of_nat N :: 'w Integer))) = int N
       \<and> MR_TYPECTOR_GET_HOT_NAME (MR_TYPECTOR_MAKE_PRED (of_nat N :: 'w Integer)) = ''pred''
       \<and> MR_TYPECTOR_GET_HOT_NAME (MR_TYPECTOR_MAKE_FUNC (of_nat N :: 'w Integer)) = ''func''"
proof -
  have p: "2 * N \<le> Integer_MAX TYPE('w)" and n: "N \<le> Integer_MAX TYPE('w)"
    using fits by simp_all
  have u1: "unat (MR_TYPECTOR_MAKE_PRED (of_nat N :: 'w word)) = 2 * N"
    unfolding make_pred_of_nat by (rule unat_small [OF p])
  have u2: "unat (MR_TYPECTOR_MAKE_FUNC (of_nat N :: 'w word)) = 2 * N + 1"
    unfolding make_func_of_nat by (rule unat_small [OF fits])
  have s: "sint (of_nat N :: 'w word) = int N" by (rule sint_small [OF n])
  show ?thesis
    unfolding get_hot_arity_make_pred [OF fits] get_hot_arity_make_func [OF fits] s
    using u1 u2 get_hot_name_make_pred [OF fits] get_hot_name_make_func [OF fits] by simp
qed

text \<open>The boundary arities 0, 1, 8 and 1024 on a 64-bit word.\<close>

theorem hot_arity_roundtrip_witness:
  "MR_TYPECTOR_MAKE_PRED (0 :: 64 Integer) = 0 \<and> MR_TYPECTOR_MAKE_FUNC (0 :: 64 Integer) = 1
   \<and> MR_TYPECTOR_MAKE_PRED (1 :: 64 Integer) = 2 \<and> MR_TYPECTOR_MAKE_FUNC (1 :: 64 Integer) = 3
   \<and> MR_TYPECTOR_MAKE_PRED (8 :: 64 Integer) = 16 \<and> MR_TYPECTOR_MAKE_FUNC (8 :: 64 Integer) = 17
   \<and> MR_TYPECTOR_MAKE_PRED (1024 :: 64 Integer) = 2048
   \<and> MR_TYPECTOR_MAKE_FUNC (1024 :: 64 Integer) = 2049
   \<and> MR_TYPECTOR_GET_HOT_ARITY (2048 :: 64 Word) = 1024
   \<and> MR_TYPECTOR_GET_HOT_ARITY (2049 :: 64 Word) = 1024
   \<and> MR_TYPECTOR_GET_HOT_NAME (2048 :: 64 Word) = ''pred''
   \<and> MR_TYPECTOR_GET_HOT_NAME (2049 :: 64 Word) = ''func''"
  using hot_arity_roundtrip [where 'w = 64 and N = 0]
    hot_arity_roundtrip [where 'w = 64 and N = 1]
    hot_arity_roundtrip [where 'w = 64 and N = 8]
    hot_arity_roundtrip [where 'w = 64 and N = 1024]
  by (simp add: Integer_MAX_def MR_TYPECTOR_MAKE_PRED_def MR_TYPECTOR_MAKE_FUNC_def)

section \<open>The higher-order test\<close>

lemma unat_MAX_VARINT:
  assumes "1024 \<le> Integer_MAX TYPE('w::len)"
  shows "unat (TYPELAYOUT_MAX_VARINT :: 'w Word) = 1024"
  using unat_small [OF assms] by (simp add: TYPELAYOUT_MAX_VARINT_def)

lemma is_higher_order_unat:
  assumes "1024 \<le> Integer_MAX TYPE('w::len)"
  shows "MR_TYPECTOR_IS_HIGHER_ORDER (T :: 'w Word) \<longleftrightarrow> unat T \<le> 1024"
  by (simp add: MR_TYPECTOR_IS_HIGHER_ORDER_def word_le_nat_alt unat_MAX_VARINT [OF assms])

text \<open>
  Claim C8.  \<^verbatim>\<open>MR_TYPECTOR_IS_HIGHER_ORDER\<close> and \<^verbatim>\<open>TYPEINFO_IS_VARIABLE\<close> are the same
  test, \<open>(Word) T \<le> 1024\<close>.  So for every arity whose packed value is above 1024
  (predicates from arity 513, functions from arity 512; the packed value fitting
  \<^verbatim>\<open>Integer\<close>) the word made by \<^verbatim>\<open>MR_TYPECTOR_MAKE_PRED\<close> or \<^verbatim>\<open>MR_TYPECTOR_MAKE_FUNC\<close>
  fails the higher-order test, although \<^verbatim>\<open>MR_TYPECTOR_GET_HOT_ARITY\<close> still gives the
  arity back.  Below those arities the test holds.
\<close>

theorem higher_order_test_is_variable_test:
  fixes T :: "'w::len Word" and N :: nat
  shows "(MR_TYPECTOR_IS_HIGHER_ORDER T \<longleftrightarrow> TYPEINFO_IS_VARIABLE T)
       \<and> (MR_TYPECTOR_IS_HIGHER_ORDER T \<longleftrightarrow> T \<le> TYPELAYOUT_MAX_VARINT)
       \<and> (1024 \<le> Integer_MAX TYPE('w) \<longrightarrow>
            (MR_TYPECTOR_IS_HIGHER_ORDER T \<longleftrightarrow> unat T \<le> 1024))
       \<and> (2 * N + 1 \<le> Integer_MAX TYPE('w) \<and> 513 \<le> N \<longrightarrow>
            \<not> MR_TYPECTOR_IS_HIGHER_ORDER (MR_TYPECTOR_MAKE_PRED (of_nat N :: 'w Integer))
            \<and> MR_TYPECTOR_GET_HOT_ARITY (MR_TYPECTOR_MAKE_PRED (of_nat N :: 'w Integer)) = of_nat N)
       \<and> (2 * N + 1 \<le> Integer_MAX TYPE('w) \<and> 512 \<le> N \<longrightarrow>
            \<not> MR_TYPECTOR_IS_HIGHER_ORDER (MR_TYPECTOR_MAKE_FUNC (of_nat N :: 'w Integer))
            \<and> MR_TYPECTOR_GET_HOT_ARITY (MR_TYPECTOR_MAKE_FUNC (of_nat N :: 'w Integer)) = of_nat N)
       \<and> (2 * N + 1 \<le> Integer_MAX TYPE('w) \<and> 1024 \<le> Integer_MAX TYPE('w) \<longrightarrow>
            (MR_TYPECTOR_IS_HIGHER_ORDER (MR_TYPECTOR_MAKE_PRED (of_nat N :: 'w Integer)) \<longleftrightarrow> N < 513)
            \<and> (MR_TYPECTOR_IS_HIGHER_ORDER (MR_TYPECTOR_MAKE_FUNC (of_nat N :: 'w Integer)) \<longleftrightarrow> N < 512))"
proof -
  have same: "MR_TYPECTOR_IS_HIGHER_ORDER T \<longleftrightarrow> TYPEINFO_IS_VARIABLE T"
    by (simp add: MR_TYPECTOR_IS_HIGHER_ORDER_def TYPEINFO_IS_VARIABLE_def)
  have le: "MR_TYPECTOR_IS_HIGHER_ORDER T \<longleftrightarrow> T \<le> TYPELAYOUT_MAX_VARINT"
    by (simp add: MR_TYPECTOR_IS_HIGHER_ORDER_def)
  have thr: "(MR_TYPECTOR_IS_HIGHER_ORDER (MR_TYPECTOR_MAKE_PRED (of_nat N :: 'w word)) \<longleftrightarrow> N < 513)
      \<and> (MR_TYPECTOR_IS_HIGHER_ORDER (MR_TYPECTOR_MAKE_FUNC (of_nat N :: 'w word)) \<longleftrightarrow> N < 512)"
    if fits: "2 * N + 1 \<le> Integer_MAX TYPE('w)" and big: "1024 \<le> Integer_MAX TYPE('w)"
  proof -
    have p: "2 * N \<le> Integer_MAX TYPE('w)" using fits by simp
    have "unat (MR_TYPECTOR_MAKE_PRED (of_nat N :: 'w word)) = 2 * N"
      unfolding make_pred_of_nat by (rule unat_small [OF p])
    moreover have "unat (MR_TYPECTOR_MAKE_FUNC (of_nat N :: 'w word)) = 2 * N + 1"
      unfolding make_func_of_nat by (rule unat_small [OF fits])
    ultimately show ?thesis
      by (simp add: is_higher_order_unat [OF big]) linarith
  qed
  have pred: "\<not> MR_TYPECTOR_IS_HIGHER_ORDER (MR_TYPECTOR_MAKE_PRED (of_nat N :: 'w word))"
    if "2 * N + 1 \<le> Integer_MAX TYPE('w)" and "513 \<le> N"
    using thr that by simp
  have func: "\<not> MR_TYPECTOR_IS_HIGHER_ORDER (MR_TYPECTOR_MAKE_FUNC (of_nat N :: 'w word))"
    if "2 * N + 1 \<le> Integer_MAX TYPE('w)" and "512 \<le> N"
    using thr that by simp
  show ?thesis
    using same le thr pred func is_higher_order_unat [where 'w = 'w and T = T]
      get_hot_arity_make_pred [where 'w = 'w and N = N]
      get_hot_arity_make_func [where 'w = 'w and N = N]
    by blast
qed

text \<open>The thresholds on a 64-bit word: 512/513 for predicates, 511/512 for functions.\<close>

theorem higher_order_test_is_variable_test_witness:
  "\<not> MR_TYPECTOR_IS_HIGHER_ORDER (MR_TYPECTOR_MAKE_PRED (513 :: 64 Integer))
   \<and> MR_TYPECTOR_GET_HOT_ARITY (MR_TYPECTOR_MAKE_PRED (513 :: 64 Integer)) = 513
   \<and> \<not> MR_TYPECTOR_IS_HIGHER_ORDER (MR_TYPECTOR_MAKE_FUNC (512 :: 64 Integer))
   \<and> MR_TYPECTOR_GET_HOT_ARITY (MR_TYPECTOR_MAKE_FUNC (512 :: 64 Integer)) = 512
   \<and> MR_TYPECTOR_IS_HIGHER_ORDER (MR_TYPECTOR_MAKE_PRED (512 :: 64 Integer))
   \<and> MR_TYPECTOR_IS_HIGHER_ORDER (MR_TYPECTOR_MAKE_FUNC (511 :: 64 Integer))
   \<and> MR_TYPECTOR_IS_HIGHER_ORDER (1024 :: 64 Word)
   \<and> \<not> MR_TYPECTOR_IS_HIGHER_ORDER (1025 :: 64 Word)"
  using higher_order_test_is_variable_test [where 'w = 64 and N = 513 and T = 1024]
    higher_order_test_is_variable_test [where 'w = 64 and N = 512 and T = 1025]
    higher_order_test_is_variable_test [where 'w = 64 and N = 511 and T = 0]
  by (simp add: Integer_MAX_def TYPELAYOUT_MAX_VARINT_def TYPEINFO_IS_VARIABLE_def)

section \<open>Resolving the base descriptor\<close>

text \<open>
  Claim C4.  \<^verbatim>\<open>MR_TYPEINFO_GET_BASE_TYPEINFO\<close> gives the type\_info pointer itself when
  the first word of the type\_info is zero, and otherwise that first word, read as the
  pointer to the base descriptor: a descriptor with arguments resolves to the base
  descriptor stored at element zero.
\<close>

theorem get_base_typeinfo_resolution:
  fixes mem :: "'w::len memory"
  shows "(mem TypeInfo = 0 \<longrightarrow> MR_TYPEINFO_GET_BASE_TYPEINFO mem TypeInfo = TypeInfo)
       \<and> (mem TypeInfo \<noteq> 0 \<longrightarrow> MR_TYPEINFO_GET_BASE_TYPEINFO mem TypeInfo = mem TypeInfo)
       \<and> (mem TypeInfo \<noteq> 0 \<longrightarrow> MR_TYPEINFO_GET_BASE_TYPEINFO mem TypeInfo = word_at mem TypeInfo 0)"
  by (simp add: MR_TYPEINFO_GET_BASE_TYPEINFO_def word_at_def)

text \<open>
  A memory with the base descriptor of a type of arity 1 at address 64 (first word: the
  arity) and a type\_info with one argument at address 256 (first word: the base).
\<close>

theorem get_base_typeinfo_resolution_witness:
  "MR_TYPEINFO_GET_BASE_TYPEINFO ((\<lambda>a. 0)(64 := 1, 256 := 64, 264 := 512) :: 64 memory) 256 = 64
   \<and> MR_TYPEINFO_GET_BASE_TYPEINFO ((\<lambda>a. 0)(64 := 1, 256 := 64, 264 := 512) :: 64 memory) 512 = 512"
  using get_base_typeinfo_resolution
          [where mem = "(\<lambda>a. 0)(64 := 1, 256 := 64, 264 := 512) :: 64 memory" and TypeInfo = 256]
        get_base_typeinfo_resolution
          [where mem = "(\<lambda>a. 0)(64 := 1, 256 := 64, 264 := 512) :: 64 memory" and TypeInfo = 512]
  by simp

section \<open>Failures of the introspection engine\<close>

lemma find_name_None:
  "find (\<lambda>var. var_name var = name) vars = None \<longleftrightarrow> name \<notin> var_name ` set vars"
  by (auto simp add: find_None_iff)

text \<open>
  Claim C5.  Every lookup of the introspection engine answers with a flag, which is true
  exactly when a result is stored, so that every failure is reported by a false flag:
  the lookup of a location fails exactly when the location cannot be read, the
  materialisation of a type exactly when a type parameter is not resolved, the retrieval
  of type and value when either fails, and the retrieval by name when no live variable
  has the name or either fails for the first variable of that name.  The retrieval by
  name says \<open>found = False\<close>, with nothing stored, exactly when no live variable has the
  name; when the variable of that name has a type that cannot be materialised it says
  \<open>found = True\<close> and \<open>type_ok = False\<close>, which is another answer; when the type is
  materialised and the location cannot be read it says \<open>found = True\<close>, \<open>type_ok = True\<close>
  and \<open>succeeded = False\<close>.
\<close>

theorem introspection_failure_contract:
  fixes snap :: "'word snapshot"
  shows "(let r = MR_trace_get_type_and_value_filtered snap vars type_params name in
         (succeeded (MR_trace_lookup_live_lval snap locn)
            \<longleftrightarrow> answer (MR_trace_lookup_live_lval snap locn) \<noteq> None)
       \<and> (succeeded (MR_trace_lookup_live_lval snap locn)
            \<longleftrightarrow> read_location snap locn \<noteq> None)
       \<and> (succeeded (MR_trace_get_type var type_params)
            \<longleftrightarrow> answer (MR_trace_get_type var type_params) \<noteq> None)
       \<and> (succeeded (MR_trace_get_type var type_params)
            \<longleftrightarrow> materialize type_params (var_type var) \<noteq> None)
       \<and> (succeeded (MR_trace_get_type_and_value snap var type_params)
            \<longleftrightarrow> answer (MR_trace_get_type_and_value snap var type_params) \<noteq> None)
       \<and> (succeeded (MR_trace_get_type_and_value snap var type_params)
            \<longleftrightarrow> materialize type_params (var_type var) \<noteq> None
               \<and> read_location snap (var_locn var) \<noteq> None)
       \<and> (succeeded r \<longleftrightarrow> answer r \<noteq> None)
       \<and> (succeeded r \<longleftrightarrow>
            (\<exists>v. find (\<lambda>var. var_name var = name) vars = Some v
               \<and> materialize type_params (var_type v) \<noteq> None
               \<and> read_location snap (var_locn v) \<noteq> None))
       \<and> (succeeded r \<longleftrightarrow>
            (\<exists>v. find (\<lambda>var. var_name var = name) vars = Some v
               \<and> succeeded (MR_trace_get_type_and_value snap v type_params)
               \<and> answer r = answer (MR_trace_get_type_and_value snap v type_params)))
       \<and> (found r \<longleftrightarrow> name \<in> var_name ` set vars)
       \<and> (\<not> found r \<longrightarrow> \<not> type_ok r \<and> \<not> succeeded r \<and> answer r = None)
       \<and> (\<forall>v. find (\<lambda>var. var_name var = name) vars = Some v
               \<and> materialize type_params (var_type v) = None
             \<longrightarrow> found r \<and> \<not> type_ok r \<and> \<not> succeeded r \<and> answer r = None)
       \<and> (\<forall>v. find (\<lambda>var. var_name var = name) vars = Some v
               \<and> materialize type_params (var_type v) \<noteq> None
               \<and> read_location snap (var_locn v) = None
             \<longrightarrow> found r \<and> type_ok r \<and> \<not> succeeded r \<and> answer r = None)
       \<and> (type_ok r \<longrightarrow> found r)
       \<and> (succeeded r \<longrightarrow> found r \<and> type_ok r))"
proof -
  define r where "r = MR_trace_get_type_and_value_filtered snap vars type_params name"
  note r = r_def MR_trace_get_type_and_value_filtered_def
  have flag: "succeeded r \<longleftrightarrow> answer r \<noteq> None"
    by (simp add: r split: option.splits)
  have cases: "succeeded r \<longleftrightarrow>
      (\<exists>v. find (\<lambda>var. var_name var = name) vars = Some v
         \<and> materialize type_params (var_type v) \<noteq> None
         \<and> read_location snap (var_locn v) \<noteq> None)"
    by (auto simp add: r split: option.splits)
  have same: "succeeded r \<longleftrightarrow>
      (\<exists>v. find (\<lambda>var. var_name var = name) vars = Some v
         \<and> succeeded (MR_trace_get_type_and_value snap v type_params)
         \<and> answer r = answer (MR_trace_get_type_and_value snap v type_params))"
    by (auto simp add: r MR_trace_get_type_and_value_def split: option.splits)
  have found: "found r \<longleftrightarrow> name \<in> var_name ` set vars"
    using find_name_None [of name vars] by (auto simp add: r split: option.splits)
  have absent: "\<not> found r \<longrightarrow> \<not> type_ok r \<and> \<not> succeeded r \<and> answer r = None"
    by (simp add: r split: option.splits)
  have unresolved: "\<forall>v. find (\<lambda>var. var_name var = name) vars = Some v
        \<and> materialize type_params (var_type v) = None
      \<longrightarrow> found r \<and> \<not> type_ok r \<and> \<not> succeeded r \<and> answer r = None"
    by (simp add: r)
  have unreadable: "\<forall>v. find (\<lambda>var. var_name var = name) vars = Some v
        \<and> materialize type_params (var_type v) \<noteq> None
        \<and> read_location snap (var_locn v) = None
      \<longrightarrow> found r \<and> type_ok r \<and> \<not> succeeded r \<and> answer r = None"
    by (auto simp add: r)
  have order: "type_ok r \<longrightarrow> found r"
    by (simp add: r split: option.splits)
  have both: "succeeded r \<longrightarrow> found r \<and> type_ok r"
    by (simp add: r split: option.splits)
  have lval: "succeeded (MR_trace_lookup_live_lval snap locn)
      \<longleftrightarrow> answer (MR_trace_lookup_live_lval snap locn) \<noteq> None"
    by (simp add: MR_trace_lookup_live_lval_def split: option.splits)
  have lval_read: "succeeded (MR_trace_lookup_live_lval snap locn)
      \<longleftrightarrow> read_location snap locn \<noteq> None"
    by (simp add: MR_trace_lookup_live_lval_def split: option.splits)
  have type: "succeeded (MR_trace_get_type var type_params)
      \<longleftrightarrow> answer (MR_trace_get_type var type_params) \<noteq> None"
    by (simp add: MR_trace_get_type_def split: option.splits)
  have type_mat: "succeeded (MR_trace_get_type var type_params)
      \<longleftrightarrow> materialize type_params (var_type var) \<noteq> None"
    by (simp add: MR_trace_get_type_def split: option.splits)
  have tv: "succeeded (MR_trace_get_type_and_value snap var type_params)
      \<longleftrightarrow> answer (MR_trace_get_type_and_value snap var type_params) \<noteq> None"
    by (simp add: MR_trace_get_type_and_value_def split: option.splits)
  have tv_both: "succeeded (MR_trace_get_type_and_value snap var type_params)
      \<longleftrightarrow> materialize type_params (var_type var) \<noteq> None
         \<and> read_location snap (var_locn var) \<noteq> None"
    by (simp add: MR_trace_get_type_and_value_def split: option.splits)
  show ?thesis
    unfolding Let_def r_def [symmetric]
    by (intro conjI; fact)
qed

text \<open>
  The theorem at a program point with three live variables: \<^verbatim>\<open>Y\<close> is not live there,
  the type of \<^verbatim>\<open>Xs\<close> has an unresolved parameter, the location of \<^verbatim>\<open>Z\<close> cannot be read,
  and \<^verbatim>\<open>X\<close> is retrieved.
\<close>

theorem introspection_failure_contract_witness:
  "MR_trace_get_type_and_value_filtered ex_snapshot ex_vars ex_type_params ''Y''
     = \<lparr>succeeded = False, answer = None, found = False, type_ok = False\<rparr>
   \<and> MR_trace_get_type_and_value_filtered ex_snapshot ex_vars ex_type_params ''Xs''
     = \<lparr>succeeded = False, answer = None, found = True, type_ok = False\<rparr>
   \<and> MR_trace_get_type_and_value_filtered ex_snapshot ex_vars ex_type_params ''Z''
     = \<lparr>succeeded = False, answer = None, found = True, type_ok = True\<rparr>
   \<and> MR_trace_get_type_and_value_filtered ex_snapshot ex_vars ex_type_params ''X''
     = \<lparr>succeeded = True, answer = Some (TypeDescriptor 400 [], 11), found = True,
        type_ok = True\<rparr>
   \<and> succeeded (MR_trace_lookup_live_lval ex_snapshot (Register_slot 1))
   \<and> \<not> succeeded (MR_trace_lookup_live_lval ex_snapshot (Stack_slot Frame_stack 0))"
proof -
  let ?f = "MR_trace_get_type_and_value_filtered ex_snapshot ex_vars ex_type_params"
  have absent: "''Y'' \<notin> var_name ` set ex_vars" by (simp add: ex_vars_def)
  have unresolved: "find (\<lambda>var. var_name var = ''Xs'') ex_vars = Some (ex_vars ! 1)
      \<and> materialize ex_type_params (var_type (ex_vars ! 1)) = None"
    by (simp add: ex_vars_def ex_type_params_def slot_def)
  have unreadable: "find (\<lambda>var. var_name var = ''Z'') ex_vars = Some (ex_vars ! 2)
      \<and> materialize ex_type_params (var_type (ex_vars ! 2)) \<noteq> None
      \<and> read_location ex_snapshot (var_locn (ex_vars ! 2)) = None"
    by (simp add: ex_vars_def ex_type_params_def ex_snapshot_def slot_def read_location_def)
  have readable: "read_location ex_snapshot (Register_slot 1) \<noteq> None"
    "read_location ex_snapshot (Stack_slot Frame_stack 0) = None"
    by (simp_all add: read_location_def ex_snapshot_def slot_def)
  note c = introspection_failure_contract [where snap = ex_snapshot and vars = ex_vars
      and type_params = ex_type_params and var = "ex_vars ! 0", unfolded Let_def]
  from c [where name = "''Y''" and locn = "Register_slot 1"]
  have "found (?f ''Y'') \<longleftrightarrow> ''Y'' \<in> var_name ` set ex_vars"
    by (elim conjE)
  moreover from c [where name = "''Y''" and locn = "Register_slot 1"]
  have "\<not> found (?f ''Y'') \<longrightarrow> \<not> type_ok (?f ''Y'') \<and> \<not> succeeded (?f ''Y'')
      \<and> answer (?f ''Y'') = None"
    by (elim conjE)
  moreover note absent
  ultimately
  have y: "\<not> found (?f ''Y'') \<and> \<not> type_ok (?f ''Y'') \<and> \<not> succeeded (?f ''Y'')
      \<and> answer (?f ''Y'') = None"
    by blast
  from c [where name = "''Xs''" and locn = "Register_slot 1"]
  have "\<forall>v. find (\<lambda>var. var_name var = ''Xs'') ex_vars = Some v
        \<and> materialize ex_type_params (var_type v) = None
      \<longrightarrow> found (?f ''Xs'') \<and> \<not> type_ok (?f ''Xs'') \<and> \<not> succeeded (?f ''Xs'')
        \<and> answer (?f ''Xs'') = None"
    by (elim conjE)
  with unresolved
  have xs: "found (?f ''Xs'') \<and> \<not> type_ok (?f ''Xs'') \<and> \<not> succeeded (?f ''Xs'')
      \<and> answer (?f ''Xs'') = None"
    by blast
  from c [where name = "''Z''" and locn = "Register_slot 1"]
  have "\<forall>v. find (\<lambda>var. var_name var = ''Z'') ex_vars = Some v
        \<and> materialize ex_type_params (var_type v) \<noteq> None
        \<and> read_location ex_snapshot (var_locn v) = None
      \<longrightarrow> found (?f ''Z'') \<and> type_ok (?f ''Z'') \<and> \<not> succeeded (?f ''Z'')
        \<and> answer (?f ''Z'') = None"
    by (elim conjE)
  with unreadable
  have z: "found (?f ''Z'') \<and> type_ok (?f ''Z'') \<and> \<not> succeeded (?f ''Z'')
      \<and> answer (?f ''Z'') = None"
    by blast
  from c [where name = "''X''" and locn = "Register_slot 1"]
  have "succeeded (MR_trace_lookup_live_lval ex_snapshot (Register_slot 1))
      \<longleftrightarrow> read_location ex_snapshot (Register_slot 1) \<noteq> None"
    by (elim conjE)
  with readable(1)
  have r1: "succeeded (MR_trace_lookup_live_lval ex_snapshot (Register_slot 1))"
    by blast
  from c [where name = "''X''" and locn = "Stack_slot Frame_stack 0"]
  have "succeeded (MR_trace_lookup_live_lval ex_snapshot (Stack_slot Frame_stack 0))
      \<longleftrightarrow> read_location ex_snapshot (Stack_slot Frame_stack 0) \<noteq> None"
    by (elim conjE)
  with readable(2)
  have r2: "\<not> succeeded (MR_trace_lookup_live_lval ex_snapshot (Stack_slot Frame_stack 0))"
    by blast
  have x: "?f ''X'' = \<lparr>succeeded = True, answer = Some (TypeDescriptor 400 [], 11),
      found = True, type_ok = True\<rparr>"
    by (simp add: MR_trace_get_type_and_value_filtered_def ex_vars_def ex_type_params_def
          ex_snapshot_def slot_def read_location_def)
  have "?f ''Y'' = \<lparr>succeeded = False, answer = None, found = False, type_ok = False\<rparr>"
    using y by (cases "?f ''Y''") simp
  moreover have "?f ''Xs'' = \<lparr>succeeded = False, answer = None, found = True, type_ok = False\<rparr>"
    using xs by (cases "?f ''Xs''") simp
  moreover have "?f ''Z'' = \<lparr>succeeded = False, answer = None, found = True, type_ok = True\<rparr>"
    using z by (cases "?f ''Z''") simp
  ultimately show ?thesis using x r1 r2 by simp
qed

section \<open>The typeclass\_info offset law\<close>

text \<open>
  Claim C2.  For a typeclass\_info \<open>tci\<close> whose instance arity \<open>A\<close> is word 0 of its
  first-level table, \<^verbatim>\<open>MR_typeclass_info_superclass_info(tci, K)\<close> and
  \<^verbatim>\<open>MR_typeclass_info_type_info(tci, K)\<close> are the same word, the one at offset
  \<open>A + K\<close> of \<open>tci\<close>; \<^verbatim>\<open>MR_typeclass_info_class_method(tci, N)\<close> is word \<open>N\<close> of the
  first-level table, and stays the same when another arity \<open>A'\<close> is written over word 0
  of that table (word \<open>N\<close> being another word than word 0, and the table not the
  typeclass\_info itself).
\<close>

theorem typeclass_info_offset_law:
  fixes mem :: "'w::len memory"
  shows "MR_typeclass_info_superclass_info mem tci K = MR_typeclass_info_type_info mem tci K
       \<and> MR_typeclass_info_superclass_info mem tci K
           = word_at mem tci (MR_typeclass_info_instance_arity mem tci + K)
       \<and> MR_typeclass_info_type_info mem tci K
           = word_at mem tci (MR_typeclass_info_instance_arity mem tci + K)
       \<and> MR_typeclass_info_instance_arity mem tci = word_at mem (mem tci) 0
       \<and> MR_typeclass_info_class_method mem tci N = word_at mem (mem tci) N
       \<and> (tci \<noteq> mem tci \<and> mem tci + N * sizeof_Word TYPE('w) \<noteq> mem tci \<longrightarrow>
            MR_typeclass_info_instance_arity (mem(mem tci := A')) tci = A'
            \<and> MR_typeclass_info_class_method (mem(mem tci := A')) tci N
                = MR_typeclass_info_class_method mem tci N)"
  by (simp add: MR_typeclass_info_superclass_info_def MR_typeclass_info_type_info_def
      MR_typeclass_info_instance_arity_def MR_typeclass_info_class_method_def word_at_def)

text \<open>The example typeclass\_info: arity 2, then arity 3 written over it.\<close>

theorem typeclass_info_offset_law_witness:
  "MR_typeclass_info_instance_arity tci_memory 800 = 2
   \<and> MR_typeclass_info_superclass_info tci_memory 800 1 = 33
   \<and> MR_typeclass_info_type_info tci_memory 800 1 = 33
   \<and> MR_typeclass_info_class_method tci_memory 800 1 = 7001
   \<and> MR_typeclass_info_instance_arity (tci_memory(160 := 3)) 800 = 3
   \<and> MR_typeclass_info_class_method (tci_memory(160 := 3)) 800 1 = 7001
   \<and> MR_typeclass_info_superclass_info (tci_memory(160 := 3)) 800 1 = 34"
  using typeclass_info_offset_law [where mem = tci_memory and tci = 800 and K = 1 and N = 1 and A' = 3]
  by (simp add: tci_memory_def sizeof_Word_def MR_typeclass_info_superclass_info_def
      MR_typeclass_info_instance_arity_def word_at_def)

section \<open>Layout entries for all tags\<close>

text \<open>
  Claim C3.  For \<^verbatim>\<open>TAGBITS\<close> 0, 1, 2 and 3, \<^verbatim>\<open>make_typelayout_for_all_tags(Tag, Value)\<close>
  expands to exactly \<open>2 ^ TAGBITS\<close> copies of the entry \<^verbatim>\<open>make_typelayout(Tag, Value)\<close>
  (1, 2, 4 or 8); for any other \<^verbatim>\<open>TAGBITS\<close> the header stops the compilation with
  \<^verbatim>\<open>#error\<close>.
\<close>

theorem make_typelayout_for_all_tags_replicates:
  "(TAGBITS \<in> {0, 1, 2, 3} \<longrightarrow>
      make_typelayout_for_all_tags TAGBITS mktag mkword Tag Value
        = Inr (replicate (2 ^ nat TAGBITS) (make_typelayout TAGBITS mktag mkword Tag Value)))
   \<and> (TAGBITS \<notin> {0, 1, 2, 3} \<longrightarrow>
      make_typelayout_for_all_tags TAGBITS mktag mkword Tag Value
        = Inl (Error_directive
            ''make_typelayout_for_all_tags is not defined for this number of tags''))"
  by (auto simp: make_typelayout_for_all_tags_def Let_def numeral_eq_Suc)

text \<open>
  The four supported tag widths and two unsupported ones, with the identity for
  \<^verbatim>\<open>mktag\<close> and addition for \<^verbatim>\<open>mkword\<close>.
\<close>

theorem make_typelayout_for_all_tags_replicates_witness:
  "make_typelayout_for_all_tags 0 id (+) (0 :: 32 word) 4 = Inr [[0, 4]]
   \<and> make_typelayout_for_all_tags 1 id (+) (0 :: 32 word) 4 = Inr [[0, 4], [0, 4]]
   \<and> make_typelayout_for_all_tags 2 id (+) (0 :: 32 word) 4 = Inr [[4], [4], [4], [4]]
   \<and> make_typelayout_for_all_tags 3 id (+) (0 :: 32 word) 4
        = Inr [[4], [4], [4], [4], [4], [4], [4], [4]]
   \<and> make_typelayout_for_all_tags 4 id (+) (0 :: 32 word) 4
        = Inl (Error_directive
            ''make_typelayout_for_all_tags is not defined for this number of tags'')
   \<and> make_typelayout_for_all_tags (- 1) id (+) (0 :: 32 word) 4
        = Inl (Error_directive
            ''make_typelayout_for_all_tags is not defined for this number of tags'')"
  using make_typelayout_for_all_tags_replicates [of 0 id "(+)" "0 :: 32 word" 4]
    make_typelayout_for_all_tags_replicates [of 1 id "(+)" "0 :: 32 word" 4]
    make_typelayout_for_all_tags_replicates [of 2 id "(+)" "0 :: 32 word" 4]
    make_typelayout_for_all_tags_replicates [of 3 id "(+)" "0 :: 32 word" 4]
    make_typelayout_for_all_tags_replicates [of 4 id "(+)" "0 :: 32 word" 4]
    make_typelayout_for_all_tags_replicates [of "- 1" id "(+)" "0 :: 32 word" 4]
  by (simp add: make_typelayout_def numeral_eq_Suc)

section \<open>Decoding enumeration values\<close>

lemma functor_name_nth:
  assumes "v < length (c # cs)"
  shows "MR_TYPELAYOUT_ENUM_VECTOR_FUNCTOR_NAME (enum_vector_of_declaration c cs :: 'w::len Word MR_TypeLayout_EnumVector) (int v)
           = Some ((c # cs) ! v)"
  using assms by (simp add: MR_TYPELAYOUT_ENUM_VECTOR_FUNCTOR_NAME_def enum_vector_of_declaration_def)

lemma functor_name_cells:
  assumes "MR_TYPELAYOUT_ENUM_VECTOR_FUNCTOR_NAME Vector (int v) = Some name"
  shows "enum_vector_cells Vector ! (TYPELAYOUT_ENUM_FUNCTOR_OFFSET + v) = String_cell name"
proof -
  from assms have v: "v < length (functor1 Vector # other_functors Vector)"
    and n: "name = (functor1 Vector # other_functors Vector) ! v"
    by (auto simp: MR_TYPELAYOUT_ENUM_VECTOR_FUNCTOR_NAME_def Let_def split: if_splits)
  have "enum_vector_cells Vector
      = [Int_cell (enum_or_comp_const Vector), Word_cell (num_sharers Vector)]
        @ map String_cell (functor1 Vector # other_functors Vector)"
    by (simp add: enum_vector_cells_def)
  then have "enum_vector_cells Vector ! (2 + v)
      = map String_cell (functor1 Vector # other_functors Vector) ! v"
    by (simp add: nth_append)
  with v n show ?thesis
    by (simp only: TYPELAYOUT_ENUM_FUNCTOR_OFFSET_def nth_map)
qed

lemma map_nth_upt: "map (\<lambda>v. Some (xs ! v)) [0..<length xs] = map Some xs"
  by (rule nth_equalityI) simp_all

text \<open>
  Claim C6.  Decoding the enumeration value \<open>v\<close> selects the name at index \<open>v\<close> of the
  enum vector's names, which is the cell at offset \<^verbatim>\<open>TYPELAYOUT_ENUM_FUNCTOR_OFFSET\<close>
  \<open>= 2\<close> plus \<open>v\<close>, right after \<^verbatim>\<open>enum_or_comp_const\<close> and \<^verbatim>\<open>num_sharers\<close>.  For the
  vector of a declaration \<open>c # cs\<close> the values \<open>0, 1, \<dots>\<close> decode to the declared
  names in their declared order, and (the names being distinct) a smaller value decodes
  to a name declared earlier: the order of the values, by which enumeration values
  compare, is the declaration order.
\<close>

theorem enum_decode_order:
  fixes Vector :: "'w::len Word MR_TypeLayout_EnumVector"
  assumes "Vector = enum_vector_of_declaration c cs"
  shows "TYPELAYOUT_ENUM_FUNCTOR_OFFSET = 2
       \<and> (v < length (c # cs) \<longrightarrow>
            MR_TYPELAYOUT_ENUM_VECTOR_FUNCTOR_NAME Vector (int v) = Some ((c # cs) ! v)
            \<and> enum_vector_cells Vector ! (TYPELAYOUT_ENUM_FUNCTOR_OFFSET + v)
                = String_cell ((c # cs) ! v))
       \<and> (length (c # cs) \<le> v \<longrightarrow> MR_TYPELAYOUT_ENUM_VECTOR_FUNCTOR_NAME Vector (int v) = None)
       \<and> map (\<lambda>v. MR_TYPELAYOUT_ENUM_VECTOR_FUNCTOR_NAME Vector (int v)) [0..<length (c # cs)]
           = map Some (c # cs)
       \<and> (v < length (c # cs) \<and> v' < length (c # cs) \<and> distinct (c # cs) \<longrightarrow>
            (MR_TYPELAYOUT_ENUM_VECTOR_FUNCTOR_NAME Vector (int v)
               = MR_TYPELAYOUT_ENUM_VECTOR_FUNCTOR_NAME Vector (int v') \<longleftrightarrow> v = v')
            \<and> (v < v' \<longleftrightarrow> (c # cs) ! v \<in> set (take v' (c # cs))))"
proof -
  have off: "TYPELAYOUT_ENUM_FUNCTOR_OFFSET = 2"
    by (simp add: TYPELAYOUT_ENUM_FUNCTOR_OFFSET_def)
  have dec: "MR_TYPELAYOUT_ENUM_VECTOR_FUNCTOR_NAME Vector (int u) = Some ((c # cs) ! u)"
    if "u < length (c # cs)" for u
    unfolding assms using that by (rule functor_name_nth)
  have cell: "enum_vector_cells Vector ! (TYPELAYOUT_ENUM_FUNCTOR_OFFSET + v)
      = String_cell ((c # cs) ! v)" if "v < length (c # cs)"
    by (rule functor_name_cells [OF dec [OF that]])
  have out: "MR_TYPELAYOUT_ENUM_VECTOR_FUNCTOR_NAME Vector (int v) = None"
    if "length (c # cs) \<le> v"
    using that
    by (simp add: assms MR_TYPELAYOUT_ENUM_VECTOR_FUNCTOR_NAME_def enum_vector_of_declaration_def)
  have all: "map (\<lambda>v. MR_TYPELAYOUT_ENUM_VECTOR_FUNCTOR_NAME Vector (int v)) [0..<length (c # cs)]
      = map Some (c # cs)"
  proof -
    have "map (\<lambda>v. MR_TYPELAYOUT_ENUM_VECTOR_FUNCTOR_NAME Vector (int v)) [0..<length (c # cs)]
        = map (\<lambda>v. Some ((c # cs) ! v)) [0..<length (c # cs)]"
      by (rule map_cong) (simp_all only: dec atLeastLessThan_iff set_upt)
    then show ?thesis by (simp only: map_nth_upt)
  qed
  have ord: "(MR_TYPELAYOUT_ENUM_VECTOR_FUNCTOR_NAME Vector (int v)
               = MR_TYPELAYOUT_ENUM_VECTOR_FUNCTOR_NAME Vector (int v') \<longleftrightarrow> v = v')
            \<and> (v < v' \<longleftrightarrow> (c # cs) ! v \<in> set (take v' (c # cs)))"
    if v: "v < length (c # cs)" and v': "v' < length (c # cs)" and d: "distinct (c # cs)"
  proof -
    have inj: "(c # cs) ! v = (c # cs) ! v' \<longleftrightarrow> v = v'"
      using nth_eq_iff_index_eq [OF d v v'] .
    have "(c # cs) ! v \<in> set (take v' (c # cs)) \<longleftrightarrow> v < v'"
    proof
      assume "(c # cs) ! v \<in> set (take v' (c # cs))"
      then obtain i where i: "i < length (take v' (c # cs))"
        and e: "take v' (c # cs) ! i = (c # cs) ! v"
        by (auto simp: in_set_conv_nth)
      from i have iv: "i < v'" and il: "i < length (c # cs)" by simp_all
      from e iv have "(c # cs) ! i = (c # cs) ! v" by simp
      with nth_eq_iff_index_eq [OF d il v] have "i = v" by simp
      with iv show "v < v'" by simp
    next
      assume "v < v'"
      then have "take v' (c # cs) ! v = (c # cs) ! v" by simp
      moreover have "v < length (take v' (c # cs))" using \<open>v < v'\<close> v' by simp
      ultimately show "(c # cs) ! v \<in> set (take v' (c # cs))"
        by (metis nth_mem)
    qed
    with inj show ?thesis by (simp only: dec [OF v] dec [OF v'] option.inject)
  qed
  show ?thesis using off dec cell out all ord by blast
qed

text \<open>The enumeration \<open>red ; green ; blue\<close>.\<close>

theorem enum_decode_order_witness:
  "MR_TYPELAYOUT_ENUM_VECTOR_FUNCTOR_NAME
      (enum_vector_of_declaration ''red'' [''green'', ''blue''] :: 32 Word MR_TypeLayout_EnumVector) 0
     = Some ''red''
   \<and> MR_TYPELAYOUT_ENUM_VECTOR_FUNCTOR_NAME
      (enum_vector_of_declaration ''red'' [''green'', ''blue''] :: 32 Word MR_TypeLayout_EnumVector) 1
     = Some ''green''
   \<and> MR_TYPELAYOUT_ENUM_VECTOR_FUNCTOR_NAME
      (enum_vector_of_declaration ''red'' [''green'', ''blue''] :: 32 Word MR_TypeLayout_EnumVector) 2
     = Some ''blue''
   \<and> MR_TYPELAYOUT_ENUM_VECTOR_FUNCTOR_NAME
      (enum_vector_of_declaration ''red'' [''green'', ''blue''] :: 32 Word MR_TypeLayout_EnumVector) 3
     = None
   \<and> enum_vector_cells
      (enum_vector_of_declaration ''red'' [''green'', ''blue''] :: 32 Word MR_TypeLayout_EnumVector)
     = [Int_cell 1, Word_cell 3, String_cell ''red'', String_cell ''green'', String_cell ''blue'']"
  using enum_decode_order [where 'w = 32 and c = "''red''" and cs = "[''green'', ''blue'']" and v = 0 and v' = 1, OF refl]
    enum_decode_order [where 'w = 32 and c = "''red''" and cs = "[''green'', ''blue'']" and v = 1 and v' = 2, OF refl]
    enum_decode_order [where 'w = 32 and c = "''red''" and cs = "[''green'', ''blue'']" and v = 2 and v' = 0, OF refl]
    enum_decode_order [where 'w = 32 and c = "''red''" and cs = "[''green'', ''blue'']" and v = 3 and v' = 0, OF refl]
  by (simp add: enum_vector_cells_def enum_vector_of_declaration_def)

section \<open>Reading a line\<close>

lemma store_in_range:
  "m < length line \<Longrightarrow> store line (int m) c = Inr (line[m := c])"
  by (simp add: store_def)

lemma get_line_loop_spec:
  assumes "l \<le> length buf"
  shows "get_line_loop f buf (int m) (int l)
       = Inr (if newline \<in> set f then Some newline else None,
              line_rest f,
              take m buf @ take (l - m) (takeWhile (\<lambda>c. c \<noteq> newline) f)
                @ drop (m + length (take (l - m) (takeWhile (\<lambda>c. c \<noteq> newline) f))) buf,
              int (m + length (take (l - m) (takeWhile (\<lambda>c. c \<noteq> newline) f))))"
  using assms
proof (induction f arbitrary: buf m)
  case Nil
  then show ?case by (simp add: line_rest_def)
next
  case (Cons c f)
  show ?case
  proof (cases "c = newline")
    case True
    then show ?thesis by (simp add: line_rest_def)
  next
    case nonl: False
    show ?thesis
    proof (cases "m < l")
      case True
      with Cons.prems have ml: "m < length buf" by simp
      have len: "l \<le> length (buf[m := c])" using Cons.prems by simp
      have step: "get_line_loop (c # f) buf (int m) (int l)
          = get_line_loop f (buf[m := c]) (int (Suc m)) (int l)"
        using nonl True by (simp add: store_in_range [OF ml] add.commute)
      have tk: "take (Suc m) (buf[m := c]) = take m buf @ [c]"
        using ml by (simp add: take_Suc_conv_app_nth)
      have sub: "l - m = Suc (l - Suc m)" using True by simp
      have dr: "\<And>k. drop (Suc m + k) (buf[m := c]) = drop (Suc m + k) buf"
        by simp
      show ?thesis
        unfolding step Cons.IH [OF len] tk
        using nonl by (simp add: sub line_rest_def)
    next
      case False
      have step: "get_line_loop (c # f) buf (int m) (int l)
          = get_line_loop f buf (int m) (int l)"
        using nonl False by simp
      show ?thesis
        unfolding step Cons.IH [OF Cons.prems]
        using nonl False by (simp add: line_rest_def)
    qed
  qed
qed

lemma overwrite_next:
  assumes "length xs < length buf"
  shows "(xs @ drop (length xs) buf)[length xs := c] = (xs @ [c]) @ drop (length (xs @ [c])) buf"
proof -
  have "drop (length xs) buf = buf ! length xs # drop (Suc (length xs)) buf"
    using assms by (simp add: Cons_nth_drop_Suc)
  then show ?thesis
    by (simp add: list_update_append)
qed

lemma line_kept_length: "2 \<le> line_max \<Longrightarrow> int (length (line_kept f line_max)) \<le> line_max - 2"
  by (simp add: line_kept_def)

lemma line_stored_length: "2 \<le> line_max \<Longrightarrow> int (length (line_stored f line_max)) \<le> line_max - 1"
  using line_kept_length [of line_max f] by (simp add: line_stored_def)

lemma get_line_spec:
  assumes lm: "2 \<le> line_max" and size: "line_max \<le> int (length buf)"
  shows "get_line f buf line_max
       = Inr (int (length (line_stored f line_max)),
              (line_stored f line_max @ [NUL]) @ drop (length (line_stored f line_max @ [NUL])) buf,
              line_rest f)"
proof -
  define l where "l = nat (line_max - 2)"
  define k where "k = line_kept f line_max"
  have l: "line_max - 2 = int l" using lm by (simp add: l_def)
  have ll: "l \<le> length buf" and l2: "l + 2 \<le> length buf" using size l by linarith+
  have k: "take (l - 0) (takeWhile (\<lambda>c. c \<noteq> newline) f) = k"
    by (simp add: k_def line_kept_def l_def)
  have kl: "length k \<le> l" unfolding k [symmetric] by simp
  have loop: "get_line_loop f buf 0 (line_max - 2)
      = Inr (if newline \<in> set f then Some newline else None, line_rest f,
             k @ drop (length k) buf, int (length k))"
    unfolding l using get_line_loop_spec [OF ll, of f 0] unfolding k by simp
  show ?thesis
  proof (cases "newline \<in> set f \<or> k \<noteq> []")
    case True
    then have s: "line_stored f line_max = k @ [newline]"
      by (simp add: line_stored_def k_def)
    have c: "(if newline \<in> set f then Some newline else None) = Some newline \<or> int (length k) > 0"
      using True by auto
    have k1: "length k < length buf" using kl l2 by linarith
    have k2: "length (k @ [newline]) < length buf" using kl l2 by simp
    have st1: "store (k @ drop (length k) buf) (int (length k)) newline
        = Inr ((k @ [newline]) @ drop (length (k @ [newline])) buf)"
      using k1 by (simp add: store_def overwrite_next del: append_assoc)
    have st2: "store ((k @ [newline]) @ drop (length (k @ [newline])) buf) (int (length k) + 1) NUL
        = Inr (((k @ [newline]) @ [NUL]) @ drop (length ((k @ [newline]) @ [NUL])) buf)"
    proof -
      have "nat (int (length k) + 1) = Suc (length k)" by simp
      then show ?thesis
        using k2 overwrite_next [OF k2, of NUL] by (simp add: store_def del: append_assoc)
    qed
    show ?thesis
      unfolding get_line_def Let_def loop s
      using c st1 st2 by simp
  next
    case False
    then have s: "line_stored f line_max = []" and k0: "k = []"
      by (simp_all add: line_stored_def k_def)
    have c: "\<not> ((if newline \<in> set f then Some newline else None) = Some newline \<or> int (length k) > 0)"
      using False by auto
    have b: "0 < length buf" using l2 by linarith
    have st: "store buf 0 NUL = Inr ([NUL] @ drop (length [NUL]) buf)"
      using b overwrite_next [of "[]" buf NUL] by (simp add: store_def)
    show ?thesis
      unfolding get_line_def Let_def loop s
      using c by (simp add: k0 st)
  qed
qed

lemma line_stored_empty_iff:
  "line_stored f line_max = [] \<longleftrightarrow> newline \<notin> set f \<and> line_kept f line_max = []"
  by (simp add: line_stored_def)

lemma line_kept_empty_iff:
  assumes "3 \<le> line_max" and "newline \<notin> set f"
  shows "line_kept f line_max = [] \<longleftrightarrow> f = []"
proof -
  have "\<forall>c\<in>set f. c \<noteq> newline" using assms(2) by blast
  then have tw: "takeWhile (\<lambda>c. c \<noteq> newline) f = f"
    by (simp only: takeWhile_eq_all_conv)
  have "0 < nat (line_max - 2)" using assms(1) by simp
  then show ?thesis
    unfolding line_kept_def tw by (cases f) simp_all
qed

lemma line_rest_no_newline:
  assumes "newline \<notin> set f"
  shows "line_rest f = []"
proof -
  have "\<forall>c\<in>set f. c \<noteq> newline" using assms by blast
  then have d: "dropWhile (\<lambda>c. c \<noteq> newline) f = []"
    by (simp only: dropWhile_eq_Nil_conv)
  show ?thesis unfolding line_rest_def d by simp
qed

lemma drop_overwritten:
  assumes "length xs \<le> n"
  shows "drop n (xs @ drop (length xs) buf) = drop n buf"
proof -
  have "drop n (xs @ drop (length xs) buf) = drop (n - length xs) (drop (length xs) buf)"
    using assms by simp
  also have "\<dots> = drop (n - length xs + length xs) buf"
    by (simp only: drop_drop)
  also have "n - length xs + length xs = n"
    using assms by simp
  finally show ?thesis .
qed

text \<open>
  Claim C10, as amended.  For every stream and every buffer of at least \<open>line_max \<ge> 2\<close>
  characters, \<^verbatim>\<open>get_line\<close> runs without a write outside the buffer and writes only
  to the indices \<open>0, \<dots>, line_max - 1\<close>.  It stores at most \<open>line_max - 2\<close> characters
  of the input line (the first ones; the others are read and dropped), then a newline,
  then a NUL, and returns the number \<open>n\<close> of characters stored before the NUL.  Every
  nonempty line returned ends with a newline, also when the input's last line has none.
  It returns 0 exactly when the stream holds no newline and no character is kept; the
  stream is then read to its end.  For \<open>line_max \<ge> 3\<close> that is exactly the stream being
  at its end with nothing read.
\<close>

theorem get_line_bounded:
  assumes lm: "2 \<le> line_max" and size: "line_max \<le> int (length buf)"
  shows "\<exists>n buf'. get_line f buf line_max = Inr (int n, buf', line_rest f)
       \<and> length buf' = length buf
       \<and> drop (nat line_max) buf' = drop (nat line_max) buf
       \<and> int n \<le> line_max - 1
       \<and> take n buf' = line_stored f line_max
       \<and> buf' ! n = NUL
       \<and> (n = 0 \<or> take (n - 1) buf' = line_kept f line_max \<and> buf' ! (n - 1) = newline)
       \<and> int (length (line_kept f line_max)) \<le> line_max - 2
       \<and> line_kept f line_max = take (nat (line_max - 2)) (takeWhile (\<lambda>c. c \<noteq> newline) f)
       \<and> (n = 0 \<longleftrightarrow> newline \<notin> set f \<and> line_kept f line_max = [])
       \<and> (n = 0 \<longrightarrow> line_rest f = [])
       \<and> (3 \<le> line_max \<longrightarrow> (n = 0 \<longleftrightarrow> f = []))"
proof -
  define s where "s = line_stored f line_max"
  define buf' where "buf' = (s @ [NUL]) @ drop (length (s @ [NUL])) buf"
  have sl: "int (length s) \<le> line_max - 1"
    unfolding s_def by (rule line_stored_length [OF lm])
  then have sb: "length (s @ [NUL]) \<le> length buf" and sm: "length (s @ [NUL]) \<le> nat line_max"
    using size by simp_all
  have run: "get_line f buf line_max = Inr (int (length s), buf', line_rest f)"
    unfolding s_def buf'_def by (rule get_line_spec [OF lm size])
  have len: "length buf' = length buf"
    using sb by (simp add: buf'_def)
  have untouched: "drop (nat line_max) buf' = drop (nat line_max) buf"
    unfolding buf'_def by (rule drop_overwritten [OF sm])
  have stored: "take (length s) buf' = s"
    by (simp add: buf'_def)
  have nul: "buf' ! length s = NUL"
    by (simp add: buf'_def nth_append)
  have ends: "length s = 0 \<or> take (length s - 1) buf' = line_kept f line_max \<and> buf' ! (length s - 1) = newline"
  proof (cases "s = []")
    case True
    then show ?thesis by simp
  next
    case False
    then have s: "s = line_kept f line_max @ [newline]"
      by (simp add: s_def line_stored_def split: if_splits)
    show ?thesis
      by (simp add: buf'_def s nth_append)
  qed
  have zero: "length s = 0 \<longleftrightarrow> newline \<notin> set f \<and> line_kept f line_max = []"
    by (simp add: s_def line_stored_empty_iff)
  have rest: "length s = 0 \<longrightarrow> line_rest f = []"
    using zero by (simp add: line_rest_no_newline)
  have eof: "length s = 0 \<longleftrightarrow> f = []" if "3 \<le> line_max"
  proof
    assume "length s = 0"
    with zero have "newline \<notin> set f" and "line_kept f line_max = []" by simp_all
    with line_kept_empty_iff [OF that] show "f = []" by simp
  next
    assume "f = []"
    then show "length s = 0" by (simp add: s_def line_stored_def line_kept_def)
  qed
  have kept: "int (length (line_kept f line_max)) \<le> line_max - 2"
    by (rule line_kept_length [OF lm])
  have kept_def: "line_kept f line_max = take (nat (line_max - 2)) (takeWhile (\<lambda>c. c \<noteq> newline) f)"
    by (simp add: line_kept_def)
  show ?thesis
    using run len untouched sl stored [unfolded s_def] nul ends zero rest eof kept kept_def
    unfolding s_def by blast
qed

text \<open>
  A buffer of ten characters used as one of six: an over-long line, a last line without
  a newline, an empty line, and the end of the stream.
\<close>

theorem get_line_bounded_witness:
  "get_line ''abcdef\<newline>gh'' ''0123456789'' 6 = Inr (5, ''abcd\<newline>'' @ [NUL] @ ''6789'', ''gh'')
   \<and> get_line ''gh'' ''0123456789'' 6 = Inr (3, ''gh\<newline>'' @ [NUL] @ ''456789'', [])
   \<and> get_line ''\<newline>'' ''0123456789'' 6 = Inr (1, ''\<newline>'' @ [NUL] @ ''23456789'', [])
   \<and> get_line [] ''0123456789'' 6 = Inr (0, [NUL] @ ''123456789'', [])"
  using get_line_bounded [of 6 "''0123456789''" "''abcdef\<newline>gh''"]
    get_line_bounded [of 6 "''0123456789''" "''gh''"]
    get_line_bounded [of 6 "''0123456789''" "''\<newline>''"]
    get_line_bounded [of 6 "''0123456789''" "[]"]
  by (simp add: get_line_def store_def newline_def NUL_def)

text \<open>
  With \<open>line_max = 2\<close> nothing of a line is kept, and a last line without a newline
  is read, dropped and reported as 0, the value for the end of the stream.
\<close>

theorem get_line_zero_counterexample:
  "get_line ''abc'' ''01'' 2 = Inr (0, [NUL] @ ''1'', [])"
  by (simp add: get_line_def store_def newline_def NUL_def)

section \<open>Bunches of initialisation calls\<close>

lemma bunches_short: "n = 0 \<or> length xs \<le> n \<Longrightarrow> bunches n xs = [xs]"
  by (subst bunches.simps) simp

lemma bunches_long:
  "0 < n \<Longrightarrow> n < length xs \<Longrightarrow> bunches n xs = take n xs # bunches n (drop n xs)"
  by (subst bunches.simps) simp

lemma concat_bunches: "concat (bunches n xs) = xs"
proof (induction n xs rule: bunches.induct)
  case (1 n xs)
  show ?case
  proof (cases "n = 0 \<or> length xs \<le> n")
    case True
    then show ?thesis by (simp add: bunches_short)
  next
    case False
    with 1 show ?thesis by (simp add: bunches_long)
  qed
qed

lemma bunches_length_le:
  "0 < n \<Longrightarrow> b \<in> set (bunches n xs) \<Longrightarrow> length b \<le> n"
proof (induction n xs rule: bunches.induct)
  case (1 n xs)
  show ?case
  proof (cases "length xs \<le> n")
    case True
    with 1 show ?thesis by (simp add: bunches_short)
  next
    case False
    with 1 show ?thesis by (auto simp: bunches_long)
  qed
qed

lemma bunches_full_but_last:
  "0 < n \<Longrightarrow> b \<in> set (butlast (bunches n xs)) \<Longrightarrow> length b = n"
proof (induction n xs rule: bunches.induct)
  case (1 n xs)
  show ?case
  proof (cases "length xs \<le> n")
    case True
    with 1 show ?thesis by (simp add: bunches_short)
  next
    case False
    then have "bunches n (drop n xs) \<noteq> []" by (subst bunches.simps) simp
    with False 1 show ?thesis by (auto simp: bunches_long)
  qed
qed

lemma bunches_not_Nil: "bunches n xs \<noteq> []"
  by (subst bunches.simps) simp

lemma output_init_function_skips:
  "purpose = PURPOSE_DEBUGGER \<and> special \<Longrightarrow>
     output_init_function opts func_name purpose special st = Inr st"
  by (simp add: output_init_function_def)

lemma output_init_function_same_bunch:
  assumes "\<not> (purpose = PURPOSE_DEBUGGER \<and> special)"
    and "num_calls_in_cur_bunch st < maxcalls opts"
    and "output_init_function opts func_name purpose special st = Inr st'"
  shows "st' = st\<lparr>num_calls_in_cur_bunch := num_calls_in_cur_bunch st + 1,
                  stdout := stdout st @ calls_text purpose [(func_name, special)]\<rparr>"
  using assms
  by (auto simp: output_init_function_def and_then_def increment_def print_def calls_text_def
      split: if_splits option.splits)

lemma output_init_function_next_bunch:
  assumes "\<not> (purpose = PURPOSE_DEBUGGER \<and> special)"
    and "maxcalls opts \<le> num_calls_in_cur_bunch st"
    and "output_init_function opts func_name purpose special st = Inr st'"
  shows "st' = st\<lparr>num_bunches := num_bunches st + 1, num_calls_in_cur_bunch := 1,
                  stdout := stdout st
                    @ [''}\<newline>\<newline>'', bunch_function_head purpose (num_bunches st + 1), ''{\<newline>'']
                    @ calls_text purpose [(func_name, special)]\<rparr>"
  using assms
  by (auto simp: output_init_function_def and_then_def increment_def print_def calls_text_def Let_def
      split: if_splits option.splits)

lemma output_init_functions_called_for:
  "output_init_functions opts purpose eps st
     = output_init_functions opts purpose (called_for purpose eps) st"
proof (induction eps arbitrary: st)
  case Nil
  show ?case by (simp add: called_for_def)
next
  case (Cons ep eps)
  obtain func_name special where ep: "ep = (func_name, special)" by (cases ep)
  show ?case
  proof (cases "purpose = PURPOSE_DEBUGGER \<and> special")
    case True
    then have "output_init_functions opts purpose (ep # eps) st
        = output_init_functions opts purpose eps st"
      by (simp add: ep output_init_function_skips)
    also have "\<dots> = output_init_functions opts purpose (called_for purpose eps) st"
      by (rule Cons.IH)
    also have "called_for purpose eps = called_for purpose (ep # eps)"
      using True by (simp add: called_for_def ep)
    finally show ?thesis .
  next
    case False
    then have c: "called_for purpose (ep # eps) = ep # called_for purpose eps"
      by (auto simp: called_for_def ep)
    show ?thesis
      unfolding c by (simp add: ep Cons.IH split: sum.splits)
  qed
qed

lemma calls_text_Nil: "calls_text purpose [] = []"
  by (simp add: calls_text_def)

lemma calls_text_Cons:
  "calls_text purpose (ep # eps) = calls_text purpose [ep] @ calls_text purpose eps"
  by (simp add: calls_text_def)

lemma output_init_functions_bunches:
  assumes "1 \<le> maxcalls opts"
    and "\<forall>(func_name, special) \<in> set eps. \<not> (purpose = PURPOSE_DEBUGGER \<and> special)"
    and "0 \<le> num_calls_in_cur_bunch st" and "num_calls_in_cur_bunch st \<le> maxcalls opts"
    and "output_init_functions opts purpose eps st = Inr st'"
  shows "stdout st' = stdout st
           @ calls_text purpose (take (nat (maxcalls opts - num_calls_in_cur_bunch st)) eps)
           @ later_bunches_text purpose (num_bunches st + 1)
               (later_bunches (nat (maxcalls opts))
                  (nat (maxcalls opts - num_calls_in_cur_bunch st)) eps)
       \<and> num_bunches st' = num_bunches st
           + int (length (later_bunches (nat (maxcalls opts))
                            (nat (maxcalls opts - num_calls_in_cur_bunch st)) eps))
       \<and> num_errors st' = num_errors st \<and> rl_data st' = rl_data st \<and> stderr st' = stderr st"
  using assms(2-)
proof (induction eps arbitrary: st)
  case Nil
  then show ?case by (simp add: later_bunches_def calls_text_def)
next
  case (Cons ep eps)
  obtain func_name special where ep: "ep = (func_name, special)" by (cases ep)
  define n where "n = nat (maxcalls opts)"
  have n: "0 < n" "maxcalls opts = int n" using assms(1) by (simp_all add: n_def)
  from Cons.prems(1) have called: "\<not> (purpose = PURPOSE_DEBUGGER \<and> special)"
    and rest: "\<forall>(func_name, special) \<in> set eps. \<not> (purpose = PURPOSE_DEBUGGER \<and> special)"
    by (simp_all add: ep)
  from Cons.prems(4) obtain st1
    where one: "output_init_function opts func_name purpose special st = Inr st1"
      and more: "output_init_functions opts purpose eps st1 = Inr st'"
    by (auto simp: ep split: sum.splits)
  define c where "c = nat (num_calls_in_cur_bunch st)"
  have c: "num_calls_in_cur_bunch st = int c" "c \<le> n"
    using Cons.prems(2,3) n by (simp_all add: c_def)
  show ?case
  proof (cases "c < n")
    case True
    have st1: "st1 = st\<lparr>num_calls_in_cur_bunch := int (c + 1),
                  stdout := stdout st @ calls_text purpose [ep]\<rparr>"
      using output_init_function_same_bunch [OF called _ one] True c n by (simp add: ep)
    have bounds: "0 \<le> num_calls_in_cur_bunch st1" "num_calls_in_cur_bunch st1 \<le> maxcalls opts"
      using True by (simp_all add: st1 n)
    have room: "nat (maxcalls opts - num_calls_in_cur_bunch st) = Suc (n - Suc c)"
      "nat (maxcalls opts - num_calls_in_cur_bunch st1) = n - Suc c"
      using True by (simp_all add: st1 n c)
    have lb: "later_bunches n (Suc (n - Suc c)) (ep # eps) = later_bunches n (n - Suc c) eps"
      by (simp add: later_bunches_def)
    from Cons.IH [OF rest bounds more] show ?thesis
      unfolding room n_def [symmetric] lb
      by (simp add: st1 calls_text_Cons [of purpose ep "take (n - Suc c) eps"])
  next
    case False
    with c have cn: "c = n" by simp
    have st1: "st1 = st\<lparr>num_bunches := num_bunches st + 1, num_calls_in_cur_bunch := 1,
                  stdout := stdout st
                    @ [''}\<newline>\<newline>'', bunch_function_head purpose (num_bunches st + 1), ''{\<newline>'']
                    @ calls_text purpose [ep]\<rparr>"
      using output_init_function_next_bunch [OF called _ one] c n cn by (simp add: ep)
    have bounds: "0 \<le> num_calls_in_cur_bunch st1" "num_calls_in_cur_bunch st1 \<le> maxcalls opts"
      using assms(1) by (simp_all add: st1)
    have room: "nat (maxcalls opts - num_calls_in_cur_bunch st) = 0"
      "nat (maxcalls opts - num_calls_in_cur_bunch st1) = n - 1"
      using n by (simp_all add: st1 c cn nat_diff_distrib')
    have lb: "later_bunches n 0 (ep # eps)
        = (ep # take (n - 1) eps) # later_bunches n (n - 1) eps"
    proof (cases "length eps \<le> n - 1")
      case True
      then have "length (ep # eps) \<le> n" using n by simp
      then show ?thesis using True by (simp add: later_bunches_def bunches_short)
    next
      case False
      then have "n < length (ep # eps)" by simp
      from bunches_long [OF n(1) this] False n(1) show ?thesis
        by (cases n) (simp_all add: later_bunches_def)
    qed
    from Cons.IH [OF rest bounds more] show ?thesis
      unfolding room n_def [symmetric] lb
      by (simp add: st1 calls_text_Nil calls_text_Cons [of purpose ep "take (n - Suc 0) eps"])
  qed
qed

lemma same_output_refl: "same_output a a"
  by (simp add: same_output_def)

lemma same_output_sym: "same_output a b \<Longrightarrow> same_output b a"
  by (simp add: same_output_def)

lemma same_output_trans: "same_output a b \<Longrightarrow> same_output b c \<Longrightarrow> same_output a c"
  by (simp add: same_output_def)

lemma output_init_function_same_output:
  assumes "same_output a b" and "output_init_function opts func_name purpose special a = Inr a'"
  shows "\<exists>b'. output_init_function opts func_name purpose special b = Inr b' \<and> same_output a' b'"
  using assms
  by (auto simp: output_init_function_def and_then_def increment_def print_def same_output_def Let_def
      split: if_splits option.splits)

lemma output_init_functions_same_output:
  assumes "same_output a b" and "output_init_functions opts purpose eps a = Inr a'"
  shows "\<exists>b'. output_init_functions opts purpose eps b = Inr b' \<and> same_output a' b'"
  using assms
proof (induction eps arbitrary: a b)
  case Nil
  then show ?case by simp
next
  case (Cons ep eps)
  obtain func_name special where ep: "ep = (func_name, special)" by (cases ep)
  from Cons.prems(2) obtain a1
    where one: "output_init_function opts func_name purpose special a = Inr a1"
      and more: "output_init_functions opts purpose eps a1 = Inr a'"
    by (auto simp: ep split: sum.splits)
  from output_init_function_same_output [OF Cons.prems(1) one] obtain b1
    where b1: "output_init_function opts func_name purpose special b = Inr b1"
      and s1: "same_output a1 b1" by blast
  from Cons.IH [OF s1 more] obtain b'
    where "output_init_functions opts purpose eps b1 = Inr b'" and "same_output a' b'" by blast
  with b1 show ?case by (auto simp: ep)
qed

lemma output_init_functions_append:
  "output_init_functions opts purpose (xs @ ys) st
     = (case output_init_functions opts purpose xs st of
          Inl e \<Rightarrow> Inl e
        | Inr st1 \<Rightarrow> output_init_functions opts purpose ys st1)"
  by (induction xs arbitrary: st) (auto split: sum.splits)

lemma process_c_file_entry:
  assumes "process_c_file opts filename purpose st = Inr st'"
  shows "\<exists>st''. output_init_functions opts purpose [c_file_entry filename] st = Inr st''
           \<and> same_output st'' st' \<and> num_errors st' = num_errors st"
proof -
  from assms obtain st1
    where one: "output_init_function opts (fst (c_file_entry filename)) purpose False st = Inr st1"
      and st': "st' = st1 \<or> (\<exists>d. st' = add_rl_data d st1)"
    by (auto simp: process_c_file_def c_file_entry_def Let_def and_then_def
        split: option.splits if_splits sum.splits)
  have "same_output st1 st'"
    using st' by (auto simp: same_output_def add_rl_data_def)
  moreover have "num_errors st1 = num_errors st"
    using one
    by (auto simp: output_init_function_def and_then_def increment_def print_def Let_def
        split: if_splits option.splits)
  then have "num_errors st' = num_errors st"
    using st' by (auto simp: add_rl_data_def)
  ultimately show ?thesis
    using one by (auto simp: c_file_entry_def)
qed

lemma not_isalnumunder_NUL: "\<not> MR_isalnumunder NUL"
  by (simp add: MR_isalnumunder_def MR_isalnum_def NUL_def)

lemma c_string_no_NUL: "NUL \<notin> set (c_string buf)"
  unfolding c_string_def by (auto dest: set_takeWhileD)

lemma c_string_append_NUL:
  "NUL \<notin> set xs \<Longrightarrow> c_string (xs @ NUL # ys) = xs"
  by (auto simp: c_string_def takeWhile_tail)

lemma buffer_string:
  "\<exists>rest1. (stored @ [NUL]) @ rest = c_string stored @ NUL # rest1"
proof (cases "NUL \<in> set stored")
  case True
  then obtain ys zs where "stored = ys @ NUL # zs" and "NUL \<notin> set ys"
    by (auto dest: split_list_first)
  then show ?thesis by (simp add: c_string_append_NUL)
next
  case False
  then have "c_string stored = stored"
    by (auto simp: c_string_def)
  then show ?thesis by simp
qed

lemma c_string_buffer: "c_string ((stored @ [NUL]) @ rest) = c_string stored"
proof -
  obtain rest1 where "(stored @ [NUL]) @ rest = c_string stored @ NUL # rest1"
    using buffer_string by blast
  then show ?thesis
    by (simp only: c_string_append_NUL [OF c_string_no_NUL])
qed

lemma takeWhile_before_stop:
  assumes "\<forall>x\<in>set xs. P x" and "\<not> P y"
  shows "takeWhile P (xs @ y # ys) = xs"
  using assms by (simp add: takeWhile_tail)

lemma name_split:
  "\<exists>x tail. dropWhile MR_isalnumunder s5 @ NUL # rest1 = x # tail \<and> \<not> MR_isalnumunder x"
proof (cases "dropWhile MR_isalnumunder s5")
  case Nil
  show ?thesis unfolding Nil using not_isalnumunder_NUL by simp
next
  case (Cons x t)
  then have "\<not> MR_isalnumunder x"
    by (metis hd_dropWhile list.sel(1) list.simps(3))
  with Cons show ?thesis by simp
qed

lemma init_prefix_not_init:
  assumes "k \<in> {1, 2, 3, 4}"
  shows "take 4 (c_string (drop k init_str @ ys)) \<noteq> ''init''"
proof -
  from assms obtain x xs where d: "drop k init_str = x # xs" and x: "x \<noteq> CHR ''i''" "x \<noteq> NUL"
    by (auto simp: init_str_def NUL_def)
  have "c_string (drop k init_str @ ys) = x # c_string (xs @ ys)"
    using x by (simp add: d c_string_def)
  then show ?thesis using x by simp
qed

lemma init_line_parse:
  fixes line1 :: "char list"
  assumes buf: "line1 = (stored @ [NUL]) @ rest"
    and init: "take init_strlen (c_string stored) = init_str"
  shows "(let j = init_strlen + length (takeWhile MR_isalnumunder (drop init_strlen line1));
              line2 = line1[j := NUL];
              func_name_len = length (c_string (drop init_strlen line2));
              ending = init_strlen + func_name_len - 4;
              is_init = (take 4 (c_string (drop ending line2)) = ''init'');
              line3 = (if is_init then line2[ending := NUL] else line2)
          in (c_string (drop init_strlen line3), \<not> is_init) = init_line_entry (c_string stored)
             \<and> length line3 = length line1)"
proof -
  define s where "s = c_string stored"
  define s5 where "s5 = drop init_strlen s"
  define name where "name = takeWhile MR_isalnumunder s5"
  define len where "len = length name"
  obtain rest1 where l1: "line1 = s @ NUL # rest1"
    unfolding buf s_def using buffer_string by blast
  have s: "s = init_str @ s5"
    using init append_take_drop_id [of init_strlen s] by (simp add: s_def s5_def)
  have s5: "s5 = name @ dropWhile MR_isalnumunder s5"
    by (simp add: name_def)
  obtain x tail where xt: "dropWhile MR_isalnumunder s5 @ NUL # rest1 = x # tail"
    and x: "\<not> MR_isalnumunder x"
    using name_split by blast
  have all: "\<forall>c\<in>set name. MR_isalnumunder c"
    unfolding name_def by (auto dest: set_takeWhileD)
  then have name_nonul: "NUL \<notin> set name"
    using not_isalnumunder_NUL by blast
  have isl: "length init_str = init_strlen" by (simp add: init_strlen_def)
  have line1: "line1 = init_str @ name @ x # tail"
  proof -
    have "line1 = init_str @ (name @ dropWhile MR_isalnumunder s5) @ NUL # rest1"
      unfolding l1 s using s5 by simp
    then show ?thesis using xt by simp
  qed
  have d1: "drop init_strlen line1 = name @ x # tail"
    unfolding line1 using isl by simp
  have tw: "takeWhile MR_isalnumunder (drop init_strlen line1) = name"
    unfolding d1 by (rule takeWhile_before_stop [OF all x])
  define line2 where "line2 = line1[init_strlen + len := NUL]"
  have line2: "line2 = init_str @ name @ NUL # tail"
    unfolding line2_def line1 len_def using isl by (simp add: list_update_append)
  have d2: "drop init_strlen line2 = name @ NUL # tail"
    unfolding line2 using isl by simp
  have fn: "c_string (drop init_strlen line2) = name"
    unfolding d2 by (rule c_string_append_NUL [OF name_nonul])
  define ending where "ending = init_strlen + len - 4"
  define is_init where "is_init \<longleftrightarrow> take 4 (c_string (drop ending line2)) = ''init''"
  define line3 where "line3 = (if is_init then line2[ending := NUL] else line2)"
  have entry: "init_line_entry s
      = (if 4 \<le> len \<and> drop (len - 4) name = ''init'' then (take (len - 4) name, False)
         else (name, True))"
    by (simp add: init_line_entry_def Let_def name_def s5_def len_def)
  have result: "(c_string (drop init_strlen line3), \<not> is_init) = init_line_entry s"
  proof (cases "4 \<le> len")
    case True
    then have e: "ending = init_strlen + (len - 4)" by (simp add: ending_def)
    have nm: "name = take (len - 4) name @ drop (len - 4) name" by simp
    have l4: "length (drop (len - 4) name) = 4" using True by (simp add: len_def)
    have tl: "length (take (len - 4) name) = len - 4" by (simp add: len_def)
    have "drop ending line2 = drop (len - 4) name @ NUL # tail"
      unfolding e line2 using isl by (simp add: len_def)
    moreover have "NUL \<notin> set (drop (len - 4) name)"
      using name_nonul by (auto dest: in_set_dropD)
    ultimately have "c_string (drop ending line2) = drop (len - 4) name"
      by (simp add: c_string_append_NUL)
    then have ii: "is_init \<longleftrightarrow> drop (len - 4) name = ''init''"
      using l4 by (simp add: is_init_def)
    show ?thesis
    proof (cases is_init)
      case True
      obtain y ys where dn: "drop (len - 4) name = y # ys"
        using l4 by (cases "drop (len - 4) name") simp_all
      have "line2 = (init_str @ take (len - 4) name) @ y # (ys @ NUL # tail)"
        unfolding line2 using nm dn by (metis append.assoc append_Cons)
      moreover have "length (init_str @ take (len - 4) name) = ending"
        using isl tl e by simp
      ultimately have "line2[ending := NUL]
          = (init_str @ take (len - 4) name) @ NUL # (ys @ NUL # tail)"
        by (metis list_update_length)
      then have "drop init_strlen line3 = take (len - 4) name @ NUL # (ys @ NUL # tail)"
        using True isl by (simp add: line3_def)
      moreover have "NUL \<notin> set (take (len - 4) name)"
        using name_nonul by (auto dest: in_set_takeD)
      ultimately have "c_string (drop init_strlen line3) = take (len - 4) name"
        by (simp add: c_string_append_NUL)
      with True ii \<open>4 \<le> len\<close> show ?thesis by (simp add: entry)
    next
      case False
      then have "line3 = line2" by (simp add: line3_def)
      with False ii fn show ?thesis by (simp add: entry)
    qed
  next
    case False
    then have e: "ending = 1 + len" and k: "1 + len \<in> {1, 2, 3, 4}"
      by (auto simp: ending_def init_strlen_def init_str_def)
    have "1 + len \<le> length init_str" using False by (simp add: init_str_def)
    then have "drop ending line2 = drop (1 + len) init_str @ (name @ NUL # tail)"
      unfolding e line2 by simp
    then have "\<not> is_init"
      unfolding is_init_def using init_prefix_not_init [OF k] by simp
    then have "line3 = line2" "\<not> is_init" by (simp_all add: line3_def)
    with False fn show ?thesis by (simp add: entry)
  qed
  have "length line3 = length line1"
    by (simp add: line3_def line2_def)
  with result show ?thesis
    unfolding Let_def tw len_def [symmetric] line2_def [symmetric] fn
      ending_def [symmetric] is_init_def [symmetric] line3_def [symmetric] s_def [symmetric]
    by simp
qed

lemma output_init_function_num_errors:
  "output_init_function opts func_name purpose special st = Inr st' \<Longrightarrow>
     num_errors st' = num_errors st"
  by (auto simp: output_init_function_def and_then_def increment_def print_def Let_def
      split: if_splits option.splits)

lemma aditi_line_not_endinit:
  assumes "take aditi_init_strlen s = aditi_init_str"
  shows "take endinit_strlen s \<noteq> endinit_str"
proof -
  have "take endinit_strlen s = take endinit_strlen (take aditi_init_strlen s)"
    by (simp add: endinit_strlen_def aditi_init_strlen_def endinit_str_def aditi_init_str_def)
  also have "\<dots> \<noteq> endinit_str"
    unfolding assms by (simp add: endinit_strlen_def endinit_str_def aditi_init_str_def)
  finally show ?thesis .
qed

lemma line_stored_Nil_imp: "line_stored cfile m \<noteq> [] \<Longrightarrow> cfile \<noteq> []"
  by (auto simp: line_stored_def line_kept_def)

lemma MAXLINE_bounds: "2 \<le> MAXLINE" "nat MAXLINE = 256"
  by (simp_all add: MAXLINE_def)

lemma process_init_lines_entries:
  assumes "length line = nat MAXLINE" and "same_output st0 st"
    and "process_init_lines opts purpose cfile line st = Inr st'"
  shows "\<exists>st''. output_init_functions opts purpose (init_file_entries cfile) st0 = Inr st''
           \<and> same_output st'' st' \<and> num_errors st' = num_errors st"
  using assms
proof (induction "length cfile" arbitrary: cfile line st st0 rule: less_induct)
  case less
  define stored where "stored = line_stored cfile MAXLINE"
  define line1 where "line1 = (stored @ [NUL]) @ drop (length (stored @ [NUL])) line"
  define s where "s = c_string stored"
  have size: "MAXLINE \<le> int (length line)" using less.prems(1) by simp
  have gl: "get_line cfile line MAXLINE = Inr (int (length stored), line1, line_rest cfile)"
    unfolding stored_def line1_def by (rule get_line_spec [OF MAXLINE_bounds(1) size])
  have len1: "length line1 = nat MAXLINE"
  proof -
    have "int (length stored) \<le> MAXLINE - 1"
      unfolding stored_def by (rule line_stored_length [OF MAXLINE_bounds(1)])
    then have "length (stored @ [NUL]) \<le> length line" using less.prems(1) by simp
    then show ?thesis using less.prems(1) by (simp add: line1_def)
  qed
  have cs: "c_string line1 = s"
    unfolding line1_def s_def by (rule c_string_buffer)
  note run = less.prems(3) [unfolded process_init_lines.simps [of opts purpose cfile line st] gl,
      simplified]
  note entries = init_file_entries.simps [of cfile, folded stored_def, unfolded Let_def,
      folded s_def]
  show ?case
  proof (cases "stored = []")
    case True
    with run have "st' = st" by simp
    moreover have "init_file_entries cfile = []" using True entries by simp
    ultimately show ?thesis using less.prems(2) by simp
  next
    case False
    then have shorter: "length (line_rest cfile) < length cfile"
      using line_rest_shorter line_stored_Nil_imp stored_def by blast
    show ?thesis
    proof (cases "take init_strlen s = init_str")
      case True
      define j where "j = init_strlen + length (takeWhile MR_isalnumunder (drop init_strlen line1))"
      define line2 where "line2 = line1[j := NUL]"
      define ending where "ending = init_strlen + length (c_string (drop init_strlen line2)) - 4"
      define is_init where "is_init \<longleftrightarrow> take 4 (c_string (drop ending line2)) = ''init''"
      define line3 where "line3 = (if is_init then line2[ending := NUL] else line2)"
      have parse: "(c_string (drop init_strlen line3), \<not> is_init) = init_line_entry s"
        and len3: "length line3 = length line1"
        using init_line_parse [of line1 stored "drop (length (stored @ [NUL])) line"] True
        unfolding line1_def [symmetric] s_def [symmetric] Let_def j_def [symmetric]
          line2_def [symmetric] ending_def [symmetric] is_init_def [symmetric]
          line3_def [symmetric]
        by simp_all
      from run False True cs obtain st1
        where one: "output_init_function opts (c_string (drop init_strlen line3)) purpose
                      (\<not> is_init) st = Inr st1"
          and more: "process_init_lines opts purpose (line_rest cfile) line3 st1 = Inr st'"
        unfolding Let_def j_def [symmetric] line2_def [symmetric] ending_def [symmetric]
          is_init_def [symmetric] line3_def [symmetric]
        by (auto split: sum.splits)
      from output_init_function_same_output [OF same_output_sym [OF less.prems(2)] one]
      obtain st01
        where one0: "output_init_function opts (c_string (drop init_strlen line3)) purpose
                      (\<not> is_init) st0 = Inr st01"
          and s1: "same_output st1 st01" by blast
      from less.hyps [OF shorter _ same_output_sym [OF s1] more] len3 len1
      obtain st'' where rest: "output_init_functions opts purpose
            (init_file_entries (line_rest cfile)) st01 = Inr st''"
        and so: "same_output st'' st'" and ne: "num_errors st' = num_errors st1"
        by auto
      have "init_file_entries cfile
          = (c_string (drop init_strlen line3), \<not> is_init) # init_file_entries (line_rest cfile)"
        using entries False True parse by simp
      with one0 rest so ne output_init_function_num_errors [OF one] show ?thesis
        by simp
    next
      case noinit: False
      show ?thesis
      proof (cases "aditi opts \<and> take aditi_init_strlen s = aditi_init_str")
        case True
        define line2 where "line2 = line1[aditi_init_strlen
            + length (takeWhile MR_isalnumunder (drop aditi_init_strlen line1)) := NUL]"
        define d where "d = c_string (drop aditi_init_strlen line2)"
        from run False noinit True cs
        have more: "process_init_lines opts purpose (line_rest cfile) line2 (add_rl_data d st) = Inr st'"
          unfolding Let_def line2_def [symmetric] d_def [symmetric] by simp
        have so0: "same_output st0 (add_rl_data d st)"
          using less.prems(2) by (simp add: same_output_def add_rl_data_def)
        have len2: "length line2 = nat MAXLINE" using len1 by (simp add: line2_def)
        from less.hyps [OF shorter len2 so0 more]
        obtain st'' where rest: "output_init_functions opts purpose
              (init_file_entries (line_rest cfile)) st0 = Inr st''"
          and so: "same_output st'' st'" and ne: "num_errors st' = num_errors (add_rl_data d st)"
          by auto
        have "init_file_entries cfile = init_file_entries (line_rest cfile)"
          using entries False noinit True aditi_line_not_endinit [of s] by simp
        with rest so ne show ?thesis by (simp add: add_rl_data_def)
      next
        case noaditi: False
        show ?thesis
        proof (cases "take endinit_strlen s = endinit_str")
          case True
          with run False noinit noaditi cs have "st' = st" by auto
          moreover have "init_file_entries cfile = []"
            using entries False noinit True by simp
          ultimately show ?thesis using less.prems(2) by simp
        next
          case noend: False
          from run False noinit noaditi noend cs
          have more: "process_init_lines opts purpose (line_rest cfile) line1 st = Inr st'"
            by auto
          from less.hyps [OF shorter len1 less.prems(2) more]
          obtain st'' where rest: "output_init_functions opts purpose
                (init_file_entries (line_rest cfile)) st0 = Inr st''"
            and so: "same_output st'' st'" and ne: "num_errors st' = num_errors st"
            by auto
          have "init_file_entries cfile = init_file_entries (line_rest cfile)"
            using entries False noinit noend by simp
          with rest so ne show ?thesis by simp
        qed
      qed
    qed
  qed
qed

lemma process_init_file_entries:
  assumes "same_output st0 st"
    and "process_init_file opts fs filename purpose st = Inr st'"
  shows "\<exists>st''. output_init_functions opts purpose (init_file_entry_points fs filename) st0 = Inr st''
           \<and> same_output st'' st'
           \<and> num_errors st' = num_errors st + (if contents fs filename = None then 1 else 0)"
proof (cases "contents fs filename")
  case None
  with assms(2) have "stdout st' = stdout st" "num_bunches st' = num_bunches st"
    "num_calls_in_cur_bunch st' = num_calls_in_cur_bunch st" "num_errors st' = num_errors st + 1"
    by (auto simp: process_init_file_def Let_def eprint_def increment_def split: option.splits if_splits)
  with assms(1) None show ?thesis
    by (simp add: init_file_entry_points_def same_output_def)
next
  case (Some cfile)
  with assms(2)
  have run: "process_init_lines opts purpose cfile (replicate (nat MAXLINE) NUL) st = Inr st'"
    by (simp add: process_init_file_def)
  have "length (replicate (nat MAXLINE) NUL) = nat MAXLINE" by simp
  from process_init_lines_entries [OF this assms(1) run] Some show ?thesis
    by (simp add: init_file_entry_points_def)
qed

lemma process_file_entries:
  assumes "same_output st0 st"
    and "process_file opts fs filename purpose st = Inr st'"
  shows "\<exists>st''. output_init_functions opts purpose (file_entry_points opts fs filename) st0 = Inr st''
           \<and> same_output st'' st'
           \<and> num_errors st' = num_errors st + (if file_in_error opts fs filename then 1 else 0)"
proof -
  define len where "len = length filename"
  consider (c) "len \<ge> 2 \<and> drop (len - 2) filename = ''.c''" "\<not> c_files_contain_extra_inits opts"
    | (cx) "len \<ge> 2 \<and> drop (len - 2) filename = ''.c''" "c_files_contain_extra_inits opts"
    | (init) "\<not> (len \<ge> 2 \<and> drop (len - 2) filename = ''.c'')"
        "len \<ge> 5 \<and> drop (len - 5) filename = ''.init''"
    | (other) "\<not> (len \<ge> 2 \<and> drop (len - 2) filename = ''.c'')"
        "\<not> (len \<ge> 5 \<and> drop (len - 5) filename = ''.init'')"
    by blast
  then show ?thesis
  proof cases
    case c
    then have run: "process_c_file opts filename purpose st = Inr st'"
      using assms(2) by (simp add: process_file_def len_def)
    have fe: "file_entry_points opts fs filename = [c_file_entry filename]"
      and ok: "\<not> file_in_error opts fs filename"
      using c by (simp_all add: file_entry_points_def file_in_error_def len_def Let_def)
    from process_c_file_entry [OF run] obtain st1
      where r1: "output_init_functions opts purpose [c_file_entry filename] st = Inr st1"
        and s1: "same_output st1 st'" and ne: "num_errors st' = num_errors st" by blast
    from output_init_functions_same_output [OF same_output_sym [OF assms(1)] r1] obtain st''
      where "output_init_functions opts purpose [c_file_entry filename] st0 = Inr st''"
        and "same_output st1 st''" by blast
    with s1 ne fe ok show ?thesis
      using same_output_trans [OF same_output_sym s1] by auto
  next
    case cx
    then have run: "process_init_file opts fs filename purpose st = Inr st'"
      using assms(2) by (simp add: process_file_def len_def)
    have fe: "file_entry_points opts fs filename = init_file_entry_points fs filename"
      and ok: "file_in_error opts fs filename \<longleftrightarrow> contents fs filename = None"
      using cx by (simp_all add: file_entry_points_def file_in_error_def len_def Let_def)
    from process_init_file_entries [OF assms(1) run] show ?thesis
      unfolding fe ok .
  next
    case init
    then have run: "process_init_file opts fs filename purpose st = Inr st'"
      using assms(2) by (simp add: process_file_def len_def)
    have fe: "file_entry_points opts fs filename = init_file_entry_points fs filename"
      and ok: "file_in_error opts fs filename \<longleftrightarrow> contents fs filename = None"
      using init by (simp_all add: file_entry_points_def file_in_error_def len_def Let_def)
    from process_init_file_entries [OF assms(1) run] show ?thesis
      unfolding fe ok .
  next
    case other
    with assms(2) have "stdout st' = stdout st" "num_bunches st' = num_bunches st"
      "num_calls_in_cur_bunch st' = num_calls_in_cur_bunch st" "num_errors st' = num_errors st + 1"
      by (auto simp: process_file_def len_def Let_def eprint_def increment_def
          split: option.splits if_splits)
    moreover have "file_entry_points opts fs filename = []" "file_in_error opts fs filename"
      using other by (auto simp: file_entry_points_def file_in_error_def len_def Let_def)
    ultimately show ?thesis
      using assms(1) by (simp add: same_output_def)
  qed
qed

lemma process_files_entries:
  assumes "same_output st0 st"
    and "process_files opts fs filenames purpose st = Inr st'"
  shows "\<exists>st''. output_init_functions opts purpose
             (concat (map (file_entry_points opts fs) filenames)) st0 = Inr st''
           \<and> same_output st'' st'
           \<and> num_errors st' = num_errors st + int (length (filter (file_in_error opts fs) filenames))"
  using assms
proof (induction filenames arbitrary: st st0)
  case Nil
  then show ?case by simp
next
  case (Cons filename filenames)
  from Cons.prems(2) obtain st1
    where one: "process_file opts fs filename purpose st = Inr st1"
      and more: "process_files opts fs filenames purpose st1 = Inr st'"
    by (auto split: sum.splits)
  from process_file_entries [OF Cons.prems(1) one] obtain st01
    where r1: "output_init_functions opts purpose (file_entry_points opts fs filename) st0 = Inr st01"
      and s1: "same_output st01 st1"
      and n1: "num_errors st1 = num_errors st + (if file_in_error opts fs filename then 1 else 0)"
    by blast
  from Cons.IH [OF s1 more] obtain st''
    where r2: "output_init_functions opts purpose
             (concat (map (file_entry_points opts fs) filenames)) st01 = Inr st''"
      and s2: "same_output st'' st'"
      and n2: "num_errors st' = num_errors st1 + int (length (filter (file_in_error opts fs) filenames))"
    by blast
  from r1 r2 have "output_init_functions opts purpose
      (concat (map (file_entry_points opts fs) (filename # filenames))) st0 = Inr st''"
    by (simp add: output_init_functions_append)
  with s2 n1 n2 show ?case by simp
qed

lemma printf_d_0: "printf_d 0 = ''0''"
  by code_simp

lemma bunch_function_head_0:
  "bunch_function_head purpose 0
     = ''static void '' @ main_func_name purpose @ ''_0('' @ main_func_arg_defn purpose @ '')\<newline>''"
  by (simp add: bunch_function_head_def printf_d_0)

lemma hd_bunches: "0 < n \<Longrightarrow> hd (bunches n xs) = take n xs"
  by (subst bunches.simps) simp

lemma tl_bunches: "0 < n \<Longrightarrow> tl (bunches n xs) = later_bunches n n xs"
  by (subst bunches.simps) (simp add: later_bunches_def)

lemma called_for_all:
  "\<forall>(func_name, special) \<in> set (called_for purpose eps). \<not> (purpose = PURPOSE_DEBUGGER \<and> special)"
  by (auto simp: called_for_def)

lemma output_sub_init_functions_text:
  assumes mc: "1 \<le> maxcalls opts"
    and run: "output_sub_init_functions opts fs purpose st = Inr st1"
  shows "stdout st1 = stdout st @ sub_init_opening purpose
           @ bunches_text purpose (bunches (nat (maxcalls opts)) (called_for purpose (entry_points opts fs)))
           @ sub_init_closing purpose
       \<and> num_bunches st1
           = int (length (bunches (nat (maxcalls opts)) (called_for purpose (entry_points opts fs)))) - 1
       \<and> num_errors st1
           = num_errors st + int (length (filter (file_in_error opts fs) (files opts)))"
proof -
  define n where "n = nat (maxcalls opts)"
  define eps where "eps = called_for purpose (entry_points opts fs)"
  define stb where "stb = (print_all (sub_init_opening purpose) st)
      \<lparr>num_bunches := 0, num_calls_in_cur_bunch := 0\<rparr>"
  have n: "0 < n" using mc by (simp add: n_def)
  from run obtain stc
    where files: "process_files opts fs (files opts) purpose stb = Inr stc"
      and st1: "st1 = print_all (sub_init_closing purpose) stc"
    by (auto simp: output_sub_init_functions_def Let_def stb_def sub_init_opening_def
        sub_init_closing_def bunch_function_head_0 split: sum.splits)
  from process_files_entries [OF same_output_refl files] obtain st''
    where r: "output_init_functions opts purpose (entry_points opts fs) stb = Inr st''"
      and so: "same_output st'' stc"
      and ne: "num_errors stc = num_errors stb
                 + int (length (filter (file_in_error opts fs) (files opts)))"
    unfolding entry_points_def by blast
  from r have r': "output_init_functions opts purpose eps stb = Inr st''"
    unfolding eps_def using output_init_functions_called_for [of opts purpose] by simp
  have b0: "0 \<le> num_calls_in_cur_bunch stb" "num_calls_in_cur_bunch stb \<le> maxcalls opts"
    using mc by (simp_all add: stb_def)
  have room: "nat (maxcalls opts - num_calls_in_cur_bunch stb) = n"
    by (simp add: stb_def n_def)
  from output_init_functions_bunches [OF mc _ b0 r'] called_for_all [of purpose "entry_points opts fs"]
  have out: "stdout st'' = stdout stb @ calls_text purpose (take n eps)
           @ later_bunches_text purpose (num_bunches stb + 1) (later_bunches n n eps)"
    and nb: "num_bunches st'' = num_bunches stb + int (length (later_bunches n n eps))"
    unfolding room n_def [symmetric] eps_def [symmetric] by simp_all
  have bt: "bunches_text purpose (bunches n eps)
      = calls_text purpose (take n eps) @ later_bunches_text purpose 1 (later_bunches n n eps)"
    by (simp add: bunches_text_def hd_bunches [OF n] tl_bunches [OF n])
  have len: "int (length (bunches n eps)) - 1 = int (length (later_bunches n n eps))"
    using tl_bunches [OF n, of eps] bunches_not_Nil [of n eps]
    by (metis length_tl of_nat_1 of_nat_diff One_nat_def Suc_leI length_greater_0_conv)
  have "stdout st1 = stdout stc @ sub_init_closing purpose"
    "num_bunches st1 = num_bunches stc" "num_errors st1 = num_errors stc"
    by (simp_all add: st1 print_all_def)
  moreover have "stdout stc = stdout st''" "num_bunches stc = num_bunches st''"
    using so by (simp_all add: same_output_def)
  moreover have "stdout stb = stdout st @ sub_init_opening purpose" "num_bunches stb = 0"
    "num_errors stb = num_errors st"
    by (simp_all add: stb_def print_all_def)
  ultimately show ?thesis
    unfolding n_def [symmetric] eps_def [symmetric] bt len
    using out nb ne by simp
qed

lemma output_main_init_function_text:
  assumes "output_main_init_function purpose k st1 = Inr st2"
  shows "stdout st2 = stdout st1 @ main_init_opening purpose
           @ map (bunch_call purpose) [0..k] @ main_init_closing purpose
       \<and> num_errors st2 = num_errors st1"
  using assms
  by (auto simp: output_main_init_function_def Let_def print_all_def main_init_opening_def
      main_init_closing_def split: if_splits)

text \<open>
  Claim C7, as amended.  Take a purpose, a file list and \<open>maxcalls \<ge> 1\<close>, and let the
  output of the bunch functions and of the main function for that purpose run to their
  end.  The entry points that get a call are those of the files, in the order of the
  command line and of the lines of each file; for \<^verbatim>\<open>PURPOSE_DEBUGGER\<close> those of the
  handwritten modules get none.  The calls are written in that order in bunches of at
  most \<open>maxcalls\<close> (all but the last of exactly \<open>maxcalls\<close>): bunch function 0 first,
  and each time a bunch is full the next call opens the bunch function with the next
  number.  \<^verbatim>\<open>num_bunches\<close> ends as the number of the last bunch, and the main function
  calls the bunch functions \<open>0, \<dots>, num_bunches\<close>, each once, in this order.
\<close>

theorem init_calls_in_bunches:
  assumes mc: "1 \<le> maxcalls opts"
    and sub: "output_sub_init_functions opts fs purpose st = Inr st1"
    and main: "output_main_init_function purpose (num_bunches st1) st1 = Inr st2"
  shows "(let eps = called_for purpose (entry_points opts fs);
              bs = bunches (nat (maxcalls opts)) eps
          in concat bs = eps
           \<and> (\<forall>b \<in> set bs. int (length b) \<le> maxcalls opts)
           \<and> (\<forall>b \<in> set (butlast bs). int (length b) = maxcalls opts)
           \<and> stdout st1 = stdout st @ sub_init_opening purpose @ bunches_text purpose bs
                @ sub_init_closing purpose
           \<and> num_bunches st1 = int (length bs) - 1
           \<and> stdout st2 = stdout st1 @ main_init_opening purpose
                @ map (bunch_call purpose) [0..int (length bs) - 1] @ main_init_closing purpose
           \<and> (purpose \<noteq> PURPOSE_DEBUGGER \<longrightarrow> eps = entry_points opts fs)
           \<and> (purpose = PURPOSE_DEBUGGER \<longrightarrow>
                eps = filter (\<lambda>(func_name, special). \<not> special) (entry_points opts fs)))"
proof -
  define eps where "eps = called_for purpose (entry_points opts fs)"
  define bs where "bs = bunches (nat (maxcalls opts)) eps"
  have n: "0 < nat (maxcalls opts)" using mc by simp
  have c: "concat bs = eps"
    unfolding bs_def by (rule concat_bunches)
  have le: "\<forall>b \<in> set bs. int (length b) \<le> maxcalls opts"
  proof
    fix b assume "b \<in> set bs"
    then have "length b \<le> nat (maxcalls opts)"
      unfolding bs_def by (rule bunches_length_le [OF n])
    then show "int (length b) \<le> maxcalls opts" using mc by linarith
  qed
  have full: "\<forall>b \<in> set (butlast bs). int (length b) = maxcalls opts"
  proof
    fix b assume "b \<in> set (butlast bs)"
    then have "length b = nat (maxcalls opts)"
      unfolding bs_def by (rule bunches_full_but_last [OF n])
    then show "int (length b) = maxcalls opts" using mc by linarith
  qed
  from output_sub_init_functions_text [OF mc sub]
  have out: "stdout st1 = stdout st @ sub_init_opening purpose @ bunches_text purpose bs
                @ sub_init_closing purpose"
    and nb: "num_bunches st1 = int (length bs) - 1"
    unfolding bs_def eps_def by simp_all
  from output_main_init_function_text [OF main]
  have out2: "stdout st2 = stdout st1 @ main_init_opening purpose
                @ map (bunch_call purpose) [0..int (length bs) - 1] @ main_init_closing purpose"
    unfolding nb by simp
  have all: "purpose \<noteq> PURPOSE_DEBUGGER \<longrightarrow> eps = entry_points opts fs"
    by (simp add: eps_def called_for_def)
  have dbg: "purpose = PURPOSE_DEBUGGER \<longrightarrow>
      eps = filter (\<lambda>(func_name, special). \<not> special) (entry_points opts fs)"
    by (simp add: eps_def called_for_def)
  show ?thesis
    unfolding Let_def eps_def [symmetric] bs_def [symmetric]
    using c le full out nb out2 all dbg by blast
qed

text \<open>The example run: four entry points, in two bunches of two for \<^verbatim>\<open>PURPOSE_INIT\<close>.\<close>

lemma ex_entry_points:
  "entry_points ex_opts ex_fs
     = [(''mercury__a__'', False), (''sys_init_x'', True), (''mercury__a2__'', False),
        (''mercury__f__b__x__'', False)]"
  by code_simp

theorem init_calls_in_bunches_witness:
  "bunches 2 (called_for PURPOSE_INIT (entry_points ex_opts ex_fs))
     = [[(''mercury__a__'', False), (''sys_init_x'', True)],
        [(''mercury__a2__'', False), (''mercury__f__b__x__'', False)]]
   \<and> stdout (projr (output_sub_init_functions ex_opts ex_fs PURPOSE_INIT initial_state))
     = sub_init_opening PURPOSE_INIT
       @ bunches_text PURPOSE_INIT
           [[(''mercury__a__'', False), (''sys_init_x'', True)],
            [(''mercury__a2__'', False), (''mercury__f__b__x__'', False)]]
       @ sub_init_closing PURPOSE_INIT
   \<and> num_bunches (projr (output_sub_init_functions ex_opts ex_fs PURPOSE_INIT initial_state)) = 1"
proof -
  define st1 where "st1 = projr (output_sub_init_functions ex_opts ex_fs PURPOSE_INIT initial_state)"
  have mc: "1 \<le> maxcalls ex_opts" by (simp add: ex_opts_def)
  have "\<not> isl (output_sub_init_functions ex_opts ex_fs PURPOSE_INIT initial_state)"
    by code_simp
  then have sub: "output_sub_init_functions ex_opts ex_fs PURPOSE_INIT initial_state = Inr st1"
    by (simp add: st1_def)
  have "\<not> isl (output_main_init_function PURPOSE_INIT (num_bunches st1) st1)"
    unfolding st1_def by code_simp
  then have main: "output_main_init_function PURPOSE_INIT (num_bunches st1) st1
      = Inr (projr (output_main_init_function PURPOSE_INIT (num_bunches st1) st1))"
    by simp
  have bs: "bunches 2 (called_for PURPOSE_INIT (entry_points ex_opts ex_fs))
     = [[(''mercury__a__'', False), (''sys_init_x'', True)],
        [(''mercury__a2__'', False), (''mercury__f__b__x__'', False)]]"
    by code_simp
  have two: "nat (maxcalls ex_opts) = 2" by (simp add: ex_opts_def)
  from init_calls_in_bunches [OF mc sub main] show ?thesis
    unfolding Let_def two bs st1_def [symmetric]
    by (simp add: initial_state_def)
qed

text \<open>
  For \<^verbatim>\<open>PURPOSE_DEBUGGER\<close> the entry point \<^verbatim>\<open>sys_init_x\<close> of the example gets no call;
  and with \<^verbatim>\<open>-c 0\<close> bunch function 0 stays empty and bunch function 1 holds one call,
  more than \<open>maxcalls\<close>.
\<close>

theorem init_calls_counterexample:
  "entry_points ex_opts ex_fs
     = [(''mercury__a__'', False), (''sys_init_x'', True), (''mercury__a2__'', False),
        (''mercury__f__b__x__'', False)]
   \<and> output_sub_init_functions ex_opts ex_fs PURPOSE_DEBUGGER initial_state
     = Inr (initial_state\<lparr>stdout := sub_init_opening PURPOSE_DEBUGGER
              @ calls_text PURPOSE_DEBUGGER [(''mercury__a__'', False), (''mercury__a2__'', False)]
              @ later_bunches_text PURPOSE_DEBUGGER 1 [[(''mercury__f__b__x__'', False)]]
              @ sub_init_closing PURPOSE_DEBUGGER,
            num_bunches := 1, num_calls_in_cur_bunch := 1\<rparr>)
   \<and> output_sub_init_functions (ex_opts\<lparr>maxcalls := 0, files := [''dir/f_b.x.c'']\<rparr>) ex_fs
       PURPOSE_INIT initial_state
     = Inr (initial_state\<lparr>stdout := sub_init_opening PURPOSE_INIT
              @ calls_text PURPOSE_INIT []
              @ later_bunches_text PURPOSE_INIT 1 [[(''mercury__f__b__x__'', False)]]
              @ sub_init_closing PURPOSE_INIT,
            num_bunches := 1, num_calls_in_cur_bunch := 1\<rparr>)"
  by code_simp

section \<open>Errors in a run of mkinit\<close>

lemma output_sub_init_functions_num_errors:
  assumes "output_sub_init_functions opts fs purpose st = Inr st1"
  shows "num_errors st1 = num_errors st + int (length (filter (file_in_error opts fs) (files opts)))"
proof -
  from assms obtain sta stc
    where files: "process_files opts fs (files opts) purpose sta = Inr stc"
      and sta: "num_errors sta = num_errors st"
      and st1: "num_errors st1 = num_errors stc"
    by (auto simp: output_sub_init_functions_def Let_def print_all_def split: sum.splits)
  from process_files_entries [OF same_output_refl files] sta st1 show ?thesis
    by auto
qed

lemma output_main_init_function_num_errors:
  "output_main_init_function purpose k st1 = Inr st2 \<Longrightarrow> num_errors st2 = num_errors st1"
  by (simp add: output_main_init_function_text)

lemma init_functions_num_errors:
  assumes "output_sub_init_functions opts fs purpose st = Inr st1"
    and "output_main_init_function purpose (num_bunches st1) st1 = Inr st2"
  shows "num_errors st2 = num_errors st + int (length (filter (file_in_error opts fs) (files opts)))"
  using output_sub_init_functions_num_errors [OF assms(1)]
    output_main_init_function_num_errors [OF assms(2)] by simp

lemma set_output_file_Inr:
  "set_output_file opts fs st = Inr fs' \<Longrightarrow> fs' = with_output_file opts fs"
  by (auto simp: set_output_file_def with_output_file_def split: option.splits if_splits)

lemma and_then_Inr:
  "and_then m f = Inr y \<Longrightarrow> \<exists>x. m = Inr x \<and> f x = Inr y"
  by (cases m) (simp_all add: and_then_def)

lemma and_then_InrE:
  assumes "and_then m f = Inr y"
  obtains x where "m = Inr x" and "f x = Inr y"
  using assms by (cases m) (simp_all add: and_then_def)

lemma num_errors_output:
  "num_errors (output_headers opts st) = num_errors st"
  "num_errors (output_main opts st) = num_errors st"
  "num_errors (output_aditi_load_function st) = num_errors st"
  "num_errors (print s st) = num_errors st"
  "num_errors (print_all ss st) = num_errors st"
  by (simp_all add: output_headers_def output_main_def output_aditi_load_function_def
      print_def print_all_def Let_def)

text \<open>
  Claim C9, as amended.  When a run reaches the end of \<^verbatim>\<open>main\<close>: \<^verbatim>\<open>num_errors\<close> is four
  times the number of files in error (each file is processed once for each purpose);
  \<^verbatim>\<open>main\<close> returns \<^verbatim>\<open>EXIT_SUCCESS\<close> exactly when \<^verbatim>\<open>num_errors\<close> is 0, that is when no
  file is in error, and \<^verbatim>\<open>EXIT_FAILURE\<close> otherwise; after an error the last thing written
  is the \<^verbatim>\<open>#error\<close> directive and the output file named with \<^verbatim>\<open>-o\<close>, if any, is
  removed; without an error nothing is removed.
\<close>

theorem main_error_atomicity:
  assumes run: "main opts0 fs0 = Inr r"
  shows "(let fs = with_output_file opts0 fs0;
              opts = opts0\<lparr>files := do_path_search opts0 fs\<rparr>;
              bad = filter (file_in_error opts fs) (files opts)
          in num_errors (final_state r) = 4 * int (length bad)
           \<and> (exit_status r = EXIT_SUCCESS \<longleftrightarrow> num_errors (final_state r) = 0)
           \<and> (exit_status r = EXIT_SUCCESS \<longleftrightarrow> bad = [])
           \<and> (exit_status r = EXIT_SUCCESS \<or> exit_status r = EXIT_FAILURE)
           \<and> (bad \<noteq> [] \<longrightarrow>
                exit_status r = EXIT_FAILURE
                \<and> last (stdout (final_state r)) = error_directive
                \<and> output_file_removed r = (output_file_name opts0 \<noteq> None))
           \<and> (bad = [] \<longrightarrow> \<not> output_file_removed r))"
proof -
  define fs where "fs = with_output_file opts0 fs0"
  define opts where "opts = opts0\<lparr>files := do_path_search opts0 fs\<rparr>"
  define bad where "bad = filter (file_in_error opts fs) (files opts)"
  define st2 where "st2 = (if need_initialization_code opts
      then print ''#define MR_MAY_NEED_INITIALIZATION\<newline>\<newline>'' (output_headers opts initial_state)
      else output_headers opts initial_state)"
  have n2: "num_errors st2 = 0"
    by (simp add: st2_def num_errors_output initial_state_def)
  from run have nonempty: "\<not> length (files opts0) \<le> 0"
    by (auto simp: main_def split: if_splits)
  with run obtain fs' where open_ok: "set_output_file opts0 fs0 initial_state = Inr fs'"
    and rest: "(let opts = opts0\<lparr>files := do_path_search opts0 fs'\<rparr>;
            st1 = output_headers opts initial_state;
            st2 = (if need_initialization_code opts
                   then print ''#define MR_MAY_NEED_INITIALIZATION\<newline>\<newline>'' st1 else st1)
        in
        and_then (output_sub_init_functions opts fs' PURPOSE_INIT st2) (\<lambda>st3.
        and_then (output_main_init_function PURPOSE_INIT (num_bunches st3) st3) (\<lambda>st4.
        and_then (output_sub_init_functions opts fs' PURPOSE_TYPE_TABLE st4) (\<lambda>st5.
        and_then (output_main_init_function PURPOSE_TYPE_TABLE (num_bunches st5) st5) (\<lambda>st6.
        and_then (output_sub_init_functions opts fs' PURPOSE_DEBUGGER st6) (\<lambda>st7.
        and_then (output_main_init_function PURPOSE_DEBUGGER (num_bunches st7) st7) (\<lambda>st8.
        and_then (output_sub_init_functions opts fs' PURPOSE_PROC_STATIC st8) (\<lambda>st9.
        and_then (output_main_init_function PURPOSE_PROC_STATIC (num_bunches st9) st9) (\<lambda>st10.
        let st11 = (if aditi opts then output_aditi_load_function st10 else st10);
            st12 = output_main opts st11
        in
        if num_errors st12 > 0 then
          Inr \<lparr>exit_status = EXIT_FAILURE,
               final_state = print_all
                 [''/* Force syntax error, since there were */\<newline>'',
                  ''/* errors in the generation of this file */\<newline>'',
                  ''#error '' @ [CHR 0x22] @ ''You need to remake this file'' @ [CHR 0x22]
                    @ ''\<newline>''] st12,
               output_file_removed = (output_file_name opts \<noteq> None)\<rparr>
        else
          Inr \<lparr>exit_status = EXIT_SUCCESS, final_state = st12,
               output_file_removed = False\<rparr>))))))))) = Inr r"
    unfolding main_def by (simp only: if_False) (drule and_then_Inr, blast)
  have fs': "fs' = fs"
    unfolding fs_def by (rule set_output_file_Inr [OF open_ok])
  note rest' = rest [unfolded fs' Let_def, folded opts_def, folded st2_def]
  from rest' have "\<exists>st3 st4 st5 st6 st7 st8 st9 st10.
        output_sub_init_functions opts fs PURPOSE_INIT st2 = Inr st3
      \<and> output_main_init_function PURPOSE_INIT (num_bunches st3) st3 = Inr st4
      \<and> output_sub_init_functions opts fs PURPOSE_TYPE_TABLE st4 = Inr st5
      \<and> output_main_init_function PURPOSE_TYPE_TABLE (num_bunches st5) st5 = Inr st6
      \<and> output_sub_init_functions opts fs PURPOSE_DEBUGGER st6 = Inr st7
      \<and> output_main_init_function PURPOSE_DEBUGGER (num_bunches st7) st7 = Inr st8
      \<and> output_sub_init_functions opts fs PURPOSE_PROC_STATIC st8 = Inr st9
      \<and> output_main_init_function PURPOSE_PROC_STATIC (num_bunches st9) st9 = Inr st10
      \<and> (if num_errors (output_main opts
                    (if aditi opts then output_aditi_load_function st10 else st10)) > 0 then
          Inr \<lparr>exit_status = EXIT_FAILURE,
               final_state = print_all
                 [''/* Force syntax error, since there were */\<newline>'',
                  ''/* errors in the generation of this file */\<newline>'',
                  ''#error '' @ [CHR 0x22] @ ''You need to remake this file'' @ [CHR 0x22]
                    @ ''\<newline>'']
                 (output_main opts (if aditi opts then output_aditi_load_function st10 else st10)),
               output_file_removed = (output_file_name opts \<noteq> None)\<rparr>
        else
          Inr \<lparr>exit_status = EXIT_SUCCESS,
               final_state = output_main opts
                 (if aditi opts then output_aditi_load_function st10 else st10),
               output_file_removed = False\<rparr>) = (Inr r :: main_result outcome)"
    by (elim and_then_InrE) (intro exI conjI; assumption)
  then obtain st3 st4 st5 st6 st7 st8 st9 st10
    where s3: "output_sub_init_functions opts fs PURPOSE_INIT st2 = Inr st3"
      and s4: "output_main_init_function PURPOSE_INIT (num_bunches st3) st3 = Inr st4"
      and s5: "output_sub_init_functions opts fs PURPOSE_TYPE_TABLE st4 = Inr st5"
      and s6: "output_main_init_function PURPOSE_TYPE_TABLE (num_bunches st5) st5 = Inr st6"
      and s7: "output_sub_init_functions opts fs PURPOSE_DEBUGGER st6 = Inr st7"
      and s8: "output_main_init_function PURPOSE_DEBUGGER (num_bunches st7) st7 = Inr st8"
      and s9: "output_sub_init_functions opts fs PURPOSE_PROC_STATIC st8 = Inr st9"
      and s10: "output_main_init_function PURPOSE_PROC_STATIC (num_bunches st9) st9 = Inr st10"
      and r10: "(if num_errors (output_main opts
                    (if aditi opts then output_aditi_load_function st10 else st10)) > 0 then
          Inr \<lparr>exit_status = EXIT_FAILURE,
               final_state = print_all
                 [''/* Force syntax error, since there were */\<newline>'',
                  ''/* errors in the generation of this file */\<newline>'',
                  ''#error '' @ [CHR 0x22] @ ''You need to remake this file'' @ [CHR 0x22]
                    @ ''\<newline>'']
                 (output_main opts (if aditi opts then output_aditi_load_function st10 else st10)),
               output_file_removed = (output_file_name opts \<noteq> None)\<rparr>
        else
          Inr \<lparr>exit_status = EXIT_SUCCESS,
               final_state = output_main opts
                 (if aditi opts then output_aditi_load_function st10 else st10),
               output_file_removed = False\<rparr>) = (Inr r :: main_result outcome)"
    by (elim exE conjE)
  define st12 where "st12 = output_main opts (if aditi opts then output_aditi_load_function st10 else st10)"
  have n10: "num_errors st10 = 4 * int (length bad)"
    using init_functions_num_errors [OF s3 s4] init_functions_num_errors [OF s5 s6]
      init_functions_num_errors [OF s7 s8] init_functions_num_errors [OF s9 s10] n2
    by (simp add: bad_def)
  have n12: "num_errors st12 = 4 * int (length bad)"
    using n10 by (simp add: st12_def num_errors_output)
  have r: "r = (if num_errors st12 > 0 then
          \<lparr>exit_status = EXIT_FAILURE,
               final_state = print_all
                 [''/* Force syntax error, since there were */\<newline>'',
                  ''/* errors in the generation of this file */\<newline>'', error_directive] st12,
               output_file_removed = (output_file_name opts \<noteq> None)\<rparr>
        else
          \<lparr>exit_status = EXIT_SUCCESS, final_state = st12, output_file_removed = False\<rparr>)"
    using r10 unfolding st12_def [symmetric] error_directive_def by (simp split: if_splits)
  have on: "output_file_name opts = output_file_name opts0" by (simp add: opts_def)
  have ne: "EXIT_SUCCESS \<noteq> EXIT_FAILURE" by (simp add: EXIT_SUCCESS_def EXIT_FAILURE_def)
  have "num_errors (final_state r) = 4 * int (length bad)"
    using n12 by (simp add: r num_errors_output)
  moreover have "exit_status r = EXIT_SUCCESS \<longleftrightarrow> bad = []"
    using n12 ne by (simp add: r)
  moreover have "bad \<noteq> [] \<longrightarrow> exit_status r = EXIT_FAILURE
      \<and> last (stdout (final_state r)) = error_directive
      \<and> output_file_removed r = (output_file_name opts0 \<noteq> None)"
    using n12 on by (simp add: r print_all_def)
  moreover have "bad = [] \<longrightarrow> \<not> output_file_removed r"
    using n12 by (simp add: r)
  moreover have "exit_status r = EXIT_SUCCESS \<or> exit_status r = EXIT_FAILURE"
    by (simp add: r)
  ultimately show ?thesis
    unfolding Let_def fs_def [symmetric] opts_def [symmetric] bad_def [symmetric]
    by auto
qed

text \<open>
  The theorem at a run with two files in error and at a run with none.
\<close>

theorem main_error_atomicity_witness:
  "exit_status (projr (main ex_opts_errors ex_fs)) = EXIT_FAILURE
   \<and> num_errors (final_state (projr (main ex_opts_errors ex_fs))) = 8
   \<and> last (stdout (final_state (projr (main ex_opts_errors ex_fs)))) = error_directive
   \<and> output_file_removed (projr (main ex_opts_errors ex_fs))
   \<and> exit_status (projr (main ex_opts ex_fs)) = EXIT_SUCCESS
   \<and> num_errors (final_state (projr (main ex_opts ex_fs))) = 0
   \<and> \<not> output_file_removed (projr (main ex_opts ex_fs))"
proof -
  have "\<not> isl (main ex_opts_errors ex_fs)" by code_simp
  then have bad: "main ex_opts_errors ex_fs = Inr (projr (main ex_opts_errors ex_fs))" by simp
  have "\<not> isl (main ex_opts ex_fs)" by code_simp
  then have good: "main ex_opts ex_fs = Inr (projr (main ex_opts ex_fs))" by simp
  have b: "filter (file_in_error (ex_opts_errors\<lparr>files := do_path_search ex_opts_errors
                (with_output_file ex_opts_errors ex_fs)\<rparr>) (with_output_file ex_opts_errors ex_fs))
             (files (ex_opts_errors\<lparr>files := do_path_search ex_opts_errors
                (with_output_file ex_opts_errors ex_fs)\<rparr>))
           = [''missing.init'', ''x.txt'']"
    by code_simp
  have g: "filter (file_in_error (ex_opts\<lparr>files := do_path_search ex_opts
                (with_output_file ex_opts ex_fs)\<rparr>) (with_output_file ex_opts ex_fs))
             (files (ex_opts\<lparr>files := do_path_search ex_opts (with_output_file ex_opts ex_fs)\<rparr>))
           = []"
    by code_simp
  have o: "output_file_name ex_opts_errors \<noteq> None" by (simp add: ex_opts_errors_def)
  from main_error_atomicity [OF bad] main_error_atomicity [OF good] o show ?thesis
    unfolding Let_def b g by simp
qed

text \<open>
  A run that does not reach the end of \<^verbatim>\<open>main\<close>: after the error for \<^verbatim>\<open>x.txt\<close>,
  \<^verbatim>\<open>process_c_file\<close> stops the program at the special character in \<^verbatim>\<open>b@d.c\<close>, with no
  \<^verbatim>\<open>#error\<close> directive written and the output file left in place.
\<close>

theorem main_error_atomicity_counterexample:
  "isl (main ex_opts_special ex_fs)
   \<and> fst (projl (main ex_opts_special ex_fs)) = Exit EXIT_FAILURE
   \<and> num_errors (snd (projl (main ex_opts_special ex_fs))) = 1
   \<and> error_directive \<notin> set (stdout (snd (projl (main ex_opts_special ex_fs))))
   \<and> last (stdout (snd (projl (main ex_opts_special ex_fs)))) = ''{\<newline>''"
  by code_simp

end
